theory Spec2Isabelle
  imports
    Main
    "HOL-Library.Word"
    "HOL-Library.Multiset"
    "HOL-Library.Char_ord"
    "HOL-Library.List_Lexorder"
begin

section \<open>Data model of ghapi.go\<close>

text \<open>
  Go's \<^verbatim>\<open>int64\<close> is a 64-bit word read as two's complement (\<open>sint\<close>); \<open>+\<close> wraps
  around as in Go. Comparisons of the source (\<^verbatim>\<open><\<close>, \<^verbatim>\<open>></\<close> on \<^verbatim>\<open>int64\<close>) are the signed ones.

  A \<^verbatim>\<open>time.Time\<close> is modelled by its instant, in nanoseconds since the Unix epoch; the
  location and the monotonic clock reading of the Go value are not modelled, so \<^verbatim>\<open>!=\<close> on
  two times is inequality of instants and \<^verbatim>\<open>Before\<close> is \<open><\<close>.

  A Go pointer is an \<open>option\<close>: \<open>None\<close> is \<^verbatim>\<open>nil\<close>. Reading through a nil pointer is the
  failure \<open>NilDereference\<close>, an index out of range is \<open>IndexOutOfRange\<close>, and
  \<^verbatim>\<open>FatalOnError\<close> on a non-nil error is \<open>FatalError\<close>; each of the three ends the process.
\<close>

type_synonym int64 = "64 word"
type_synonym Time = int

datatype failure = NilDereference | IndexOutOfRange | FatalError

text \<open>
  The remote objects of the go-github client. Only the fields that ghapi.go reads in a
  test, a dereference or a column that a later query of ghapi.go reads back are kept;
  columns that are only copied into a row (body, counters, SHAs, the denormalised
  \<^verbatim>\<open>dup_\<close> columns) are left out.
\<close>

record User =
  User_ID :: "int64 option"
  User_Login :: "string option"

record Milestone =
  Milestone_ID :: "int64 option"
  Milestone_Creator :: "User option"

record Issue =
  Issue_ID :: "int64 option"
  Issue_State :: "string option"
  Issue_Title :: "string option"
  Issue_Locked :: "bool option"
  Issue_ClosedAt :: "Time option"
  Issue_User :: "User option"
  Issue_Assignee :: "User option"
  Issue_Assignees :: "User option list"
  Issue_Milestone :: "Milestone option"

record IssueEvent =
  IssueEvent_Actor :: "User option"

record PullRequest =
  PR_ID :: "int64 option"
  PR_State :: "string option"
  PR_Title :: "string option"
  PR_UpdatedAt :: "Time option"
  PR_ClosedAt :: "Time option"
  PR_MergedAt :: "Time option"
  PR_Merged :: "bool option"
  PR_User :: "User option"
  PR_MergedBy :: "User option"
  PR_Assignee :: "User option"
  PR_Assignees :: "User option list"
  PR_RequestedReviewers :: "User option list"
  PR_Milestone :: "Milestone option"

text \<open>
  \<^verbatim>\<open>type IssueConfig struct\<close>. The two Go maps \<^verbatim>\<open>LabelsMap\<close> and \<^verbatim>\<open>AssigneesMap\<close> are
  association lists: the list order stands for the order in which \<^verbatim>\<open>range\<close> happens to
  visit the map, which Go leaves unspecified.
\<close>

record IssueConfig =
  Repo :: string
  Number :: int
  IssueID :: int64
  Pr :: bool
  MilestoneID :: "int64 option"
  Labels :: string
  LabelsMap :: "(int64 \<times> string) list"
  GhIssue :: "Issue option"
  CreatedAt :: Time
  EventID :: int64
  EventType :: string
  GhEvent :: "IssueEvent option"
  AssigneeID :: "int64 option"
  Assignees :: string
  AssigneesMap :: "(int64 \<times> string) list"

text \<open>The two fields of \<^verbatim>\<open>Ctx\<close> that ghapi.go's writers and workers read.\<close>

record Ctx =
  SkipPDB :: bool
  Debug :: int

section \<open>Rows and statements\<close>

record gha_issues_row =
  i_id :: int64
  i_event_id :: int64
  i_assignee_id :: "int64 option"
  i_closed_at :: "Time option"
  i_locked :: "bool option"
  i_milestone_id :: "int64 option"
  i_state :: "string option"
  i_title :: "string option"
  i_updated_at :: Time
  i_user_id :: "int64 option"

record gha_pull_requests_row =
  p_id :: int64
  p_event_id :: int64
  p_user_id :: "int64 option"
  p_merged_by_id :: "int64 option"
  p_assignee_id :: "int64 option"
  p_milestone_id :: "int64 option"
  p_state :: "string option"
  p_title :: "string option"
  p_updated_at :: "Time option"
  p_closed_at :: "Time option"
  p_merged_at :: "Time option"
  p_merged :: "bool option"

text \<open>
  One constructor per SQL statement text of the two writers, with the bound parameters
  that are modelled. \<open>Begin\<close> and \<open>Commit\<close> are \<^verbatim>\<open>c.Begin()\<close> and \<^verbatim>\<open>tc.Commit()\<close>.
  The statements built with \<^verbatim>\<open>InsertIgnore\<close> are those of \<^verbatim>\<open>gha_actors\<close>,
  \<^verbatim>\<open>gha_milestones\<close>, \<^verbatim>\<open>gha_events\<close> and \<^verbatim>\<open>gha_payloads\<close>.
\<close>

datatype stmt =
    Begin
  | Insert_gha_actors "int64 option" string
  | Insert_gha_milestones "int64 option" int64 "int64 option"
  | Insert_gha_issues gha_issues_row
  | Insert_gha_pull_requests gha_pull_requests_row
  | Insert_gha_events int64 string "int64 option"
  | Insert_gha_payloads int64 int64 "int64 option"
  | Update_gha_payloads int64 int64 int64
  | Insert_gha_issues_labels int64 int64 int64 string
  | Insert_gha_issues_assignees int64 int64 int64
  | Insert_gha_pull_requests_assignees int64 int64 "int64 option"
  | Insert_gha_pull_requests_requested_reviewers int64 int64 "int64 option"
  | Commit

text \<open>The \<^verbatim>\<open>event_id\<close> (for \<^verbatim>\<open>gha_events\<close>: \<^verbatim>\<open>id\<close>) that a statement binds, if it has one.\<close>

fun stmt_event_id :: "stmt \<Rightarrow> int64 option" where
  "stmt_event_id Begin = None"
| "stmt_event_id (Insert_gha_actors aid login) = None"
| "stmt_event_id (Insert_gha_milestones mid eid creator) = Some eid"
| "stmt_event_id (Insert_gha_issues r) = Some (i_event_id r)"
| "stmt_event_id (Insert_gha_pull_requests r) = Some (p_event_id r)"
| "stmt_event_id (Insert_gha_events eid etype actor) = Some eid"
| "stmt_event_id (Insert_gha_payloads eid iid prid) = Some eid"
| "stmt_event_id (Update_gha_payloads prid iid eid) = Some eid"
| "stmt_event_id (Insert_gha_issues_labels iid eid lid lname) = Some eid"
| "stmt_event_id (Insert_gha_issues_assignees iid eid aid) = Some eid"
| "stmt_event_id (Insert_gha_pull_requests_assignees prid eid aid) = Some eid"
| "stmt_event_id (Insert_gha_pull_requests_requested_reviewers prid eid rid) = Some eid"
| "stmt_event_id Commit = None"

text \<open>The step of the writer transaction that a statement belongs to.\<close>

datatype step = TxBegin | Actors | MilestoneRow | Snapshot | EventRow | PayloadRow | Joins | TxCommit

fun stmt_step :: "stmt \<Rightarrow> step" where
  "stmt_step Begin = TxBegin"
| "stmt_step (Insert_gha_actors aid login) = Actors"
| "stmt_step (Insert_gha_milestones mid eid creator) = MilestoneRow"
| "stmt_step (Insert_gha_issues r) = Snapshot"
| "stmt_step (Insert_gha_pull_requests r) = Snapshot"
| "stmt_step (Insert_gha_events eid etype actor) = EventRow"
| "stmt_step (Insert_gha_payloads eid iid prid) = PayloadRow"
| "stmt_step (Update_gha_payloads prid iid eid) = PayloadRow"
| "stmt_step (Insert_gha_issues_labels iid eid lid lname) = Joins"
| "stmt_step (Insert_gha_issues_assignees iid eid aid) = Joins"
| "stmt_step (Insert_gha_pull_requests_assignees prid eid aid) = Joins"
| "stmt_step (Insert_gha_pull_requests_requested_reviewers prid eid rid) = Joins"
| "stmt_step Commit = TxCommit"

text \<open>The lines that the writers print.\<close>

datatype log_line = NoDBWritePR IssueConfig | NoDBWriteIssue IssueConfig

section \<open>The snapshot writers\<close>

definition ghActorIDOrNil :: "User option \<Rightarrow> int64 option" where
  "ghActorIDOrNil actPtr = (case actPtr of None \<Rightarrow> None | Some a \<Rightarrow> User_ID a)"

definition ghActorLoginOrNil :: "User option \<Rightarrow> (string \<Rightarrow> string) \<Rightarrow> string option" where
  "ghActorLoginOrNil actPtr maybeHide =
     (case actPtr of None \<Rightarrow> None
      | Some a \<Rightarrow> (case User_Login a of None \<Rightarrow> None | Some l \<Rightarrow> Some (maybeHide l)))"

definition ghMilestoneIDOrNil :: "Milestone option \<Rightarrow> int64 option" where
  "ghMilestoneIDOrNil milPtr = (case milPtr of None \<Rightarrow> None | Some m \<Rightarrow> Milestone_ID m)"

text \<open>\<^verbatim>\<open>ghActor\<close>: nothing for a nil actor or a nil login, else one insert-if-absent.\<close>

definition ghActor :: "User option \<Rightarrow> (string \<Rightarrow> string) \<Rightarrow> stmt list" where
  "ghActor actor maybeHide =
     (case actor of None \<Rightarrow> []
      | Some a \<Rightarrow> (case User_Login a of None \<Rightarrow> []
                  | Some l \<Rightarrow> [Insert_gha_actors (User_ID a) (maybeHide l)]))"

text \<open>
  \<^verbatim>\<open>ghMilestone\<close> reads the milestone of \<^verbatim>\<open>ic.GhIssue\<close> (also when the PR writer calls it)
  and dereferences \<^verbatim>\<open>milestone\<close>, \<^verbatim>\<open>ev.Actor\<close> and \<^verbatim>\<open>ev.Actor.Login\<close> without a check.
\<close>

definition ghMilestone :: "int64 \<Rightarrow> IssueConfig \<Rightarrow> (string \<Rightarrow> string) \<Rightarrow> failure + stmt list" where
  "ghMilestone eid ic maybeHide =
     (case GhIssue ic of None \<Rightarrow> Inl NilDereference | Some issue \<Rightarrow>
     (case GhEvent ic of None \<Rightarrow> Inl NilDereference | Some ev \<Rightarrow>
     (case Issue_Milestone issue of None \<Rightarrow> Inl NilDereference | Some milestone \<Rightarrow>
     (case IssueEvent_Actor ev of None \<Rightarrow> Inl NilDereference | Some actor \<Rightarrow>
     (case User_Login actor of None \<Rightarrow> Inl NilDereference | Some login \<Rightarrow>
        Inr [Insert_gha_milestones (MilestoneID ic) eid
               (ghActorIDOrNil (Milestone_Creator milestone))])))))"

text \<open>The block \<^verbatim>\<open>// Actors\<close> of \<^verbatim>\<open>ArtificialEvent\<close>.\<close>

definition issueActorStmts :: "Issue \<Rightarrow> (string \<Rightarrow> string) \<Rightarrow> stmt list" where
  "issueActorStmts issue maybeHide =
     ghActor (Issue_Assignee issue) maybeHide
     @ ghActor (Issue_User issue) maybeHide
     @ concat (map (\<lambda>assignee. ghActor assignee maybeHide) (Issue_Assignees issue))
     @ (case Issue_Milestone issue of None \<Rightarrow> []
        | Some m \<Rightarrow> ghActor (Milestone_Creator m) maybeHide)"

text \<open>
  The statements that \<^verbatim>\<open>ArtificialEvent\<close> issues from \<^verbatim>\<open>c.Begin()\<close> to
  \<^verbatim>\<open>tc.Commit()\<close>, in that order, once \<^verbatim>\<open>cfg.GhIssue\<close> and \<^verbatim>\<open>cfg.GhEvent\<close> are known
  not to be nil; \<open>milestoneStmts\<close> is what the call of \<^verbatim>\<open>ghMilestone\<close> issued (nothing
  when the issue has no milestone).
\<close>

definition ArtificialEvent_stmts ::
  "(string \<Rightarrow> string) \<Rightarrow> IssueConfig \<Rightarrow> Issue \<Rightarrow> IssueEvent \<Rightarrow> stmt list \<Rightarrow> stmt list" where
  "ArtificialEvent_stmts maybeHide cfg issue event milestoneStmts =
     (let eid = EventID cfg;
          iid = IssueID cfg;
          eventID = 281474976710656 + eid;
          now = CreatedAt cfg
      in
        [Begin]
        @ issueActorStmts issue maybeHide
        @ [Insert_gha_issues
             \<lparr> i_id = iid, i_event_id = eventID,
               i_assignee_id = ghActorIDOrNil (Issue_Assignee issue),
               i_closed_at = Issue_ClosedAt issue,
               i_locked = Issue_Locked issue,
               i_milestone_id = ghMilestoneIDOrNil (Issue_Milestone issue),
               i_state = Issue_State issue,
               i_title = Issue_Title issue,
               i_updated_at = now,
               i_user_id = ghActorIDOrNil (Issue_User issue) \<rparr>]
        @ milestoneStmts
        @ [Insert_gha_events eventID (EventType cfg) (ghActorIDOrNil (IssueEvent_Actor event)),
           Insert_gha_payloads eventID iid None]
        @ map (\<lambda>(labelID, labelName). Insert_gha_issues_labels iid eventID labelID labelName)
            (LabelsMap cfg)
        @ map (\<lambda>(assigneeID, login). Insert_gha_issues_assignees iid eventID assigneeID)
            (AssigneesMap cfg)
        @ [Commit])"

text \<open>
  \<^verbatim>\<open>ArtificialEvent\<close>. The result is the printed lines and the statements of the committed
  transaction. A panic inside the transaction leaves it uncommitted, so a failure carries
  no statements. The second argument stands for \<^verbatim>\<open>MaybeHideFunc(GetHidden(HideCfgFile))\<close>,
  which is not part of ghapi.go.
\<close>

definition ArtificialEvent ::
  "Ctx \<Rightarrow> (string \<Rightarrow> string) \<Rightarrow> IssueConfig \<Rightarrow> failure + (log_line list \<times> stmt list)" where
  "ArtificialEvent ctx maybeHide cfg =
     (if SkipPDB ctx then Inr (if Debug ctx > 0 then [NoDBWriteIssue cfg] else [], [])
      else
        (case GhIssue cfg of None \<Rightarrow> Inl NilDereference | Some issue \<Rightarrow>
        (case GhEvent cfg of None \<Rightarrow> Inl NilDereference | Some event \<Rightarrow>
        (case (case Issue_Milestone issue of None \<Rightarrow> Inr []
               | Some m \<Rightarrow> ghMilestone (281474976710656 + EventID cfg) cfg maybeHide) of
          Inl f \<Rightarrow> Inl f
        | Inr milestoneStmts \<Rightarrow>
            Inr ([], ArtificialEvent_stmts maybeHide cfg issue event milestoneStmts)))))"

text \<open>
  The two loops of \<^verbatim>\<open>ArtificialPREvent\<close> over \<^verbatim>\<open>pr.Assignees\<close> and
  \<^verbatim>\<open>pr.RequestedReviewers\<close>: a nil element is skipped, every other one gets its actor
  upsert followed by its join row.
\<close>

definition prAssigneeStmts :: "int64 \<Rightarrow> int64 \<Rightarrow> (string \<Rightarrow> string) \<Rightarrow> User option \<Rightarrow> stmt list" where
  "prAssigneeStmts prid eventID maybeHide assignee =
     (case assignee of None \<Rightarrow> []
      | Some a \<Rightarrow> ghActor assignee maybeHide
                  @ [Insert_gha_pull_requests_assignees prid eventID (User_ID a)])"

definition prReviewerStmts :: "int64 \<Rightarrow> int64 \<Rightarrow> (string \<Rightarrow> string) \<Rightarrow> User option \<Rightarrow> stmt list" where
  "prReviewerStmts prid eventID maybeHide reviewer =
     (case reviewer of None \<Rightarrow> []
      | Some a \<Rightarrow> ghActor reviewer maybeHide
                  @ [Insert_gha_pull_requests_requested_reviewers prid eventID (User_ID a)])"

text \<open>
  The actor upserts of \<^verbatim>\<open>ArtificialPREvent\<close> that precede the milestone: \<^verbatim>\<open>pr.User\<close>,
  then \<^verbatim>\<open>pr.MergedBy\<close> and \<^verbatim>\<open>pr.Assignee\<close> when they are not nil.
\<close>

definition prActorStmts :: "PullRequest \<Rightarrow> (string \<Rightarrow> string) \<Rightarrow> stmt list" where
  "prActorStmts pr maybeHide =
     ghActor (PR_User pr) maybeHide
     @ (case PR_MergedBy pr of None \<Rightarrow> [] | Some u \<Rightarrow> ghActor (PR_MergedBy pr) maybeHide)
     @ (case PR_Assignee pr of None \<Rightarrow> [] | Some u \<Rightarrow> ghActor (PR_Assignee pr) maybeHide)"

text \<open>
  The statements that \<^verbatim>\<open>ArtificialPREvent\<close> issues from \<^verbatim>\<open>c.Begin()\<close> to
  \<^verbatim>\<open>tc.Commit()\<close>, in that order, once the pointers it dereferences are known not to be
  nil: \<open>iid\<close> is \<^verbatim>\<open>*issue.ID\<close> and \<open>prid\<close> is \<^verbatim>\<open>*pr.ID\<close>.
\<close>

definition ArtificialPREvent_stmts ::
  "(string \<Rightarrow> string) \<Rightarrow> IssueConfig \<Rightarrow> PullRequest \<Rightarrow> int64 \<Rightarrow> IssueEvent \<Rightarrow> int64
     \<Rightarrow> stmt list \<Rightarrow> stmt list" where
  "ArtificialPREvent_stmts maybeHide cfg pr iid event prid milestoneStmts =
     (let eventID = 281474976710656 + EventID cfg in
        [Begin]
        @ prActorStmts pr maybeHide
        @ milestoneStmts
        @ [Insert_gha_pull_requests
             \<lparr> p_id = prid, p_event_id = eventID,
               p_user_id = ghActorIDOrNil (PR_User pr),
               p_merged_by_id = ghActorIDOrNil (PR_MergedBy pr),
               p_assignee_id = ghActorIDOrNil (PR_Assignee pr),
               p_milestone_id = ghMilestoneIDOrNil (PR_Milestone pr),
               p_state = PR_State pr,
               p_title = PR_Title pr,
               p_updated_at = PR_UpdatedAt pr,
               p_closed_at = PR_ClosedAt pr,
               p_merged_at = PR_MergedAt pr,
               p_merged = PR_Merged pr \<rparr>,
           Insert_gha_events eventID (EventType cfg) (ghActorIDOrNil (IssueEvent_Actor event)),
           Insert_gha_payloads eventID iid (Some prid),
           Update_gha_payloads prid iid eventID]
        @ concat (map (prAssigneeStmts prid eventID maybeHide) (PR_Assignees pr))
        @ concat (map (prReviewerStmts prid eventID maybeHide) (PR_RequestedReviewers pr))
        @ [Commit])"

text \<open>
  \<^verbatim>\<open>ArtificialPREvent\<close>. Before the transaction it dereferences \<^verbatim>\<open>issue.ID\<close> and
  \<^verbatim>\<open>cfg.GhEvent\<close>; inside it, \<^verbatim>\<open>pr.ID\<close> and (for the \<^verbatim>\<open>dup_actor_id\<close> column of the
  pull-request row) \<^verbatim>\<open>actor\<close>.
\<close>

definition ArtificialPREvent ::
  "Ctx \<Rightarrow> (string \<Rightarrow> string) \<Rightarrow> IssueConfig \<Rightarrow> PullRequest
     \<Rightarrow> failure + (log_line list \<times> stmt list)" where
  "ArtificialPREvent ctx maybeHide cfg pr =
     (if SkipPDB ctx then Inr (if Debug ctx > 0 then [NoDBWritePR cfg] else [], [])
      else
        (case GhIssue cfg of None \<Rightarrow> Inl NilDereference | Some issue \<Rightarrow>
        (case Issue_ID issue of None \<Rightarrow> Inl NilDereference | Some iid \<Rightarrow>
        (case GhEvent cfg of None \<Rightarrow> Inl NilDereference | Some event \<Rightarrow>
        (case (case PR_Milestone pr of None \<Rightarrow> Inr []
               | Some m \<Rightarrow> ghMilestone (281474976710656 + EventID cfg) cfg maybeHide) of
          Inl f \<Rightarrow> Inl f
        | Inr milestoneStmts \<Rightarrow>
        (case PR_ID pr of None \<Rightarrow> Inl NilDereference | Some prid \<Rightarrow>
        (case IssueEvent_Actor event of None \<Rightarrow> Inl NilDereference | Some actor \<Rightarrow>
            Inr ([], ArtificialPREvent_stmts maybeHide cfg pr iid event prid milestoneStmts))))))))"

section \<open>The candidate normalizer\<close>

text \<open>\<^verbatim>\<open>IssueConfigAry.Less\<close>, on the two elements that the indices select.\<close>

definition Less :: "IssueConfig \<Rightarrow> IssueConfig \<Rightarrow> bool" where
  "Less a b =
     (if IssueID a \<noteq> IssueID b then IssueID a <s IssueID b
      else if CreatedAt a \<noteq> CreatedAt b then CreatedAt a < CreatedAt b
      else EventID a <s EventID b)"

text \<open>
  \<^verbatim>\<open>sort.Sort\<close> is not stable: all that Go promises of its result is that it is a
  rearrangement of the slice in which no element is \<^verbatim>\<open>Less\<close> than an earlier one.
  \<open>Sort_result\<close> says that of a list; \<open>sort_Sort\<close> is one such rearrangement (insertion
  from the right), used where a concrete slice is evaluated.
\<close>

definition Sort_result :: "IssueConfig list \<Rightarrow> IssueConfig list \<Rightarrow> bool" where
  "Sort_result ary sorted_ary =
     (mset sorted_ary = mset ary \<and> sorted_wrt (\<lambda>a b. \<not> Less b a) sorted_ary)"

fun insert_Less :: "IssueConfig \<Rightarrow> IssueConfig list \<Rightarrow> IssueConfig list" where
  "insert_Less x [] = [x]"
| "insert_Less x (y # ys) = (if Less y x then y # insert_Less x ys else x # y # ys)"

definition sort_Sort :: "IssueConfig list \<Rightarrow> IssueConfig list" where
  "sort_Sort ary = foldr insert_Less ary []"

text \<open>
  Modelled from the spec: \<^verbatim>\<open>ToYMDHMSDate\<close> is not part of ghapi.go; the spec gives its
  result as the \<^verbatim>\<open>YYYY-MM-DD HH:MM:SS\<close> string of a time. The calendar date is that of the
  instant in UTC (days since 1970-01-01 turned into a civil date), every field is printed
  in decimal and padded with zeros to its width.
\<close>

definition digit :: "nat \<Rightarrow> char" where
  "digit n = ''0123456789'' ! (n mod 10)"

fun decimal :: "nat \<Rightarrow> string" where
  "decimal n = (if n < 10 then [digit n] else decimal (n div 10) @ [digit n])"

declare decimal.simps [simp del]

definition pad :: "nat \<Rightarrow> nat \<Rightarrow> string" where
  "pad w n = replicate (w - length (decimal n)) CHR ''0'' @ decimal n"

definition civil_from_days :: "int \<Rightarrow> int \<times> int \<times> int" where
  "civil_from_days days =
     (let z = days + 719468;
          era = z div 146097;
          doe = z - era * 146097;
          yoe = (doe - doe div 1460 + doe div 36524 - doe div 146096) div 365;
          y = yoe + era * 400;
          doy = doe - (365 * yoe + yoe div 4 - yoe div 100);
          mp = (5 * doy + 2) div 153;
          d = doy - (153 * mp + 2) div 5 + 1;
          m = (if mp < 10 then mp + 3 else mp - 9)
      in (if m \<le> 2 then y + 1 else y, m, d))"

definition ToYMDHMSDate :: "Time \<Rightarrow> string" where
  "ToYMDHMSDate dt =
     (let secs = dt div 1000000000;
          rem = secs mod 86400;
          (y, m, d) = civil_from_days (secs div 86400)
      in (if y < 0 then CHR ''-'' # pad 3 (nat (- y)) else pad 4 (nat y))
         @ ''-'' @ pad 2 (nat m) @ ''-'' @ pad 2 (nat d) @ '' ''
         @ pad 2 (nat (rem div 3600)) @ '':'' @ pad 2 (nat (rem mod 3600 div 60))
         @ '':'' @ pad 2 (nat (rem mod 60)))"

text \<open>
  The loop \<^verbatim>\<open>// Leave only final state\<close> of \<^verbatim>\<open>SyncIssuesState\<close> for one issue id.
  \<open>final_state_map\<close> is the map \<^verbatim>\<open>mp\<close> after the first inner loop: a later element
  overwrites an earlier one of the same second. The keys of \<^verbatim>\<open>mp\<close> are the seconds of the
  elements; \<^verbatim>\<open>sort.Strings\<close> puts them in ascending order, whatever order \<^verbatim>\<open>range mp\<close>
  produced them in. Reading a key that a Go map does not hold gives the zero value.
\<close>

definition zero_IssueConfig :: IssueConfig where
  "zero_IssueConfig =
     \<lparr> Repo = [], Number = 0, IssueID = 0, Pr = False, MilestoneID = None, Labels = [],
       LabelsMap = [], GhIssue = None, CreatedAt = 0, EventID = 0, EventType = [],
       GhEvent = None, AssigneeID = None, Assignees = [], AssigneesMap = [] \<rparr>"

definition final_state_map :: "IssueConfig list \<Rightarrow> (string \<rightharpoonup> IssueConfig)" where
  "final_state_map issueConfigAry =
     fold (\<lambda>issue mp. mp(ToYMDHMSDate (CreatedAt issue) \<mapsto> issue)) issueConfigAry Map.empty"

definition leave_final_state :: "IssueConfig list \<Rightarrow> IssueConfig list" where
  "leave_final_state issueConfigAry =
     (let mp = final_state_map issueConfigAry;
          sdts = sort (remdups (map (\<lambda>issue. ToYMDHMSDate (CreatedAt issue)) issueConfigAry))
      in map (\<lambda>sdt. case mp sdt of None \<Rightarrow> zero_IssueConfig | Some issue \<Rightarrow> issue) sdts)"

text \<open>Normalization of the candidates of one issue id in non-manual mode.\<close>

definition normalize_issues :: "IssueConfig list \<Rightarrow> IssueConfig list" where
  "normalize_issues issueConfigAry = leave_final_state (sort_Sort issueConfigAry)"

section \<open>The store\<close>

text \<open>
  The tables that the writers fill, each as the list of its rows in insertion order, with
  the columns that are modelled:
  \<^verbatim>\<open>gha_actors(id, login)\<close>, \<^verbatim>\<open>gha_milestones(id, event_id, creator_id)\<close>,
  \<^verbatim>\<open>gha_events(id, type, actor_id)\<close>, \<^verbatim>\<open>gha_payloads(event_id, issue_id, pull_request_id)\<close>,
  \<^verbatim>\<open>gha_issues_labels(issue_id, event_id, label_id, dup_label_name)\<close>,
  \<^verbatim>\<open>gha_issues_assignees(issue_id, event_id, assignee_id)\<close>,
  \<^verbatim>\<open>gha_pull_requests_assignees(pull_request_id, event_id, assignee_id)\<close> and
  \<^verbatim>\<open>gha_pull_requests_requested_reviewers(pull_request_id, event_id, requested_reviewer_id)\<close>.
\<close>

record store =
  gha_actors :: "(int64 option \<times> string) list"
  gha_milestones :: "(int64 option \<times> int64 \<times> int64 option) list"
  gha_issues :: "gha_issues_row list"
  gha_pull_requests :: "gha_pull_requests_row list"
  gha_events :: "(int64 \<times> string \<times> int64 option) list"
  gha_payloads :: "(int64 \<times> int64 \<times> int64 option) list"
  gha_issues_labels :: "(int64 \<times> int64 \<times> int64 \<times> string) list"
  gha_issues_assignees :: "(int64 \<times> int64 \<times> int64) list"
  gha_pull_requests_assignees :: "(int64 \<times> int64 \<times> int64 option) list"
  gha_pull_requests_requested_reviewers :: "(int64 \<times> int64 \<times> int64 option) list"

text \<open>
  Modelled from the spec: \<^verbatim>\<open>InsertIgnore\<close> and the schema are not part of ghapi.go. The spec
  asks for insert-if-absent on the id of \<^verbatim>\<open>gha_actors\<close>, on the id of \<^verbatim>\<open>gha_events\<close> and on
  the event id of \<^verbatim>\<open>gha_payloads\<close>; for \<^verbatim>\<open>gha_milestones\<close> it names no key and the pair of
  id and event id is taken. A plain \<^verbatim>\<open>insert\<close> appends its row: no constraint of the
  schema is modelled, and no statement fails.
\<close>

definition insert_if_absent :: "('a \<Rightarrow> bool) \<Rightarrow> 'a \<Rightarrow> 'a list \<Rightarrow> 'a list" where
  "insert_if_absent conflicts row rows = (if \<exists>r\<in>set rows. conflicts r then rows else rows @ [row])"

fun exec_stmt :: "stmt \<Rightarrow> store \<Rightarrow> store" where
  "exec_stmt Begin c = c"
| "exec_stmt (Insert_gha_actors aid login) c =
     c \<lparr> gha_actors := insert_if_absent (\<lambda>r. fst r = aid) (aid, login) (gha_actors c) \<rparr>"
| "exec_stmt (Insert_gha_milestones mid eid creator) c =
     c \<lparr> gha_milestones :=
           insert_if_absent (\<lambda>r. fst r = mid \<and> fst (snd r) = eid) (mid, eid, creator)
             (gha_milestones c) \<rparr>"
| "exec_stmt (Insert_gha_issues r) c = c \<lparr> gha_issues := gha_issues c @ [r] \<rparr>"
| "exec_stmt (Insert_gha_pull_requests r) c = c \<lparr> gha_pull_requests := gha_pull_requests c @ [r] \<rparr>"
| "exec_stmt (Insert_gha_events eid etype actor) c =
     c \<lparr> gha_events := insert_if_absent (\<lambda>r. fst r = eid) (eid, etype, actor) (gha_events c) \<rparr>"
| "exec_stmt (Insert_gha_payloads eid iid prid) c =
     c \<lparr> gha_payloads := insert_if_absent (\<lambda>r. fst r = eid) (eid, iid, prid) (gha_payloads c) \<rparr>"
| "exec_stmt (Update_gha_payloads prid iid eid) c =
     c \<lparr> gha_payloads :=
           map (\<lambda>(e, i, p). if i = iid \<and> e = eid then (e, i, Some prid) else (e, i, p))
             (gha_payloads c) \<rparr>"
| "exec_stmt (Insert_gha_issues_labels iid eid lid lname) c =
     c \<lparr> gha_issues_labels := gha_issues_labels c @ [(iid, eid, lid, lname)] \<rparr>"
| "exec_stmt (Insert_gha_issues_assignees iid eid aid) c =
     c \<lparr> gha_issues_assignees := gha_issues_assignees c @ [(iid, eid, aid)] \<rparr>"
| "exec_stmt (Insert_gha_pull_requests_assignees prid eid aid) c =
     c \<lparr> gha_pull_requests_assignees := gha_pull_requests_assignees c @ [(prid, eid, aid)] \<rparr>"
| "exec_stmt (Insert_gha_pull_requests_requested_reviewers prid eid rid) c =
     c \<lparr> gha_pull_requests_requested_reviewers :=
           gha_pull_requests_requested_reviewers c @ [(prid, eid, rid)] \<rparr>"
| "exec_stmt Commit c = c"

text \<open>The effect of a committed transaction: its statements, in order.\<close>

definition exec_tx :: "stmt list \<Rightarrow> store \<Rightarrow> store" where
  "exec_tx stmts c = fold exec_stmt stmts c"

section \<open>The storage probe\<close>

text \<open>
  \<^verbatim>\<open>order by updated_at desc, event_id desc limit 1\<close> over the rows that the \<^verbatim>\<open>where\<close>
  clause selects: the row that no other selected row precedes in that order. Among rows
  that tie on both columns the earliest inserted is taken. The updated_at of
  \<^verbatim>\<open>gha_pull_requests\<close> is written from a pointer, so it may be null: a null compares equal or
  unequal to nothing, and sorts first in descending order.
\<close>

fun first_issue_row :: "gha_issues_row list \<Rightarrow> gha_issues_row option" where
  "first_issue_row [] = None"
| "first_issue_row (r # rs) =
     (case first_issue_row rs of
        None \<Rightarrow> Some r
      | Some b \<Rightarrow>
          if i_updated_at r < i_updated_at b
             \<or> (i_updated_at r = i_updated_at b \<and> i_event_id r <s i_event_id b)
          then Some b else Some r)"

definition pr_row_after :: "gha_pull_requests_row \<Rightarrow> gha_pull_requests_row \<Rightarrow> bool" where
  "pr_row_after r b =
     (case p_updated_at r of
        None \<Rightarrow> (case p_updated_at b of None \<Rightarrow> p_event_id r <s p_event_id b | Some y \<Rightarrow> False)
      | Some x \<Rightarrow> (case p_updated_at b of None \<Rightarrow> True
                  | Some y \<Rightarrow> x < y \<or> (x = y \<and> p_event_id r <s p_event_id b)))"

fun first_pr_row :: "gha_pull_requests_row list \<Rightarrow> gha_pull_requests_row option" where
  "first_pr_row [] = None"
| "first_pr_row (r # rs) =
     (case first_pr_row rs of
        None \<Rightarrow> Some r
      | Some b \<Rightarrow> if pr_row_after r b then Some b else Some r)"

text \<open>The two queries on \<^verbatim>\<open>gha_issues\<close> of the issue worker, by mode.\<close>

definition select_issue :: "bool \<Rightarrow> store \<Rightarrow> IssueConfig \<Rightarrow> gha_issues_row option" where
  "select_issue manual c cfg =
     first_issue_row
       (filter (\<lambda>r. i_id r = IssueID cfg \<and> (manual \<or> i_updated_at r = CreatedAt cfg))
          (gha_issues c))"

text \<open>The two queries on \<^verbatim>\<open>gha_pull_requests\<close> of the PR worker, and its collision query.\<close>

definition select_pr :: "bool \<Rightarrow> store \<Rightarrow> int64 \<Rightarrow> Time \<Rightarrow> gha_pull_requests_row option" where
  "select_pr manual c prid updatedAt =
     first_pr_row
       (filter (\<lambda>r. p_id r = prid \<and> (manual \<or> p_updated_at r = Some updatedAt))
          (gha_pull_requests c))"

definition pr_collision :: "store \<Rightarrow> int64 \<Rightarrow> int64 \<Rightarrow> Time \<Rightarrow> bool" where
  "pr_collision c prid eventID updatedAt =
     (\<exists>r\<in>set (gha_pull_requests c).
        p_id r = prid \<and> p_event_id r = eventID
        \<and> (case p_updated_at r of None \<Rightarrow> False | Some t \<Rightarrow> t \<noteq> updatedAt))"

text \<open>
  \<^verbatim>\<open>fmt.Sprintf("%d", x)\<close> for an \<^verbatim>\<open>int64\<close>, which is also the text that the database gives
  for a \<^verbatim>\<open>bigint\<close>, and the comma-joined list of ids: the loops that build \<^verbatim>\<open>apiAssignees\<close>
  and \<^verbatim>\<open>apiRequestedReviewers\<close>, and \<^verbatim>\<open>coalesce(string_agg(id::text, ','), '')\<close>.
\<close>

definition Sprintf_d :: "int64 \<Rightarrow> string" where
  "Sprintf_d x = (if sint x < 0 then CHR ''-'' # decimal (nat (- sint x)) else decimal (nat (sint x)))"

fun join_ids :: "int64 list \<Rightarrow> string" where
  "join_ids [] = []"
| "join_ids [x] = Sprintf_d x"
| "join_ids (x # y # zs) = Sprintf_d x @ '','' @ join_ids (y # zs)"

text \<open>The three aggregate queries: the ids of the join rows of an event, in ascending order.\<close>

definition select_labels :: "store \<Rightarrow> int64 \<Rightarrow> string" where
  "select_labels c eventID =
     join_ids (sort_key sint
       (map (\<lambda>(iid, eid, lid, lname). lid)
          (filter (\<lambda>(iid, eid, lid, lname). eid = eventID) (gha_issues_labels c))))"

definition select_issue_assignees :: "store \<Rightarrow> int64 \<Rightarrow> string" where
  "select_issue_assignees c eventID =
     join_ids (sort_key sint
       (map (\<lambda>(iid, eid, aid). aid)
          (filter (\<lambda>(iid, eid, aid). eid = eventID) (gha_issues_assignees c))))"

text \<open>
  In the two PR join tables the id column is written from a pointer; \<^verbatim>\<open>string_agg\<close> skips
  a null.
\<close>

definition select_pr_assignees :: "store \<Rightarrow> int64 \<Rightarrow> string" where
  "select_pr_assignees c eventID =
     join_ids (sort_key sint
       (List.map_filter (\<lambda>(prid, eid, aid). if eid = eventID then aid else None)
          (gha_pull_requests_assignees c)))"

definition select_pr_reviewers :: "store \<Rightarrow> int64 \<Rightarrow> string" where
  "select_pr_reviewers c eventID =
     join_ids (sort_key sint
       (List.map_filter (\<lambda>(prid, eid, rid). if eid = eventID then rid else None)
          (gha_pull_requests_requested_reviewers c)))"

section \<open>The divergence detector and the two workers\<close>

text \<open>
  The three-valued comparison of the source: both nil is equal, one nil is different, two
  values are compared; two times are compared through their \<^verbatim>\<open>ToYMDHMSDate\<close> strings.
\<close>

definition changed_value :: "'a option \<Rightarrow> 'a option \<Rightarrow> bool" where
  "changed_value api gha =
     ((api = None \<and> gha \<noteq> None) \<or> (api \<noteq> None \<and> gha = None)
      \<or> (api \<noteq> None \<and> gha \<noteq> None \<and> the api \<noteq> the gha))"

definition changed_time :: "Time option \<Rightarrow> Time option \<Rightarrow> bool" where
  "changed_time api gha =
     ((api = None \<and> gha \<noteq> None) \<or> (api \<noteq> None \<and> gha = None)
      \<or> (api \<noteq> None \<and> gha \<noteq> None \<and> ToYMDHMSDate (the api) \<noteq> ToYMDHMSDate (the gha)))"

text \<open>
  What the workers share: the database and the outcome counters \<^verbatim>\<open>updates\<close>.
  \<open>count_update\<close> is \<^verbatim>\<open>updates[uidx]++\<close>; \<open>commit_and_count\<close> is a call of a writer under
  \<^verbatim>\<open>FatalOnError\<close> (the writers return nil or panic) followed by \<^verbatim>\<open>updates[uidx]++\<close>.
\<close>

record sync_state =
  db :: store
  updates :: "nat list"

definition count_update :: "nat \<Rightarrow> sync_state \<Rightarrow> sync_state" where
  "count_update uidx st = st \<lparr> updates := (updates st)[uidx := updates st ! uidx + 1] \<rparr>"

definition commit_and_count ::
  "failure + (log_line list \<times> stmt list) \<Rightarrow> nat \<Rightarrow> sync_state \<Rightarrow> failure + sync_state" where
  "commit_and_count written uidx st =
     (case written of
        Inl f \<Rightarrow> Inl f
      | Inr (lg, stmts) \<Rightarrow> Inr (count_update uidx (st \<lparr> db := exec_tx stmts (db st) \<rparr>)))"

text \<open>
  The divergence detector of the issue worker: the checks from \<^verbatim>\<open>// Check state change\<close>
  to \<^verbatim>\<open>changedAnything\<close>, for a candidate whose \<^verbatim>\<open>State\<close>, \<^verbatim>\<open>Title\<close> and \<^verbatim>\<open>Locked\<close> were
  dereferenced and a stored row whose state, title and locked were scanned.
\<close>

definition issue_changed ::
  "store \<Rightarrow> IssueConfig \<Rightarrow> Issue \<Rightarrow> string \<Rightarrow> string \<Rightarrow> bool
     \<Rightarrow> gha_issues_row \<Rightarrow> string \<Rightarrow> string \<Rightarrow> bool \<Rightarrow> bool" where
  "issue_changed c cfg issue apiState apiTitle apiLocked row ghaState ghaTitle ghaLocked =
     (let ghaEventID = i_event_id row;
          changedState = (apiState \<noteq> ghaState);
          changedTitle = (apiTitle \<noteq> ghaTitle);
          changedLocked = (apiLocked \<noteq> ghaLocked);
          changedClosed = changed_time (Issue_ClosedAt issue) (i_closed_at row);
          changedMilestone = changed_value (MilestoneID cfg) (i_milestone_id row);
          changedAssignee = changed_value (AssigneeID cfg) (i_assignee_id row);
          changedLabels = (select_labels c ghaEventID \<noteq> Labels cfg);
          changedAssignees = (select_issue_assignees c ghaEventID \<noteq> Assignees cfg)
      in changedMilestone \<or> changedState \<or> changedClosed \<or> changedAssignee
         \<or> changedTitle \<or> changedLocked \<or> changedLabels \<or> changedAssignees)"

text \<open>
  The closure that \<^verbatim>\<open>SyncIssuesState\<close> starts for one issue candidate. Scanning a null
  into \<^verbatim>\<open>ghaState\<close>, \<^verbatim>\<open>ghaTitle\<close> or \<^verbatim>\<open>ghaLocked\<close> is an error of \<^verbatim>\<open>rowsM.Scan\<close>. The
  diagnostic output (\<^verbatim>\<open>Printf\<close>, \<^verbatim>\<open>why\<close>, \<^verbatim>\<open>what\<close>, \<^verbatim>\<open>infos\<close>) is not modelled.
\<close>

definition issue_worker ::
  "bool \<Rightarrow> Ctx \<Rightarrow> (string \<Rightarrow> string) \<Rightarrow> IssueConfig \<Rightarrow> sync_state \<Rightarrow> failure + sync_state" where
  "issue_worker manual ctx maybeHide cfg st =
     (case GhIssue cfg of None \<Rightarrow> Inl NilDereference | Some issue \<Rightarrow>
     (case Issue_State issue of None \<Rightarrow> Inl NilDereference | Some apiState \<Rightarrow>
     (case Issue_Title issue of None \<Rightarrow> Inl NilDereference | Some apiTitle \<Rightarrow>
     (case Issue_Locked issue of None \<Rightarrow> Inl NilDereference | Some apiLocked \<Rightarrow>
     (case select_issue manual (db st) cfg of
        None \<Rightarrow> commit_and_count (ArtificialEvent ctx maybeHide cfg) 0 st
      | Some row \<Rightarrow>
     (case i_state row of None \<Rightarrow> Inl FatalError | Some ghaState \<Rightarrow>
     (case i_title row of None \<Rightarrow> Inl FatalError | Some ghaTitle \<Rightarrow>
     (case i_locked row of None \<Rightarrow> Inl FatalError | Some ghaLocked \<Rightarrow>
        if \<not> manual \<and> 281474976710656 <s i_event_id row then Inr (count_update 1 st)
        else if issue_changed (db st) cfg issue apiState apiTitle apiLocked
                  row ghaState ghaTitle ghaLocked
          then commit_and_count (ArtificialEvent ctx maybeHide cfg) 3 st
        else Inr (count_update 2 st)))))))))"

text \<open>
  The ids of \<^verbatim>\<open>pr.Assignees\<close> or \<^verbatim>\<open>pr.RequestedReviewers\<close> as the PR worker collects them
  into a map: every element, its id and its login are dereferenced without a check.
\<close>

fun api_ids :: "User option list \<Rightarrow> failure + int64 list" where
  "api_ids [] = Inr []"
| "api_ids (a # as) =
     (case a of None \<Rightarrow> Inl NilDereference | Some u \<Rightarrow>
     (case User_ID u of None \<Rightarrow> Inl NilDereference | Some i \<Rightarrow>
     (case User_Login u of None \<Rightarrow> Inl NilDereference | Some l \<Rightarrow>
     (case api_ids as of Inl f \<Rightarrow> Inl f | Inr ids \<Rightarrow> Inr (i # ids)))))"

text \<open>
  The divergence detector of the PR worker: the checks from \<^verbatim>\<open>// Check state change\<close> to
  \<^verbatim>\<open>changedAnything\<close>, for the candidate \<open>ic\<close> of the issue, a pull request whose \<^verbatim>\<open>State\<close>
  and \<^verbatim>\<open>Title\<close> were dereferenced and a stored row whose state and title were scanned. It
  panics when it collects the ids of the assignees or of the requested reviewers through
  a nil pointer.
\<close>

definition pr_changed ::
  "store \<Rightarrow> IssueConfig \<Rightarrow> PullRequest \<Rightarrow> string \<Rightarrow> string
     \<Rightarrow> gha_pull_requests_row \<Rightarrow> string \<Rightarrow> string \<Rightarrow> failure + bool" where
  "pr_changed c ic pr apiState apiTitle row ghaState ghaTitle =
     (case api_ids (PR_Assignees pr) of Inl f \<Rightarrow> Inl f | Inr assigneeIDs \<Rightarrow>
     (case api_ids (PR_RequestedReviewers pr) of Inl f \<Rightarrow> Inl f | Inr reviewerIDs \<Rightarrow>
        (let ghaEventID = p_event_id row;
             changedState = (apiState \<noteq> ghaState);
             changedTitle = (apiTitle \<noteq> ghaTitle);
             changedMerged = changed_value (PR_Merged pr) (p_merged row);
             changedClosed = changed_time (PR_ClosedAt pr) (p_closed_at row);
             changedMergedAt = changed_time (PR_MergedAt pr) (p_merged_at row);
             changedMilestone =
               changed_value (ghMilestoneIDOrNil (PR_Milestone pr)) (p_milestone_id row);
             changedAssignee =
               changed_value (ghActorIDOrNil (PR_Assignee pr)) (p_assignee_id row);
             changedMergedBy =
               changed_value (ghActorIDOrNil (PR_MergedBy pr)) (p_merged_by_id row);
             changedLabels = (select_labels c ghaEventID \<noteq> Labels ic);
             apiAssignees = join_ids (sort_key sint (remdups assigneeIDs));
             changedAssignees = (select_pr_assignees c ghaEventID \<noteq> apiAssignees);
             apiRequestedReviewers = join_ids (sort_key sint (remdups reviewerIDs));
             changedRequestedReviewers =
               (select_pr_reviewers c ghaEventID \<noteq> apiRequestedReviewers)
         in Inr (changedMilestone \<or> changedState \<or> changedClosed \<or> changedMerged
                 \<or> changedMergedAt \<or> changedMergedBy \<or> changedAssignee \<or> changedTitle
                 \<or> changedLabels \<or> changedAssignees \<or> changedRequestedReviewers))))"

text \<open>
  The closure that \<^verbatim>\<open>SyncIssuesState\<close> starts for the pull request of issue \<open>iid\<close>;
  \<open>issues\<close> is the map of candidates after the issue phase. A key that a Go map does not
  hold reads as the nil slice.
\<close>

definition pr_worker ::
  "bool \<Rightarrow> Ctx \<Rightarrow> (string \<Rightarrow> string) \<Rightarrow> (int64 \<rightharpoonup> IssueConfig list) \<Rightarrow> int64 \<Rightarrow> PullRequest
     \<Rightarrow> sync_state \<Rightarrow> failure + sync_state" where
  "pr_worker manual ctx maybeHide issues iid pr st =
     (let ica = (case issues iid of None \<Rightarrow> [] | Some ary \<Rightarrow> ary) in
      if ica = [] then Inl IndexOutOfRange
      else
        let ic = last ica in
        (case PR_ID pr of None \<Rightarrow> Inl NilDereference | Some prid \<Rightarrow>
        (case PR_UpdatedAt pr of None \<Rightarrow> Inl NilDereference | Some updatedAt \<Rightarrow>
        (case PR_State pr of None \<Rightarrow> Inl NilDereference | Some apiState \<Rightarrow>
        (case PR_Title pr of None \<Rightarrow> Inl NilDereference | Some apiTitle \<Rightarrow>
           if \<not> manual \<and> pr_collision (db st) prid (281474976710656 + EventID ic) updatedAt
           then Inr (count_update 4 st)
           else
        (case select_pr manual (db st) prid updatedAt of
           None \<Rightarrow> commit_and_count (ArtificialPREvent ctx maybeHide ic pr) 0 st
         | Some row \<Rightarrow>
        (case p_state row of None \<Rightarrow> Inl FatalError | Some ghaState \<Rightarrow>
        (case p_title row of None \<Rightarrow> Inl FatalError | Some ghaTitle \<Rightarrow>
           if \<not> manual \<and> 281474976710656 <s p_event_id row then Inr (count_update 1 st)
           else
        (case pr_changed (db st) ic pr apiState apiTitle row ghaState ghaTitle of
           Inl f \<Rightarrow> Inl f
         | Inr changedAnything \<Rightarrow>
             if changedAnything
             then commit_and_count (ArtificialPREvent ctx maybeHide ic pr) 3 st
             else Inr (count_update 2 st))))))))))"

section \<open>The orchestrator\<close>

text \<open>
  The workers of a phase, one after the other in the order of dispatch: the schedule of a
  thread count of 1. A worker that panics or meets a fatal error ends the process.
\<close>

fun run_workers ::
  "('a \<Rightarrow> sync_state \<Rightarrow> failure + sync_state) \<Rightarrow> 'a list \<Rightarrow> sync_state \<Rightarrow> failure + sync_state" where
  "run_workers worker [] st = Inr st"
| "run_workers worker (x # xs) st =
     (case worker x st of Inl f \<Rightarrow> Inl f | Inr st' \<Rightarrow> run_workers worker xs st')"

text \<open>
  \<^verbatim>\<open>SyncIssuesState\<close>. The two Go maps \<^verbatim>\<open>issues\<close> and \<^verbatim>\<open>prs\<close> are association lists with
  distinct keys, whose order stands for the order in which \<^verbatim>\<open>range\<close> visits the map. The
  result holds the counters of the issue phase, the counters of the PR phase and the
  database. The summaries that are printed and the rate-limit probe are not modelled.
  \<open>normalized_batch\<close> is the block under \<^verbatim>\<open>if !manual\<close> that sorts every slice and leaves
  its final states.
\<close>

definition normalized_batch ::
  "bool \<Rightarrow> (int64 \<times> IssueConfig list) list \<Rightarrow> (int64 \<times> IssueConfig list) list" where
  "normalized_batch manual issues =
     (if \<not> manual then map (\<lambda>(iid, ary). (iid, normalize_issues ary)) issues else issues)"

definition SyncIssuesState ::
  "Ctx \<Rightarrow> (string \<Rightarrow> string) \<Rightarrow> store \<Rightarrow> (int64 \<times> IssueConfig list) list
     \<Rightarrow> (int64 \<times> PullRequest) list \<Rightarrow> bool \<Rightarrow> failure + (nat list \<times> nat list \<times> store)" where
  "SyncIssuesState ctx maybeHide c issues prs manual =
     (let issues' = normalized_batch manual issues
      in
      case run_workers (issue_worker manual ctx maybeHide) (concat (map snd issues'))
             \<lparr> db = c, updates = [0, 0, 0, 0] \<rparr> of
        Inl f \<Rightarrow> Inl f
      | Inr st1 \<Rightarrow>
          (case run_workers (\<lambda>(iid, pr). pr_worker manual ctx maybeHide (map_of issues') iid pr) prs
                  \<lparr> db = db st1, updates = [0, 0, 0, 0, 0] \<rparr> of
             Inl f \<Rightarrow> Inl f
           | Inr st2 \<Rightarrow> Inr (updates st1, updates st2, db st2)))"

section \<open>Notions for the second run\<close>

text \<open>
  A real event id whose synthetic id does not wrap around and is recognised by the readers:
  \<open>0 < e < 2^63 - 2^48\<close>.
\<close>

definition real_event_id :: "int64 \<Rightarrow> bool" where
  "real_event_id e = (0 <s e \<and> e <s 9223090561878065152)"

text \<open>
  A snapshot row as a worker writes it for a candidate with such an event id: the event id
  is above 281474976710656 and the columns that a probe scans into a string or a bool are
  not null.
\<close>

definition synthetic_issue_row :: "gha_issues_row \<Rightarrow> bool" where
  "synthetic_issue_row r =
     (281474976710656 <s i_event_id r \<and> i_state r \<noteq> None \<and> i_title r \<noteq> None
      \<and> i_locked r \<noteq> None)"

definition synthetic_pr_row :: "gha_pull_requests_row \<Rightarrow> bool" where
  "synthetic_pr_row r =
     (281474976710656 <s p_event_id r \<and> p_state r \<noteq> None \<and> p_title r \<noteq> None)"

text \<open>
  \<open>grows P xs ys\<close>: the table \<open>ys\<close> holds the rows of \<open>xs\<close> followed by rows that satisfy
  \<open>P\<close>. \<open>extends c c'\<close>: the six tables that the probes read hold in \<open>c'\<close> the rows of \<open>c\<close>
  followed by rows of synthetic events only.
\<close>

definition grows :: "('a \<Rightarrow> bool) \<Rightarrow> 'a list \<Rightarrow> 'a list \<Rightarrow> bool" where
  "grows P xs ys = (\<exists>added. ys = xs @ added \<and> (\<forall>r\<in>set added. P r))"

definition synthetic_join_row :: "'a \<times> int64 \<times> 'b \<Rightarrow> bool" where
  "synthetic_join_row r = (281474976710656 <s fst (snd r))"

definition extends :: "store \<Rightarrow> store \<Rightarrow> bool" where
  "extends c c' =
     (grows synthetic_issue_row (gha_issues c) (gha_issues c')
    \<and> grows synthetic_pr_row (gha_pull_requests c) (gha_pull_requests c')
    \<and> grows synthetic_join_row (gha_issues_labels c) (gha_issues_labels c')
    \<and> grows synthetic_join_row (gha_issues_assignees c) (gha_issues_assignees c')
    \<and> grows synthetic_join_row (gha_pull_requests_assignees c) (gha_pull_requests_assignees c')
    \<and> grows synthetic_join_row (gha_pull_requests_requested_reviewers c)
         (gha_pull_requests_requested_reviewers c'))"

text \<open>A statement that adds only such rows to these six tables.\<close>

fun synthetic_stmt :: "stmt \<Rightarrow> bool" where
  "synthetic_stmt (Insert_gha_issues r) = synthetic_issue_row r"
| "synthetic_stmt (Insert_gha_pull_requests r) = synthetic_pr_row r"
| "synthetic_stmt (Insert_gha_issues_labels iid eid lid lname) = (281474976710656 <s eid)"
| "synthetic_stmt (Insert_gha_issues_assignees iid eid aid) = (281474976710656 <s eid)"
| "synthetic_stmt (Insert_gha_pull_requests_assignees prid eid aid) = (281474976710656 <s eid)"
| "synthetic_stmt (Insert_gha_pull_requests_requested_reviewers prid eid rid) =
     (281474976710656 <s eid)"
| "synthetic_stmt s = True"

text \<open>
  \<open>issue_settled c cfg\<close>: against the database \<open>c\<close> the issue worker of \<open>cfg\<close> in
  non-manual mode finds a row that it can scan and that either has a synthetic event id
  or shows no divergence. \<open>pr_settled c ic pr\<close>: the PR worker of \<open>pr\<close> with the candidate
  \<open>ic\<close> either meets a collision or finds such a row.
\<close>

definition issue_settled :: "store \<Rightarrow> IssueConfig \<Rightarrow> bool" where
  "issue_settled c cfg =
     (case GhIssue cfg of None \<Rightarrow> False | Some issue \<Rightarrow>
     (case Issue_State issue of None \<Rightarrow> False | Some apiState \<Rightarrow>
     (case Issue_Title issue of None \<Rightarrow> False | Some apiTitle \<Rightarrow>
     (case Issue_Locked issue of None \<Rightarrow> False | Some apiLocked \<Rightarrow>
     (case select_issue False c cfg of None \<Rightarrow> False | Some row \<Rightarrow>
     (case i_state row of None \<Rightarrow> False | Some ghaState \<Rightarrow>
     (case i_title row of None \<Rightarrow> False | Some ghaTitle \<Rightarrow>
     (case i_locked row of None \<Rightarrow> False | Some ghaLocked \<Rightarrow>
        281474976710656 <s i_event_id row
        \<or> \<not> issue_changed c cfg issue apiState apiTitle apiLocked
               row ghaState ghaTitle ghaLocked))))))))"

definition pr_settled :: "store \<Rightarrow> IssueConfig \<Rightarrow> PullRequest \<Rightarrow> bool" where
  "pr_settled c ic pr =
     (case PR_ID pr of None \<Rightarrow> False | Some prid \<Rightarrow>
     (case PR_UpdatedAt pr of None \<Rightarrow> False | Some updatedAt \<Rightarrow>
     (case PR_State pr of None \<Rightarrow> False | Some apiState \<Rightarrow>
     (case PR_Title pr of None \<Rightarrow> False | Some apiTitle \<Rightarrow>
        pr_collision c prid (281474976710656 + EventID ic) updatedAt
        \<or> (case select_pr False c prid updatedAt of None \<Rightarrow> False | Some row \<Rightarrow>
           (case p_state row of None \<Rightarrow> False | Some ghaState \<Rightarrow>
           (case p_title row of None \<Rightarrow> False | Some ghaTitle \<Rightarrow>
              281474976710656 <s p_event_id row
              \<or> pr_changed c ic pr apiState apiTitle row ghaState ghaTitle = Inr False)))))))"

section \<open>The error classifier\<close>

text \<open>
  A non-nil Go \<^verbatim>\<open>error\<close> as \<^verbatim>\<open>HandlePossibleError\<close> sees it: what the two type assertions
  \<^verbatim>\<open>err.(*github.RateLimitError)\<close> and \<^verbatim>\<open>err.(*github.AbuseRateLimitError)\<close> tell apart,
  and the text of \<^verbatim>\<open>err.Error()\<close>.
\<close>

datatype error = RateLimitError string | AbuseRateLimitError string | OtherError string

fun Error :: "error \<Rightarrow> string" where
  "Error (RateLimitError t) = t"
| "Error (AbuseRateLimitError t) = t"
| "Error (OtherError t) = t"

fun is_RateLimitError :: "error \<Rightarrow> bool" where
  "is_RateLimitError (RateLimitError t) = True"
| "is_RateLimitError e = False"

fun is_AbuseRateLimitError :: "error \<Rightarrow> bool" where
  "is_AbuseRateLimitError (AbuseRateLimitError t) = True"
| "is_AbuseRateLimitError e = False"

text \<open>\<^verbatim>\<open>strings.Contains\<close>: some suffix of \<open>s\<close> starts with \<open>substr\<close>.\<close>

fun strings_Contains :: "string \<Rightarrow> string \<Rightarrow> bool" where
  "strings_Contains [] substr = (substr = [])"
| "strings_Contains (c # cs) substr =
     (take (length substr) (c # cs) = substr \<or> strings_Contains cs substr)"

text \<open>
  Modelled from the spec: the constants \<^verbatim>\<open>Abuse\<close> and \<^verbatim>\<open>NotFound\<close> are declared outside
  ghapi.go; the spec names the two signals "abuse" and "not-found".
\<close>

definition Abuse :: string where
  "Abuse = ''abuse''"

definition NotFound :: string where
  "NotFound = ''not-found''"

text \<open>A call either returns a value or ends the process with an exit status.\<close>

datatype 'a outcome = Returns 'a | Exits int

text \<open>The lines that \<^verbatim>\<open>HandlePossibleError\<close> prints, with the arguments of each \<^verbatim>\<open>Printf\<close>.\<close>

datatype error_line =
    RateLimitLine string "IssueConfig option"
  | AbuseLine string "IssueConfig option"
  | NotFoundLine string "IssueConfig option" error
  | NonFatalLine error

definition HandlePossibleError ::
  "error option \<Rightarrow> IssueConfig option \<Rightarrow> string \<Rightarrow> error_line list \<times> string outcome" where
  "HandlePossibleError err cfg info =
     (case err of
        None \<Rightarrow> ([], Returns [])
      | Some e \<Rightarrow>
          (let rate = is_RateLimitError e;
               abuse = is_AbuseRateLimitError e
           in
           if (abuse \<or> rate) \<and> rate then ([RateLimitLine info cfg], Returns ''rate'')
           else if (abuse \<or> rate) \<and> abuse then ([AbuseLine info cfg], Returns Abuse)
           else if strings_Contains (Error e) ''404 Not Found''
             then ([NotFoundLine info cfg e], Returns NotFound)
           else ([NonFatalLine e], Exits 0)))"



text \<open>The actor objects that a remote issue and a remote pull request refer to.\<close>

definition issue_actors :: "Issue \<Rightarrow> User option list" where
  "issue_actors issue =
     [Issue_Assignee issue, Issue_User issue] @ Issue_Assignees issue
     @ (case Issue_Milestone issue of None \<Rightarrow> [] | Some m \<Rightarrow> [Milestone_Creator m])"

definition pr_actors :: "PullRequest \<Rightarrow> User option list" where
  "pr_actors pr =
     [PR_User pr, PR_MergedBy pr, PR_Assignee pr] @ PR_Assignees pr @ PR_RequestedReviewers pr"

text \<open>The statements of a writer call that committed; none when it failed.\<close>

definition stmts_of :: "failure + (log_line list \<times> stmt list) \<Rightarrow> stmt list" where
  "stmts_of r = (case r of Inl f \<Rightarrow> [] | Inr (lg, stmts) \<Rightarrow> stmts)"


section \<open>Concrete inputs\<close>

definition ex_ctx :: Ctx where
  "ex_ctx = \<lparr> SkipPDB = False, Debug = 0 \<rparr>"

definition ex_skip_ctx :: Ctx where
  "ex_skip_ctx = \<lparr> SkipPDB = True, Debug = 0 \<rparr>"

definition ex_skip_debug_ctx :: Ctx where
  "ex_skip_debug_ctx = \<lparr> SkipPDB = True, Debug = 1 \<rparr>"

definition ex_alice :: User where
  "ex_alice = \<lparr> User_ID = Some 11, User_Login = Some ''alice'' \<rparr>"

definition ex_bob :: User where
  "ex_bob = \<lparr> User_ID = Some 12, User_Login = Some ''bob'' \<rparr>"

definition ex_nologin :: User where
  "ex_nologin = \<lparr> User_ID = Some 5, User_Login = None \<rparr>"

definition ex_milestone :: Milestone where
  "ex_milestone = \<lparr> Milestone_ID = Some 3, Milestone_Creator = Some ex_bob \<rparr>"

definition ex_issue :: Issue where
  "ex_issue =
     \<lparr> Issue_ID = Some 100, Issue_State = Some ''open'', Issue_Title = Some ''A'',
       Issue_Locked = Some False, Issue_ClosedAt = None, Issue_User = Some ex_alice,
       Issue_Assignee = None, Issue_Assignees = [], Issue_Milestone = None \<rparr>"

definition ex_event :: IssueEvent where
  "ex_event = \<lparr> IssueEvent_Actor = Some ex_alice \<rparr>"

text \<open>Issue 42 of org/repo, id 100, seen at 2024-01-01T00:00:00Z in event 7, label 1.\<close>

definition ex_cfg :: IssueConfig where
  "ex_cfg =
     \<lparr> Repo = ''org/repo'', Number = 42, IssueID = 100, Pr = False, MilestoneID = None,
       Labels = ''1'', LabelsMap = [(1, ''bug'')], GhIssue = Some ex_issue,
       CreatedAt = 1704067200000000000, EventID = 7, EventType = ''labeled'',
       GhEvent = Some ex_event, AssigneeID = None, Assignees = [], AssigneesMap = [] \<rparr>"

definition ex_pr :: PullRequest where
  "ex_pr =
     \<lparr> PR_ID = Some 500, PR_State = Some ''open'', PR_Title = Some ''A'',
       PR_UpdatedAt = Some 1704067200000000000, PR_ClosedAt = None, PR_MergedAt = None,
       PR_Merged = Some False, PR_User = Some ex_alice, PR_MergedBy = None,
       PR_Assignee = None, PR_Assignees = [Some ex_bob], PR_RequestedReviewers = [],
       PR_Milestone = None \<rparr>"

definition ex_issue_ms :: Issue where
  "ex_issue_ms = ex_issue \<lparr> Issue_Milestone := Some ex_milestone \<rparr>"

definition ex_cfg_ms :: IssueConfig where
  "ex_cfg_ms = ex_cfg \<lparr> GhIssue := Some ex_issue_ms, MilestoneID := Some 3 \<rparr>"

definition ex_cfg_nologin :: IssueConfig where
  "ex_cfg_nologin = ex_cfg \<lparr> GhIssue := Some (ex_issue \<lparr> Issue_User := Some ex_nologin \<rparr>) \<rparr>"

definition ex_cfg_zero :: IssueConfig where
  "ex_cfg_zero = ex_cfg \<lparr> EventID := 0 \<rparr>"





text \<open>An empty database, and a database that holds pull request 500 under the synthetic
  event id of event 7 with another \<^verbatim>\<open>updated_at\<close>.\<close>

definition ex_empty :: store where
  "ex_empty =
     \<lparr> gha_actors = [], gha_milestones = [], gha_issues = [], gha_pull_requests = [],
       gha_events = [], gha_payloads = [], gha_issues_labels = [], gha_issues_assignees = [],
       gha_pull_requests_assignees = [], gha_pull_requests_requested_reviewers = [] \<rparr>"

definition ex_pr_row :: gha_pull_requests_row where
  "ex_pr_row =
     \<lparr> p_id = 500, p_event_id = 281474976710663, p_user_id = Some 11, p_merged_by_id = None,
       p_assignee_id = None, p_milestone_id = None, p_state = Some ''open'', p_title = Some ''A'',
       p_updated_at = Some 1704060000000000000, p_closed_at = None, p_merged_at = None,
       p_merged = Some False \<rparr>"

definition ex_collision :: store where
  "ex_collision = ex_empty \<lparr> gha_pull_requests := [ex_pr_row] \<rparr>"

text \<open>
  A database for a manual run: issue 100 as the API reports it (event 3, label 1), and pull
  request 500 under the same event with its assignee 12 and an older title. Then the same
  database after one and after two manual runs on the batch of issue 100 and pull request
  500.
\<close>

definition ex_issue_row :: gha_issues_row where
  "ex_issue_row =
     \<lparr> i_id = 100, i_event_id = 3, i_assignee_id = None, i_closed_at = None,
       i_locked = Some False, i_milestone_id = None, i_state = Some ''open'',
       i_title = Some ''A'', i_updated_at = 1704060000000000000, i_user_id = Some 11 \<rparr>"

definition ex_old_pr_row :: gha_pull_requests_row where
  "ex_old_pr_row =
     \<lparr> p_id = 500, p_event_id = 3, p_user_id = Some 11, p_merged_by_id = None,
       p_assignee_id = None, p_milestone_id = None, p_state = Some ''open'', p_title = Some ''B'',
       p_updated_at = Some 1704060000000000000, p_closed_at = None, p_merged_at = None,
       p_merged = Some False \<rparr>"

definition ex_new_pr_row :: gha_pull_requests_row where
  "ex_new_pr_row =
     \<lparr> p_id = 500, p_event_id = 281474976710663, p_user_id = Some 11, p_merged_by_id = None,
       p_assignee_id = None, p_milestone_id = None, p_state = Some ''open'', p_title = Some ''A'',
       p_updated_at = Some 1704067200000000000, p_closed_at = None, p_merged_at = None,
       p_merged = Some False \<rparr>"

definition ex_manual_store :: store where
  "ex_manual_store =
     \<lparr> gha_actors = [], gha_milestones = [], gha_issues = [ex_issue_row],
       gha_pull_requests = [ex_old_pr_row], gha_events = [], gha_payloads = [],
       gha_issues_labels = [(100, 3, 1, ''bug'')], gha_issues_assignees = [],
       gha_pull_requests_assignees = [(500, 3, Some 12)],
       gha_pull_requests_requested_reviewers = [] \<rparr>"

definition ex_after_first :: store where
  "ex_after_first =
     \<lparr> gha_actors = [(Some 11, ''alice''), (Some 12, ''bob'')], gha_milestones = [],
       gha_issues = [ex_issue_row],
       gha_pull_requests = [ex_old_pr_row, ex_new_pr_row],
       gha_events = [(281474976710663, ''labeled'', Some 11)],
       gha_payloads = [(281474976710663, 100, Some 500)],
       gha_issues_labels = [(100, 3, 1, ''bug'')], gha_issues_assignees = [],
       gha_pull_requests_assignees = [(500, 3, Some 12), (500, 281474976710663, Some 12)],
       gha_pull_requests_requested_reviewers = [] \<rparr>"

definition ex_after_second :: store where
  "ex_after_second =
     \<lparr> gha_actors = [(Some 11, ''alice''), (Some 12, ''bob'')], gha_milestones = [],
       gha_issues = [ex_issue_row],
       gha_pull_requests = [ex_old_pr_row, ex_new_pr_row, ex_new_pr_row],
       gha_events = [(281474976710663, ''labeled'', Some 11)],
       gha_payloads = [(281474976710663, 100, Some 500)],
       gha_issues_labels = [(100, 3, 1, ''bug'')], gha_issues_assignees = [],
       gha_pull_requests_assignees =
         [(500, 3, Some 12), (500, 281474976710663, Some 12), (500, 281474976710663, Some 12)],
       gha_pull_requests_requested_reviewers = [] \<rparr>"

text \<open>
  The database after a non-manual run on the empty database with the candidate of event 7
  and pull request 500: the bundle of the issue, then the bundle of the pull request.
\<close>

definition ex_synced :: store where
  "ex_synced =
     exec_tx (stmts_of (ArtificialPREvent ex_ctx id ex_cfg ex_pr))
       (exec_tx (stmts_of (ArtificialEvent ex_ctx id ex_cfg)) ex_empty)"

section \<open>Properties of the snapshot writers\<close>

subsection \<open>The shape of a committed transaction\<close>

lemma ghMilestone_Inr:
  "ghMilestone eid ic mh = Inr ms \<Longrightarrow>
     \<exists>issue m. GhIssue ic = Some issue \<and> Issue_Milestone issue = Some m
       \<and> ms = [Insert_gha_milestones (MilestoneID ic) eid (ghActorIDOrNil (Milestone_Creator m))]"
  by (auto simp: ghMilestone_def split: option.splits)

lemma milestoneStmts_cases:
  assumes "(case mo of None \<Rightarrow> Inr [] | Some m \<Rightarrow> ghMilestone eid cfg mh) = Inr ms"
  shows "(mo = None \<and> ms = []) \<or> (mo \<noteq> None \<and> (\<exists>issue m. GhIssue cfg = Some issue
       \<and> Issue_Milestone issue = Some m
       \<and> ms = [Insert_gha_milestones (MilestoneID cfg) eid (ghActorIDOrNil (Milestone_Creator m))]))"
  using assms by (cases mo) (auto dest: ghMilestone_Inr)

lemma ArtificialEvent_InrE:
  assumes "ArtificialEvent ctx mh cfg = Inr (lg, stmts)" "\<not> SkipPDB ctx"
  obtains (Committed) issue event ms where
    "GhIssue cfg = Some issue" "GhEvent cfg = Some event"
    "(case Issue_Milestone issue of None \<Rightarrow> Inr []
      | Some m \<Rightarrow> ghMilestone (281474976710656 + EventID cfg) cfg mh) = Inr ms"
    "lg = []" "stmts = ArtificialEvent_stmts mh cfg issue event ms"
proof -
  note d = ArtificialEvent_def
  obtain issue where i: "GhIssue cfg = Some issue"
    using assms by (cases "GhIssue cfg") (simp_all add: d)
  obtain event where e: "GhEvent cfg = Some event"
    using assms i by (cases "GhEvent cfg") (simp_all add: d)
  obtain ms where m: "(case Issue_Milestone issue of None \<Rightarrow> Inr []
      | Some m \<Rightarrow> ghMilestone (281474976710656 + EventID cfg) cfg mh) = Inr ms"
    using assms i e
    by (cases "case Issue_Milestone issue of None \<Rightarrow> Inr []
      | Some m \<Rightarrow> ghMilestone (281474976710656 + EventID cfg) cfg mh") (simp_all add: d)
  have "ArtificialEvent ctx mh cfg = Inr ([], ArtificialEvent_stmts mh cfg issue event ms)"
    by (simp add: d assms(2) i e m)
  with assms(1) have "lg = []" "stmts = ArtificialEvent_stmts mh cfg issue event ms"
    by simp_all
  with i e m show thesis by (rule that)
qed

lemma ArtificialPREvent_InrE:
  assumes "ArtificialPREvent ctx mh cfg pr = Inr (lg, stmts)" "\<not> SkipPDB ctx"
  obtains (Committed) issue iid event prid actor ms where
    "GhIssue cfg = Some issue" "Issue_ID issue = Some iid" "GhEvent cfg = Some event"
    "(case PR_Milestone pr of None \<Rightarrow> Inr []
      | Some m \<Rightarrow> ghMilestone (281474976710656 + EventID cfg) cfg mh) = Inr ms"
    "PR_ID pr = Some prid" "IssueEvent_Actor event = Some actor"
    "lg = []" "stmts = ArtificialPREvent_stmts mh cfg pr iid event prid ms"
proof -
  note d = ArtificialPREvent_def
  obtain issue where i: "GhIssue cfg = Some issue"
    using assms by (cases "GhIssue cfg") (simp_all add: d)
  obtain iid where ii: "Issue_ID issue = Some iid"
    using assms i by (cases "Issue_ID issue") (simp_all add: d)
  obtain event where e: "GhEvent cfg = Some event"
    using assms i ii by (cases "GhEvent cfg") (simp_all add: d)
  obtain ms where m: "(case PR_Milestone pr of None \<Rightarrow> Inr []
      | Some m \<Rightarrow> ghMilestone (281474976710656 + EventID cfg) cfg mh) = Inr ms"
    using assms i ii e
    by (cases "case PR_Milestone pr of None \<Rightarrow> Inr []
      | Some m \<Rightarrow> ghMilestone (281474976710656 + EventID cfg) cfg mh") (simp_all add: d)
  obtain prid where p: "PR_ID pr = Some prid"
    using assms i ii e m by (cases "PR_ID pr") (simp_all add: d)
  obtain actor where a: "IssueEvent_Actor event = Some actor"
    using assms i ii e m p by (cases "IssueEvent_Actor event") (simp_all add: d)
  have "ArtificialPREvent ctx mh cfg pr
          = Inr ([], ArtificialPREvent_stmts mh cfg pr iid event prid ms)"
    by (simp add: d assms(2) i ii e m p a)
  with assms(1) have "lg = []" "stmts = ArtificialPREvent_stmts mh cfg pr iid event prid ms"
    by simp_all
  with i ii e m p a show thesis by (rule that)
qed


subsection \<open>The synthetic event id\<close>

lemma sint_synthetic:
  fixes eid :: int64
  assumes "0 <s eid" "eid <s 9223090561878065152"
  shows "sint (281474976710656 + eid) = 281474976710656 + sint eid"
proof -
  have a: "0 < sint eid" using assms(1) by (simp add: word_sless_alt)
  have b: "sint eid < 9223090561878065152" using assms(2) by (simp add: word_sless_alt)
  have "sint (281474976710656 + eid) = signed_take_bit 63 (sint (281474976710656 :: int64) + sint eid)"
    by (simp add: sint_word_ariths)
  also have "\<dots> = signed_take_bit 63 (281474976710656 + sint eid)" by simp
  also have "\<dots> = 281474976710656 + sint eid"
    using a b by (simp add: signed_take_bit_int_eq_self)
  finally show ?thesis .
qed

lemma synthetic_recognised:
  fixes eid :: int64
  assumes "0 <s eid" "eid <s 9223090561878065152"
  shows "281474976710656 <s 281474976710656 + eid"
proof -
  have "0 < sint eid" using assms(1) by (simp add: word_sless_alt)
  then show ?thesis
    using sint_synthetic [OF assms] by (simp add: word_sless_alt)
qed

lemma ghActor_cases:
  "s \<in> set (ghActor a mh) \<Longrightarrow>
     \<exists>u l. a = Some u \<and> User_Login u = Some l \<and> s = Insert_gha_actors (User_ID u) (mh l)"
  by (cases a; cases "User_Login (the a)") (simp_all add: ghActor_def)

lemma issueActorStmts_cases:
  "s \<in> set (issueActorStmts issue mh) \<Longrightarrow> \<exists>a l. s = Insert_gha_actors a l"
  by (auto simp: issueActorStmts_def dest: ghActor_cases split: option.splits)

lemma prActorStmts_cases:
  "s \<in> set (prActorStmts pr mh) \<Longrightarrow> \<exists>a l. s = Insert_gha_actors a l"
  by (auto simp: prActorStmts_def dest: ghActor_cases split: option.splits)

lemma prAssigneeStmts_cases:
  "s \<in> set (concat (map (prAssigneeStmts prid eid mh) as)) \<Longrightarrow>
     (\<exists>a l. s = Insert_gha_actors a l)
     \<or> (\<exists>u. Some u \<in> set as \<and> s = Insert_gha_pull_requests_assignees prid eid (User_ID u))"
  by (auto simp: prAssigneeStmts_def dest: ghActor_cases split: option.splits)

lemma prReviewerStmts_cases:
  "s \<in> set (concat (map (prReviewerStmts prid eid mh) as)) \<Longrightarrow>
     (\<exists>a l. s = Insert_gha_actors a l)
     \<or> (\<exists>u. Some u \<in> set as
           \<and> s = Insert_gha_pull_requests_requested_reviewers prid eid (User_ID u))"
  by (auto simp: prReviewerStmts_def dest: ghActor_cases split: option.splits)

text \<open>Every statement of the two transaction bodies, by kind.\<close>

lemma ArtificialEvent_stmts_cases:
  assumes "s \<in> set (ArtificialEvent_stmts mh cfg issue event ms)"
  shows "s = Begin \<or> s = Commit \<or> (\<exists>a l. s = Insert_gha_actors a l) \<or> s \<in> set ms
    \<or> s = Insert_gha_issues
             \<lparr> i_id = IssueID cfg, i_event_id = 281474976710656 + EventID cfg,
               i_assignee_id = ghActorIDOrNil (Issue_Assignee issue),
               i_closed_at = Issue_ClosedAt issue,
               i_locked = Issue_Locked issue,
               i_milestone_id = ghMilestoneIDOrNil (Issue_Milestone issue),
               i_state = Issue_State issue,
               i_title = Issue_Title issue,
               i_updated_at = CreatedAt cfg,
               i_user_id = ghActorIDOrNil (Issue_User issue) \<rparr>
    \<or> s = Insert_gha_events (281474976710656 + EventID cfg) (EventType cfg)
             (ghActorIDOrNil (IssueEvent_Actor event))
    \<or> s = Insert_gha_payloads (281474976710656 + EventID cfg) (IssueID cfg) None
    \<or> (\<exists>l n. (l, n) \<in> set (LabelsMap cfg)
          \<and> s = Insert_gha_issues_labels (IssueID cfg) (281474976710656 + EventID cfg) l n)
    \<or> (\<exists>a n. (a, n) \<in> set (AssigneesMap cfg)
          \<and> s = Insert_gha_issues_assignees (IssueID cfg) (281474976710656 + EventID cfg) a)"
  using assms unfolding ArtificialEvent_stmts_def Let_def
  by (auto dest: issueActorStmts_cases)

lemma ArtificialPREvent_stmts_cases:
  assumes "s \<in> set (ArtificialPREvent_stmts mh cfg pr iid event prid ms)"
  shows "s = Begin \<or> s = Commit \<or> (\<exists>a l. s = Insert_gha_actors a l) \<or> s \<in> set ms
    \<or> s = Insert_gha_pull_requests
             \<lparr> p_id = prid, p_event_id = 281474976710656 + EventID cfg,
               p_user_id = ghActorIDOrNil (PR_User pr),
               p_merged_by_id = ghActorIDOrNil (PR_MergedBy pr),
               p_assignee_id = ghActorIDOrNil (PR_Assignee pr),
               p_milestone_id = ghMilestoneIDOrNil (PR_Milestone pr),
               p_state = PR_State pr,
               p_title = PR_Title pr,
               p_updated_at = PR_UpdatedAt pr,
               p_closed_at = PR_ClosedAt pr,
               p_merged_at = PR_MergedAt pr,
               p_merged = PR_Merged pr \<rparr>
    \<or> s = Insert_gha_events (281474976710656 + EventID cfg) (EventType cfg)
             (ghActorIDOrNil (IssueEvent_Actor event))
    \<or> s = Insert_gha_payloads (281474976710656 + EventID cfg) iid (Some prid)
    \<or> s = Update_gha_payloads prid iid (281474976710656 + EventID cfg)
    \<or> (\<exists>u. Some u \<in> set (PR_Assignees pr)
          \<and> s = Insert_gha_pull_requests_assignees prid (281474976710656 + EventID cfg) (User_ID u))
    \<or> (\<exists>u. Some u \<in> set (PR_RequestedReviewers pr)
          \<and> s = Insert_gha_pull_requests_requested_reviewers prid
                  (281474976710656 + EventID cfg) (User_ID u))"
proof -
  from assms consider "s = Begin" | "s = Commit" | "s \<in> set (prActorStmts pr mh)" | "s \<in> set ms"
    | "s = Insert_gha_pull_requests
             \<lparr> p_id = prid, p_event_id = 281474976710656 + EventID cfg,
               p_user_id = ghActorIDOrNil (PR_User pr),
               p_merged_by_id = ghActorIDOrNil (PR_MergedBy pr),
               p_assignee_id = ghActorIDOrNil (PR_Assignee pr),
               p_milestone_id = ghMilestoneIDOrNil (PR_Milestone pr),
               p_state = PR_State pr,
               p_title = PR_Title pr,
               p_updated_at = PR_UpdatedAt pr,
               p_closed_at = PR_ClosedAt pr,
               p_merged_at = PR_MergedAt pr,
               p_merged = PR_Merged pr \<rparr>"
    | "s = Insert_gha_events (281474976710656 + EventID cfg) (EventType cfg)
             (ghActorIDOrNil (IssueEvent_Actor event))"
    | "s = Insert_gha_payloads (281474976710656 + EventID cfg) iid (Some prid)"
    | "s = Update_gha_payloads prid iid (281474976710656 + EventID cfg)"
    | "s \<in> set (concat (map (prAssigneeStmts prid (281474976710656 + EventID cfg) mh)
                          (PR_Assignees pr)))"
    | "s \<in> set (concat (map (prReviewerStmts prid (281474976710656 + EventID cfg) mh)
                          (PR_RequestedReviewers pr)))"
    unfolding ArtificialPREvent_stmts_def Let_def set_append by (simp del: set_concat) blast
  then show ?thesis
  proof cases
    case 3 then show ?thesis using prActorStmts_cases by blast
  next
    case 9 then show ?thesis using prAssigneeStmts_cases by blast
  next
    case 10 then show ?thesis using prReviewerStmts_cases by blast
  qed blast+
qed

lemma milestoneStmts_event_id:
  assumes "(case mo of None \<Rightarrow> Inr [] | Some m \<Rightarrow> ghMilestone eid cfg mh) = Inr ms"
    and "s \<in> set ms" and "stmt_event_id s = Some e"
  shows "e = eid"
  using milestoneStmts_cases [OF assms(1)] assms(2,3) by auto

lemma ArtificialEvent_event_id:
  assumes "ArtificialEvent ctx mh cfg = Inr (lg, stmts)" "s \<in> set stmts" "stmt_event_id s = Some e"
  shows "e = 281474976710656 + EventID cfg"
proof (cases "SkipPDB ctx")
  case True
  with assms show ?thesis by (simp add: ArtificialEvent_def)
next
  case False
  from assms(1) False show ?thesis
  proof (cases rule: ArtificialEvent_InrE)
    case (Committed issue event ms)
    from assms(2) ArtificialEvent_stmts_cases [of s mh cfg issue event ms]
      milestoneStmts_event_id [OF Committed(3) _ assms(3)] assms(3)
    show ?thesis unfolding Committed(5) by auto
  qed
qed

lemma ArtificialPREvent_event_id:
  assumes "ArtificialPREvent ctx mh cfg pr = Inr (lg, stmts)" "s \<in> set stmts" "stmt_event_id s = Some e"
  shows "e = 281474976710656 + EventID cfg"
proof (cases "SkipPDB ctx")
  case True
  with assms show ?thesis by (simp add: ArtificialPREvent_def)
next
  case False
  from assms(1) False show ?thesis
  proof (cases rule: ArtificialPREvent_InrE)
    case (Committed issue iid event prid actor ms)
    from assms(2) ArtificialPREvent_stmts_cases [of s mh cfg pr iid event prid ms]
      milestoneStmts_event_id [OF Committed(4) _ assms(3)] assms(3)
    show ?thesis unfolding Committed(8) by auto
  qed
qed


text \<open>Three concrete bundles.\<close>

lemma run_ex_cfg:
  "ArtificialEvent ex_ctx id ex_cfg =
     Inr ([], [Begin, Insert_gha_actors (Some 11) ''alice'',
       Insert_gha_issues
        \<lparr>i_id = 100, i_event_id = 281474976710663, i_assignee_id = None,
           i_closed_at = None, i_locked = Some False, i_milestone_id = None,
           i_state = Some ''open'', i_title = Some ''A'',
           i_updated_at = 1704067200000000000, i_user_id = Some 11\<rparr>,
       Insert_gha_events 281474976710663 ''labeled'' (Some 11),
       Insert_gha_payloads 281474976710663 100 None,
       Insert_gha_issues_labels 100 281474976710663 1 ''bug'', Commit])"
  by (simp add: ArtificialEvent_def ArtificialEvent_stmts_def ex_ctx_def ex_cfg_def ex_issue_def
      ex_event_def ex_alice_def ghActor_def issueActorStmts_def ghActorIDOrNil_def
      ghMilestoneIDOrNil_def)

lemma run_ex_cfg_ms:
  "ArtificialEvent ex_ctx id ex_cfg_ms =
     Inr ([], [Begin, Insert_gha_actors (Some 11) ''alice'', Insert_gha_actors (Some 12) ''bob'',
       Insert_gha_issues
        \<lparr>i_id = 100, i_event_id = 281474976710663, i_assignee_id = None,
           i_closed_at = None, i_locked = Some False, i_milestone_id = Some 3,
           i_state = Some ''open'', i_title = Some ''A'',
           i_updated_at = 1704067200000000000, i_user_id = Some 11\<rparr>,
       Insert_gha_milestones (Some 3) 281474976710663 (Some 12),
       Insert_gha_events 281474976710663 ''labeled'' (Some 11),
       Insert_gha_payloads 281474976710663 100 None,
       Insert_gha_issues_labels 100 281474976710663 1 ''bug'', Commit])"
  by (simp add: ArtificialEvent_def ArtificialEvent_stmts_def ex_ctx_def ex_cfg_ms_def ex_cfg_def
      ex_issue_ms_def ex_issue_def ex_event_def ex_alice_def ex_bob_def ex_milestone_def
      ghActor_def ghMilestone_def issueActorStmts_def ghActorIDOrNil_def ghMilestoneIDOrNil_def)

lemma run_ex_pr:
  "ArtificialPREvent ex_ctx id ex_cfg ex_pr =
     Inr ([],
      [Begin, Insert_gha_actors (Some 11) ''alice'',
       Insert_gha_pull_requests
        \<lparr>p_id = 500, p_event_id = 281474976710663, p_user_id = Some 11,
           p_merged_by_id = None, p_assignee_id = None,
           p_milestone_id = None, p_state = Some ''open'',
           p_title = Some ''A'', p_updated_at = Some 1704067200000000000,
           p_closed_at = None, p_merged_at = None, p_merged = Some False\<rparr>,
       Insert_gha_events 281474976710663 ''labeled'' (Some 11),
       Insert_gha_payloads 281474976710663 100 (Some 500),
       Update_gha_payloads 500 100 281474976710663,
       Insert_gha_actors (Some 12) ''bob'',
       Insert_gha_pull_requests_assignees 500 281474976710663 (Some 12),
       Commit])"
  by (simp add: ArtificialPREvent_def ArtificialPREvent_stmts_def ex_ctx_def ex_cfg_def ex_pr_def
      ex_issue_def ex_event_def ex_alice_def ex_bob_def ghActor_def prActorStmts_def
      prAssigneeStmts_def ghActorIDOrNil_def ghMilestoneIDOrNil_def)

text \<open>
  C1 (amended). Every statement of a bundle written by \<^verbatim>\<open>ArtificialEvent\<close> or
  \<^verbatim>\<open>ArtificialPREvent\<close> that binds an event id binds \<open>281474976710656 + EventID cfg\<close>,
  computed in 64-bit arithmetic. For a real event id \<open>e\<close> with \<open>0 < e < 2^63 - 2^48\<close>
  (the bound is 9223090561878065152) the sum does not wrap: read as an integer it is
  \<open>2^48 + e\<close>, and it passes the readers' test \<open>id > 281474976710656\<close>.
\<close>

theorem C1_synthetic_event_id:
  assumes "ArtificialEvent ctx maybeHide cfg = Inr (lg, stmts)
           \<or> ArtificialPREvent ctx maybeHide cfg pr = Inr (lg, stmts)"
    and "s \<in> set stmts" and "stmt_event_id s = Some e"
  shows "e = 281474976710656 + EventID cfg
         \<and> (0 <s EventID cfg \<and> EventID cfg <s 9223090561878065152
              \<longrightarrow> sint e = 281474976710656 + sint (EventID cfg) \<and> 281474976710656 <s e)"
proof -
  have e: "e = 281474976710656 + EventID cfg"
    using assms ArtificialEvent_event_id ArtificialPREvent_event_id by blast
  then show ?thesis
    using sint_synthetic synthetic_recognised by blast
qed

text \<open>The bundle of issue 100, event 7: the event id of its event row is 281474976710663.\<close>

theorem C1_synthetic_event_id_witness:
  "stmts_of (ArtificialEvent ex_ctx id ex_cfg) =
     [Begin, Insert_gha_actors (Some 11) ''alice'',
       Insert_gha_issues
        \<lparr>i_id = 100, i_event_id = 281474976710663, i_assignee_id = None,
           i_closed_at = None, i_locked = Some False, i_milestone_id = None,
           i_state = Some ''open'', i_title = Some ''A'',
           i_updated_at = 1704067200000000000, i_user_id = Some 11\<rparr>,
       Insert_gha_events 281474976710663 ''labeled'' (Some 11),
       Insert_gha_payloads 281474976710663 100 None,
       Insert_gha_issues_labels 100 281474976710663 1 ''bug'', Commit]
   \<and> 0 <s EventID ex_cfg \<and> EventID ex_cfg <s 9223090561878065152
   \<and> sint (281474976710663 :: int64) = 281474976710656 + sint (EventID ex_cfg)
   \<and> 281474976710656 <s (281474976710663 :: int64)"
proof -
  have rng: "0 <s EventID ex_cfg \<and> EventID ex_cfg <s 9223090561878065152"
    by (simp add: ex_cfg_def word_sless_alt)
  have ev: "stmt_event_id (Insert_gha_events 281474976710663 ''labeled'' (Some 11))
              = Some 281474976710663"
    by simp
  show ?thesis
    using C1_synthetic_event_id [of ex_ctx id ex_cfg "[]" _ ex_pr, OF disjI1 [OF run_ex_cfg] _ ev]
      rng
    by (simp add: stmts_of_def run_ex_cfg)
qed

text \<open>
  The real event id 0 is non-negative, but its synthetic id is 281474976710656 itself, which
  the test \<open>id > 281474976710656\<close> does not recognise.
\<close>

theorem C1_zero_event_id_counterexample:
  "stmts_of (ArtificialEvent ex_ctx id ex_cfg_zero) =
     [Begin, Insert_gha_actors (Some 11) ''alice'',
       Insert_gha_issues
        \<lparr>i_id = 100, i_event_id = 281474976710656, i_assignee_id = None,
           i_closed_at = None, i_locked = Some False, i_milestone_id = None,
           i_state = Some ''open'', i_title = Some ''A'',
           i_updated_at = 1704067200000000000, i_user_id = Some 11\<rparr>,
       Insert_gha_events 281474976710656 ''labeled'' (Some 11),
       Insert_gha_payloads 281474976710656 100 None,
       Insert_gha_issues_labels 100 281474976710656 1 ''bug'', Commit]
   \<and> 0 \<le> sint (EventID ex_cfg_zero)
   \<and> \<not> 281474976710656 <s (281474976710656 :: int64)"
  by (simp add: stmts_of_def ArtificialEvent_def ArtificialEvent_stmts_def ex_ctx_def
      ex_cfg_zero_def ex_cfg_def ex_issue_def ex_event_def ex_alice_def ghActor_def
      issueActorStmts_def ghActorIDOrNil_def ghMilestoneIDOrNil_def)

subsection \<open>The order of the statements of a transaction\<close>



















subsection \<open>Actors of a snapshot\<close>

lemma ghActor_mem:
  "User_Login u = Some l \<Longrightarrow> Insert_gha_actors (User_ID u) (mh l) \<in> set (ghActor (Some u) mh)"
  by (simp add: ghActor_def)

lemma issueActorStmts_mem:
  assumes "Some u \<in> set (issue_actors issue)" "User_Login u = Some l"
  shows "Insert_gha_actors (User_ID u) (mh l) \<in> set (issueActorStmts issue mh)"
  using assms ghActor_mem [OF assms(2), of mh]
  by (auto simp: issue_actors_def issueActorStmts_def split: option.splits)

lemma prActorStmts_mem:
  assumes "Some u \<in> {PR_User pr, PR_MergedBy pr, PR_Assignee pr}" "User_Login u = Some l"
  shows "Insert_gha_actors (User_ID u) (mh l) \<in> set (prActorStmts pr mh)"
  using assms ghActor_mem [OF assms(2), of mh]
  by (auto simp: prActorStmts_def split: option.splits)

lemma prAssigneeStmts_mem:
  assumes "Some u \<in> set as" "User_Login u = Some l"
  shows "Insert_gha_actors (User_ID u) (mh l) \<in> set (concat (map (prAssigneeStmts prid eid mh) as))"
proof -
  have "Insert_gha_actors (User_ID u) (mh l) \<in> set (prAssigneeStmts prid eid mh (Some u))"
    using ghActor_mem [OF assms(2), of mh] by (simp add: prAssigneeStmts_def)
  with assms(1) show ?thesis by auto
qed

lemma prReviewerStmts_mem:
  assumes "Some u \<in> set as" "User_Login u = Some l"
  shows "Insert_gha_actors (User_ID u) (mh l) \<in> set (concat (map (prReviewerStmts prid eid mh) as))"
proof -
  have "Insert_gha_actors (User_ID u) (mh l) \<in> set (prReviewerStmts prid eid mh (Some u))"
    using ghActor_mem [OF assms(2), of mh] by (simp add: prReviewerStmts_def)
  with assms(1) show ?thesis by auto
qed

lemma ArtificialEvent_stmts_actor:
  assumes "Some u \<in> set (issue_actors issue)" "User_Login u = Some l"
  shows "Insert_gha_actors (User_ID u) (mh l) \<in> set (ArtificialEvent_stmts mh cfg issue event ms)"
  using issueActorStmts_mem [OF assms, of mh] by (simp add: ArtificialEvent_stmts_def Let_def)

lemma ArtificialPREvent_stmts_actor:
  assumes "Some u \<in> set (pr_actors pr)" "User_Login u = Some l"
  shows "Insert_gha_actors (User_ID u) (mh l)
           \<in> set (ArtificialPREvent_stmts mh cfg pr iid event prid ms)"
proof -
  from assms(1) consider "Some u \<in> {PR_User pr, PR_MergedBy pr, PR_Assignee pr}"
    | "Some u \<in> set (PR_Assignees pr)" | "Some u \<in> set (PR_RequestedReviewers pr)"
    by (auto simp: pr_actors_def)
  then show ?thesis
  proof cases
    case 1
    from prActorStmts_mem [OF 1 assms(2), of mh] show ?thesis
      by (simp add: ArtificialPREvent_stmts_def Let_def)
  next
    case 2
    from prAssigneeStmts_mem [OF 2 assms(2), of mh prid "281474976710656 + EventID cfg"]
    show ?thesis
      by (simp add: ArtificialPREvent_stmts_def Let_def del: set_concat)
  next
    case 3
    from prReviewerStmts_mem [OF 3 assms(2), of mh prid "281474976710656 + EventID cfg"]
    show ?thesis
      by (simp add: ArtificialPREvent_stmts_def Let_def del: set_concat)
  qed
qed

lemma ArtificialEvent_actors:
  assumes "ArtificialEvent ctx mh cfg = Inr (lg, stmts)" "\<not> SkipPDB ctx"
  shows "GhIssue cfg \<noteq> None \<and> (\<forall>issue. GhIssue cfg = Some issue \<longrightarrow>
      (\<forall>r. Insert_gha_issues r \<in> set stmts \<longrightarrow>
          i_user_id r = ghActorIDOrNil (Issue_User issue)
        \<and> i_assignee_id r = ghActorIDOrNil (Issue_Assignee issue))
    \<and> (\<forall>mid e c. Insert_gha_milestones mid e c \<in> set stmts \<longrightarrow>
          (\<exists>m. Issue_Milestone issue = Some m \<and> c = ghActorIDOrNil (Milestone_Creator m)))
    \<and> (\<forall>u l. Some u \<in> set (issue_actors issue) \<and> User_Login u = Some l \<longrightarrow>
          Insert_gha_actors (User_ID u) (mh l) \<in> set stmts))"
  using assms
proof (cases rule: ArtificialEvent_InrE)
  case (Committed issue event ms)
  note i = Committed(1) and s = Committed(5)
  note mc = milestoneStmts_cases [OF Committed(3)]
  have 1: "i_user_id r = ghActorIDOrNil (Issue_User issue)
        \<and> i_assignee_id r = ghActorIDOrNil (Issue_Assignee issue)"
    if "Insert_gha_issues r \<in> set stmts" for r
    using ArtificialEvent_stmts_cases [OF that [unfolded s]] mc by auto
  have 2: "\<exists>m. Issue_Milestone issue = Some m \<and> c = ghActorIDOrNil (Milestone_Creator m)"
    if "Insert_gha_milestones mid e c \<in> set stmts" for mid e c
    using ArtificialEvent_stmts_cases [OF that [unfolded s]] mc i by auto
  have 3: "Insert_gha_actors (User_ID u) (mh l) \<in> set stmts"
    if "Some u \<in> set (issue_actors issue)" "User_Login u = Some l" for u l
    unfolding s using that by (rule ArtificialEvent_stmts_actor)
  from i 1 2 3 show ?thesis by auto
qed

lemma ArtificialPREvent_actors:
  assumes "ArtificialPREvent ctx mh cfg pr = Inr (lg, stmts)" "\<not> SkipPDB ctx"
  shows "(\<forall>r. Insert_gha_pull_requests r \<in> set stmts \<longrightarrow>
          p_user_id r = ghActorIDOrNil (PR_User pr)
        \<and> p_merged_by_id r = ghActorIDOrNil (PR_MergedBy pr)
        \<and> p_assignee_id r = ghActorIDOrNil (PR_Assignee pr))
    \<and> (\<forall>p e a. Insert_gha_pull_requests_assignees p e a \<in> set stmts \<longrightarrow>
          (\<exists>u. Some u \<in> set (PR_Assignees pr) \<and> a = User_ID u))
    \<and> (\<forall>p e a. Insert_gha_pull_requests_requested_reviewers p e a \<in> set stmts \<longrightarrow>
          (\<exists>u. Some u \<in> set (PR_RequestedReviewers pr) \<and> a = User_ID u))
    \<and> (\<forall>u l. Some u \<in> set (pr_actors pr) \<and> User_Login u = Some l \<longrightarrow>
          Insert_gha_actors (User_ID u) (mh l) \<in> set stmts)"
  using assms
proof (cases rule: ArtificialPREvent_InrE)
  case (Committed issue iid event prid actor ms)
  note s = Committed(8)
  note mc = milestoneStmts_cases [OF Committed(4)]
  have 1: "p_user_id r = ghActorIDOrNil (PR_User pr)
        \<and> p_merged_by_id r = ghActorIDOrNil (PR_MergedBy pr)
        \<and> p_assignee_id r = ghActorIDOrNil (PR_Assignee pr)"
    if "Insert_gha_pull_requests r \<in> set stmts" for r
    using ArtificialPREvent_stmts_cases [OF that [unfolded s]] mc by auto
  have 2: "\<exists>u. Some u \<in> set (PR_Assignees pr) \<and> a = User_ID u"
    if "Insert_gha_pull_requests_assignees p e a \<in> set stmts" for p e a
    using ArtificialPREvent_stmts_cases [OF that [unfolded s]] mc by auto
  have 3: "\<exists>u. Some u \<in> set (PR_RequestedReviewers pr) \<and> a = User_ID u"
    if "Insert_gha_pull_requests_requested_reviewers p e a \<in> set stmts" for p e a
    using ArtificialPREvent_stmts_cases [OF that [unfolded s]] mc by auto
  have 4: "Insert_gha_actors (User_ID u) (mh l) \<in> set stmts"
    if "Some u \<in> set (pr_actors pr)" "User_Login u = Some l" for u l
    unfolding s using that by (rule ArtificialPREvent_stmts_actor)
  from 1 2 3 4 show ?thesis by blast
qed


text \<open>
  C7 (amended). In a bundle written by \<^verbatim>\<open>ArtificialEvent\<close> the user and assignee ids of
  the issue row and the creator id of the milestone row are those of the remote issue's
  user, assignee and milestone creator; in a bundle written by \<^verbatim>\<open>ArtificialPREvent\<close> the
  user, merged-by and assignee ids of the pull-request row and the ids of the assignee and
  reviewer join rows are those of the remote pull request's user, merged-by, assignee,
  assignees and requested reviewers. Each of these actor objects (and each element of the
  remote issue's assignees) that is not nil and has a login gets an insert-if-absent into
  \<^verbatim>\<open>gha_actors\<close>, with its id and its possibly hidden login, in the same transaction.
\<close>

theorem C7_declared_actors_upserted:
  assumes "\<not> SkipPDB ctx"
  shows "(ArtificialEvent ctx maybeHide cfg = Inr (lg, stmts) \<longrightarrow>
          GhIssue cfg \<noteq> None \<and> (\<forall>issue. GhIssue cfg = Some issue \<longrightarrow>
            (\<forall>r. Insert_gha_issues r \<in> set stmts \<longrightarrow>
                i_user_id r = ghActorIDOrNil (Issue_User issue)
              \<and> i_assignee_id r = ghActorIDOrNil (Issue_Assignee issue))
          \<and> (\<forall>mid e c. Insert_gha_milestones mid e c \<in> set stmts \<longrightarrow>
                (\<exists>m. Issue_Milestone issue = Some m \<and> c = ghActorIDOrNil (Milestone_Creator m)))
          \<and> (\<forall>u l. Some u \<in> set (issue_actors issue) \<and> User_Login u = Some l \<longrightarrow>
                Insert_gha_actors (User_ID u) (maybeHide l) \<in> set stmts)))
       \<and> (ArtificialPREvent ctx maybeHide cfg pr = Inr (lg, stmts) \<longrightarrow>
            (\<forall>r. Insert_gha_pull_requests r \<in> set stmts \<longrightarrow>
                p_user_id r = ghActorIDOrNil (PR_User pr)
              \<and> p_merged_by_id r = ghActorIDOrNil (PR_MergedBy pr)
              \<and> p_assignee_id r = ghActorIDOrNil (PR_Assignee pr))
          \<and> (\<forall>p e a. Insert_gha_pull_requests_assignees p e a \<in> set stmts \<longrightarrow>
                (\<exists>u. Some u \<in> set (PR_Assignees pr) \<and> a = User_ID u))
          \<and> (\<forall>p e a. Insert_gha_pull_requests_requested_reviewers p e a \<in> set stmts \<longrightarrow>
                (\<exists>u. Some u \<in> set (PR_RequestedReviewers pr) \<and> a = User_ID u))
          \<and> (\<forall>u l. Some u \<in> set (pr_actors pr) \<and> User_Login u = Some l \<longrightarrow>
                Insert_gha_actors (User_ID u) (maybeHide l) \<in> set stmts))"
  by (rule conjI; rule impI)
    (erule ArtificialEvent_actors [OF _ assms], erule ArtificialPREvent_actors [OF _ assms])

text \<open>
  The milestone creator bob of the issue bundle and the assignee bob of the pull-request
  bundle both have a login, and both bundles upsert actor 12.
\<close>

theorem C7_declared_actors_upserted_witness:
  "\<not> SkipPDB ex_ctx
   \<and> Some ex_bob \<in> set (issue_actors ex_issue_ms) \<and> User_Login ex_bob = Some ''bob''
   \<and> Insert_gha_actors (Some 12) ''bob'' \<in> set (stmts_of (ArtificialEvent ex_ctx id ex_cfg_ms))
   \<and> Some ex_bob \<in> set (pr_actors ex_pr)
   \<and> Insert_gha_actors (Some 12) ''bob'' \<in> set (stmts_of (ArtificialPREvent ex_ctx id ex_cfg ex_pr))"
proof -
  have s: "\<not> SkipPDB ex_ctx" by (simp add: ex_ctx_def)
  have i: "GhIssue ex_cfg_ms = Some ex_issue_ms" by (simp add: ex_cfg_ms_def)
  have b: "User_Login ex_bob = Some ''bob''" "User_ID ex_bob = Some 12" by (simp_all add: ex_bob_def)
  have m1: "Some ex_bob \<in> set (issue_actors ex_issue_ms)"
    by (simp add: issue_actors_def ex_issue_ms_def ex_milestone_def)
  have m2: "Some ex_bob \<in> set (pr_actors ex_pr)"
    by (simp add: pr_actors_def ex_pr_def)
  note t = C7_declared_actors_upserted [OF s, of id ex_cfg_ms "[]" _ ex_pr]
    C7_declared_actors_upserted [OF s, of id ex_cfg "[]" _ ex_pr]
  from t(1) [THEN conjunct1, rule_format, OF run_ex_cfg_ms, THEN conjunct2, rule_format, OF i,
      THEN conjunct2, THEN conjunct2, rule_format, OF conjI [OF m1 b(1)]]
    t(2) [THEN conjunct2, rule_format, OF run_ex_pr,
      THEN conjunct2, THEN conjunct2, THEN conjunct2, rule_format, OF conjI [OF m2 b(1)]]
  show ?thesis
    using s m1 m2 b by (simp add: stmts_of_def run_ex_cfg_ms run_ex_pr)
qed

text \<open>
  A remote user with id 5 and no login: the issue row declares \<open>user_id = 5\<close>, and the
  transaction holds no statement on \<^verbatim>\<open>gha_actors\<close> at all.
\<close>

theorem C7_actor_without_login_counterexample:
  "stmts_of (ArtificialEvent ex_ctx id ex_cfg_nologin) =
     [Begin,
      Insert_gha_issues
        \<lparr>i_id = 100, i_event_id = 281474976710663, i_assignee_id = None,
           i_closed_at = None, i_locked = Some False, i_milestone_id = None,
           i_state = Some ''open'', i_title = Some ''A'',
           i_updated_at = 1704067200000000000, i_user_id = Some 5\<rparr>,
      Insert_gha_events 281474976710663 ''labeled'' (Some 11),
      Insert_gha_payloads 281474976710663 100 None,
      Insert_gha_issues_labels 100 281474976710663 1 ''bug'', Commit]
   \<and> Actors \<notin> set (map stmt_step (stmts_of (ArtificialEvent ex_ctx id ex_cfg_nologin)))"
  by (simp add: stmts_of_def ArtificialEvent_def ArtificialEvent_stmts_def ex_ctx_def
      ex_cfg_nologin_def ex_cfg_def ex_issue_def ex_event_def ex_alice_def ex_nologin_def
      ghActor_def issueActorStmts_def ghActorIDOrNil_def ghMilestoneIDOrNil_def)

subsection \<open>The skip-write flag\<close>

text \<open>
  C8 (amended). With \<^verbatim>\<open>SkipPDB\<close> set, \<^verbatim>\<open>ArtificialEvent\<close> and \<^verbatim>\<open>ArtificialPREvent\<close> return
  nil and issue no statement, not even \<^verbatim>\<open>Begin\<close>; they print one line for the skipped write
  when the debug level is above 0, and nothing otherwise.
\<close>

theorem C8_skip_write:
  assumes "SkipPDB ctx"
  shows "ArtificialEvent ctx maybeHide cfg
           = Inr (if 0 < Debug ctx then [NoDBWriteIssue cfg] else [], [])
       \<and> ArtificialPREvent ctx maybeHide cfg pr
           = Inr (if 0 < Debug ctx then [NoDBWritePR cfg] else [], [])"
  using assms by (simp add: ArtificialEvent_def ArtificialPREvent_def)

text \<open>At debug level 1 the skipped write is logged.\<close>

theorem C8_skip_write_witness:
  "SkipPDB ex_skip_debug_ctx
   \<and> ArtificialEvent ex_skip_debug_ctx id ex_cfg = Inr ([NoDBWriteIssue ex_cfg], [])
   \<and> ArtificialPREvent ex_skip_debug_ctx id ex_cfg ex_pr = Inr ([NoDBWritePR ex_cfg], [])"
proof -
  have s: "SkipPDB ex_skip_debug_ctx" by (simp add: ex_skip_debug_ctx_def)
  show ?thesis
    using C8_skip_write [OF s, of id ex_cfg ex_pr] s by (simp add: ex_skip_debug_ctx_def)
qed

text \<open>At debug level 0 the write is skipped and no line is printed.\<close>

theorem C8_silent_skip_counterexample:
  "SkipPDB ex_skip_ctx
   \<and> ArtificialEvent ex_skip_ctx id ex_cfg = Inr ([], [])
   \<and> ArtificialPREvent ex_skip_ctx id ex_cfg ex_pr = Inr ([], [])"
  by (simp add: ArtificialEvent_def ArtificialPREvent_def ex_skip_ctx_def)

section \<open>Properties of the error classifier\<close>

lemma strings_Contains_iff:
  "strings_Contains s substr \<longleftrightarrow> (\<exists>pre post. s = pre @ substr @ post)"
proof (induction s)
  case Nil
  then show ?case by auto
next
  case (Cons c cs)
  show ?case
  proof
    assume "strings_Contains (c # cs) substr"
    then consider "take (length substr) (c # cs) = substr" | "strings_Contains cs substr"
      by auto
    then show "\<exists>pre post. c # cs = pre @ substr @ post"
    proof cases
      case 1
      then have "c # cs = [] @ substr @ drop (length substr) (c # cs)"
        by (metis append_Nil append_take_drop_id)
      then show ?thesis by blast
    next
      case 2
      with Cons.IH obtain pre post where "cs = pre @ substr @ post" by blast
      then have "c # cs = (c # pre) @ substr @ post" by simp
      then show ?thesis by blast
    qed
  next
    assume "\<exists>pre post. c # cs = pre @ substr @ post"
    then obtain pre post where e: "c # cs = pre @ substr @ post" by blast
    show "strings_Contains (c # cs) substr"
    proof (cases pre)
      case Nil
      with e have "take (length substr) (c # cs) = substr" by simp
      then show ?thesis by simp
    next
      case (Cons p pre')
      with e have "cs = pre' @ substr @ post" by simp
      with Cons.IH have "strings_Contains cs substr" by blast
      then show ?thesis by simp
    qed
  qed
qed

text \<open>
  C6. \<^verbatim>\<open>HandlePossibleError\<close> returns the empty string for a nil error, "rate" for a
  rate-limit error, the abuse signal for an abuse-throttle error, the not-found signal for
  any other error whose text contains "404 Not Found", and for every remaining error prints
  a line and ends the process with exit status 0. The cases are tried in this order.
\<close>

theorem C6_HandlePossibleError:
  "HandlePossibleError None cfg info = ([], Returns [])
   \<and> snd (HandlePossibleError (Some (RateLimitError t)) cfg info) = Returns ''rate''
   \<and> snd (HandlePossibleError (Some (AbuseRateLimitError t)) cfg info) = Returns Abuse
   \<and> ((\<exists>pre post. t = pre @ ''404 Not Found'' @ post) \<longrightarrow>
        snd (HandlePossibleError (Some (OtherError t)) cfg info) = Returns NotFound)
   \<and> (\<not> (\<exists>pre post. t = pre @ ''404 Not Found'' @ post) \<longrightarrow>
        HandlePossibleError (Some (OtherError t)) cfg info
          = ([NonFatalLine (OtherError t)], Exits 0))"
  using strings_Contains_iff [of t "''404 Not Found''"] by (simp add: HandlePossibleError_def)

text \<open>A not-found error of the API, and an error of no known kind.\<close>

theorem C6_HandlePossibleError_witness:
  "snd (HandlePossibleError
          (Some (OtherError ''GET https://api.github.com/repos/o/r/issues/1: 404 Not Found []''))
          None ''issue'') = Returns NotFound
   \<and> HandlePossibleError (Some (OtherError ''unexpected EOF'')) None ''issue''
       = ([NonFatalLine (OtherError ''unexpected EOF'')], Exits 0)"
proof -
  have a: "\<exists>pre post. ''GET https://api.github.com/repos/o/r/issues/1: 404 Not Found []''
              = pre @ ''404 Not Found'' @ post"
    using strings_Contains_iff
      [of "''GET https://api.github.com/repos/o/r/issues/1: 404 Not Found []''" "''404 Not Found''"]
    by simp
  have b: "\<not> (\<exists>pre post. ''unexpected EOF'' = pre @ ''404 Not Found'' @ post)"
    using strings_Contains_iff [of "''unexpected EOF''" "''404 Not Found''"] by simp
  from C6_HandlePossibleError [of None "''issue''"
         "''GET https://api.github.com/repos/o/r/issues/1: 404 Not Found []''"] a
       C6_HandlePossibleError [of None "''issue''" "''unexpected EOF''"] b
  show ?thesis by blast
qed

section \<open>Properties of the candidate normalizer\<close>

lemma Less_iff:
  "Less a b \<longleftrightarrow>
     sint (IssueID a) < sint (IssueID b)
     \<or> (sint (IssueID a) = sint (IssueID b)
         \<and> (CreatedAt a < CreatedAt b
             \<or> (CreatedAt a = CreatedAt b \<and> sint (EventID a) < sint (EventID b))))"
  by (auto simp: Less_def word_sless_alt signed_word_eqI)


lemma not_Less_trans: "\<not> Less b a \<Longrightarrow> \<not> Less c b \<Longrightarrow> \<not> Less c a"
  unfolding Less_iff by linarith

lemma set_insert_Less: "set (insert_Less x ys) = insert x (set ys)"
  by (induction ys) auto

lemma mset_insert_Less: "mset (insert_Less x ys) = add_mset x (mset ys)"
  by (induction ys) auto

lemma sorted_insert_Less:
  "sorted_wrt (\<lambda>a b. \<not> Less b a) ys \<Longrightarrow> sorted_wrt (\<lambda>a b. \<not> Less b a) (insert_Less x ys)"
proof (induction ys)
  case Nil
  then show ?case by simp
next
  case (Cons y ys)
  show ?case
  proof (cases "Less y x")
    case True
    then have "\<not> Less x y" unfolding Less_iff by linarith
    with Cons True show ?thesis by (auto simp: set_insert_Less)
  next
    case False
    have "\<not> Less z x" if "z \<in> set ys" for z
    proof -
      from Cons.prems that have "\<not> Less z y" by auto
      with False show ?thesis by (rule not_Less_trans)
    qed
    with False Cons.prems show ?thesis by auto
  qed
qed

lemma sort_Sort_result: "Sort_result ary (sort_Sort ary)"
  unfolding Sort_result_def sort_Sort_def
  by (induction ary) (simp_all add: mset_insert_Less sorted_insert_Less)

lemma final_state_map_snoc:
  "final_state_map (ys @ [y]) = (final_state_map ys)(ToYMDHMSDate (CreatedAt y) \<mapsto> y)"
  by (simp add: final_state_map_def)

lemma final_state_map_eq:
  "final_state_map ys k =
     (if \<exists>c\<in>set ys. ToYMDHMSDate (CreatedAt c) = k
      then Some (last (filter (\<lambda>c. ToYMDHMSDate (CreatedAt c) = k) ys)) else None)"
proof (induction ys rule: rev_induct)
  case Nil
  then show ?case by (simp add: final_state_map_def)
next
  case (snoc y ys)
  then show ?case by (auto simp: final_state_map_snoc)
qed

lemma last_filter_props:
  assumes "\<exists>c\<in>set ys. P c"
  shows "P (last (filter P ys))" and "last (filter P ys) \<in> set ys"
proof -
  from assms have ne: "filter P ys \<noteq> []" by (simp add: filter_empty_conv)
  then have "last (filter P ys) \<in> set (filter P ys)" by (rule last_in_set)
  then show "P (last (filter P ys))" and "last (filter P ys) \<in> set ys" by simp_all
qed


lemma leave_final_state_nth:
  assumes "k \<in> set (map (\<lambda>c. ToYMDHMSDate (CreatedAt c)) ys)"
  shows "(case final_state_map ys k of None \<Rightarrow> zero_IssueConfig | Some issue \<Rightarrow> issue)
           = last (filter (\<lambda>c. ToYMDHMSDate (CreatedAt c) = k) ys)"
  using assms by (auto simp: final_state_map_eq)

lemma leave_final_state_eq:
  "leave_final_state ys =
     map (\<lambda>k. last (filter (\<lambda>c. ToYMDHMSDate (CreatedAt c) = k) ys))
       (sort (remdups (map (\<lambda>c. ToYMDHMSDate (CreatedAt c)) ys)))"
  unfolding leave_final_state_def Let_def
  by (rule map_cong [OF refl]) (simp add: leave_final_state_nth)

lemma leave_final_state_keys:
  "map (\<lambda>c. ToYMDHMSDate (CreatedAt c)) (leave_final_state ys)
     = sort (remdups (map (\<lambda>c. ToYMDHMSDate (CreatedAt c)) ys))"
proof -
  have "map (\<lambda>c. ToYMDHMSDate (CreatedAt c)) (leave_final_state ys)
      = map (\<lambda>k. ToYMDHMSDate (CreatedAt (last (filter (\<lambda>c. ToYMDHMSDate (CreatedAt c) = k) ys))))
          (sort (remdups (map (\<lambda>c. ToYMDHMSDate (CreatedAt c)) ys)))"
    by (simp add: leave_final_state_eq comp_def)
  also have "\<dots> = map (\<lambda>k. k) (sort (remdups (map (\<lambda>c. ToYMDHMSDate (CreatedAt c)) ys)))"
  proof (rule map_cong [OF refl])
    fix k assume "k \<in> set (sort (remdups (map (\<lambda>c. ToYMDHMSDate (CreatedAt c)) ys)))"
    then have "\<exists>c\<in>set ys. ToYMDHMSDate (CreatedAt c) = k" by auto
    from last_filter_props(1) [OF this]
    show "ToYMDHMSDate (CreatedAt (last (filter (\<lambda>c. ToYMDHMSDate (CreatedAt c) = k) ys))) = k" .
  qed
  finally show ?thesis by simp
qed

lemma leave_final_state_mem:
  assumes "r \<in> set (leave_final_state ys)"
  shows "r \<in> set ys
    \<and> r = last (filter (\<lambda>c. ToYMDHMSDate (CreatedAt c) = ToYMDHMSDate (CreatedAt r)) ys)"
proof -
  from assms obtain k where k: "k \<in> set (map (\<lambda>c. ToYMDHMSDate (CreatedAt c)) ys)"
    and r: "r = last (filter (\<lambda>c. ToYMDHMSDate (CreatedAt c) = k) ys)"
    unfolding leave_final_state_eq by auto
  from k have ex: "\<exists>c\<in>set ys. ToYMDHMSDate (CreatedAt c) = k" by auto
  from last_filter_props [OF ex] r have "ToYMDHMSDate (CreatedAt r) = k" "r \<in> set ys" by simp_all
  with r show ?thesis by simp
qed










section \<open>Properties of the workers\<close>

subsection \<open>Which failures a worker can end in\<close>

lemma ghMilestone_failure: "ghMilestone eid ic mh = Inl f \<Longrightarrow> f = NilDereference"
  by (auto simp: ghMilestone_def split: option.splits)

lemma ArtificialEvent_failure: "ArtificialEvent ctx mh cfg = Inl f \<Longrightarrow> f = NilDereference"
  by (auto simp: ArtificialEvent_def dest: ghMilestone_failure
      split: if_splits option.splits sum.splits)

lemma ArtificialPREvent_failure: "ArtificialPREvent ctx mh cfg pr = Inl f \<Longrightarrow> f = NilDereference"
  by (auto simp: ArtificialPREvent_def dest: ghMilestone_failure
      split: if_splits option.splits sum.splits)

lemma api_ids_failure: "api_ids as = Inl f \<Longrightarrow> f = NilDereference"
  by (induction as arbitrary: f) (auto split: option.splits sum.splits)

lemma pr_changed_failure:
  "pr_changed c ic pr apiState apiTitle row ghaState ghaTitle = Inl f \<Longrightarrow> f = NilDereference"
  by (auto simp: pr_changed_def Let_def dest: api_ids_failure split: sum.splits)

lemma commit_and_count_failure:
  "commit_and_count w uidx st = Inl f \<Longrightarrow> w = Inl f"
  by (auto simp: commit_and_count_def split: sum.splits)

lemma pr_worker_empty:
  assumes "issues iid = None \<or> issues iid = Some []"
  shows "pr_worker manual ctx mh issues iid pr st = Inl IndexOutOfRange"
  using assms by (auto simp: pr_worker_def)

lemma pr_worker_nonempty:
  assumes "issues iid = Some ica" "ica \<noteq> []"
  shows "pr_worker manual ctx mh issues iid pr st \<noteq> Inl IndexOutOfRange"
proof
  assume a: "pr_worker manual ctx mh issues iid pr st = Inl IndexOutOfRange"
  have "f = NilDereference \<or> f = FatalError"
    if "pr_worker manual ctx mh issues iid pr st = Inl f" for f
    using that assms
    by (auto simp: pr_worker_def Let_def
        dest!: commit_and_count_failure ArtificialPREvent_failure pr_changed_failure
        split: if_splits option.splits sum.splits)
  from this [OF a] show False by simp
qed


subsection \<open>What a run that ends normally tells about its workers\<close>

lemma run_workers_each:
  assumes "run_workers w xs st = Inr st'" "x \<in> set xs"
  shows "\<exists>s s'. w x s = Inr s'"
  using assms
proof (induction xs arbitrary: st)
  case Nil
  then show ?case by simp
next
  case (Cons y ys)
  from Cons.prems(1) obtain st1 where y: "w y st = Inr st1" and r: "run_workers w ys st1 = Inr st'"
    by (auto split: sum.splits)
  show ?case
  proof (cases "x = y")
    case True
    with y show ?thesis by blast
  next
    case False
    with Cons.prems(2) have "x \<in> set ys" by simp
    from Cons.IH [OF r this] show ?thesis .
  qed
qed

lemma SyncIssuesState_InrE:
  assumes "SyncIssuesState ctx mh c issues prs manual = Inr res"
  obtains (Ran) st1 st2 where
    "run_workers (issue_worker manual ctx mh) (concat (map snd (normalized_batch manual issues)))
       \<lparr> db = c, updates = [0, 0, 0, 0] \<rparr> = Inr st1"
    "run_workers (\<lambda>(iid, pr). pr_worker manual ctx mh (map_of (normalized_batch manual issues)) iid pr)
       prs \<lparr> db = db st1, updates = [0, 0, 0, 0, 0] \<rparr> = Inr st2"
    "res = (updates st1, updates st2, db st2)"
  using assms unfolding SyncIssuesState_def Let_def by (auto split: sum.splits)

lemma sort_Sort_Nil_iff: "sort_Sort ary = [] \<longleftrightarrow> ary = []"
  using sort_Sort_result [of ary] unfolding Sort_result_def
  by (metis mset_zero_iff)

lemma leave_final_state_Nil_iff: "leave_final_state ys = [] \<longleftrightarrow> ys = []"
proof -
  have "leave_final_state ys = [] \<longleftrightarrow>
          map (\<lambda>c. ToYMDHMSDate (CreatedAt c)) (leave_final_state ys) = []" by simp
  also have "\<dots> \<longleftrightarrow> ys = []"
    unfolding leave_final_state_keys by (metis list.map_disc_iff remdups_eq_nil_iff set_empty set_sort)
  finally show ?thesis .
qed

lemma normalize_issues_Nil_iff: "normalize_issues ary = [] \<longleftrightarrow> ary = []"
  by (simp add: normalize_issues_def leave_final_state_Nil_iff sort_Sort_Nil_iff)

lemma map_of_normalized_batch:
  "map_of (normalized_batch manual issues) iid =
     (if manual then map_of issues iid else map_option normalize_issues (map_of issues iid))"
  by (simp add: normalized_batch_def map_of_map)

lemma normalized_batch_empty_iff:
  "(map_of (normalized_batch manual issues) iid = None
      \<or> map_of (normalized_batch manual issues) iid = Some [])
   \<longleftrightarrow> (map_of issues iid = None \<or> map_of issues iid = Some [])"
  by (auto simp: map_of_normalized_batch normalize_issues_Nil_iff)

subsection \<open>The candidates of a pull request\<close>

text \<open>
  C9. A PR worker ends in an index-out-of-range panic exactly when the map of issues holds
  no candidate list, or an empty one, under the issue id of its pull request. So a run of
  \<^verbatim>\<open>SyncIssuesState\<close> that ends normally had a non-empty candidate list for every issue id
  of \<^verbatim>\<open>prs\<close>.
\<close>

theorem C9_pr_worker_needs_candidates:
  "(pr_worker manual ctx maybeHide issues iid pr st = Inl IndexOutOfRange
      \<longleftrightarrow> (issues iid = None \<or> issues iid = Some []))
   \<and> (SyncIssuesState ctx maybeHide c batch prs manual = Inr res \<longrightarrow>
        (\<forall>(iid', pr') \<in> set prs. \<exists>ica. map_of batch iid' = Some ica \<and> ica \<noteq> []))"
proof (intro conjI impI)
  show "pr_worker manual ctx maybeHide issues iid pr st = Inl IndexOutOfRange
      \<longleftrightarrow> (issues iid = None \<or> issues iid = Some [])"
    using pr_worker_empty [of issues iid manual ctx maybeHide pr st]
      pr_worker_nonempty [of issues iid _ manual ctx maybeHide pr st]
    by (cases "issues iid") auto
next
  assume "SyncIssuesState ctx maybeHide c batch prs manual = Inr res"
  then show "\<forall>(iid', pr') \<in> set prs. \<exists>ica. map_of batch iid' = Some ica \<and> ica \<noteq> []"
  proof (cases rule: SyncIssuesState_InrE)
    case (Ran st1 st2)
    show ?thesis
    proof (clarify)
      fix iid' pr' assume "(iid', pr') \<in> set prs"
      from run_workers_each [OF Ran(2) this] obtain s s' where
        "pr_worker manual ctx maybeHide (map_of (normalized_batch manual batch)) iid' pr' s = Inr s'"
        by auto
      then have "\<not> (map_of (normalized_batch manual batch) iid' = None
                     \<or> map_of (normalized_batch manual batch) iid' = Some [])"
        using pr_worker_empty by fastforce
      then have "\<not> (map_of batch iid' = None \<or> map_of batch iid' = Some [])"
        unfolding normalized_batch_empty_iff .
      then show "\<exists>ica. map_of batch iid' = Some ica \<and> ica \<noteq> []" by auto
    qed
  qed
qed

text \<open>
  Pull request 500 of issue 100 with no candidate list for issue 100, and with the list
  of one candidate.
\<close>

theorem C9_pr_worker_needs_candidates_witness:
  "pr_worker False ex_ctx id Map.empty 100 ex_pr \<lparr> db = ex_empty, updates = [0, 0, 0, 0, 0] \<rparr>
     = Inl IndexOutOfRange
   \<and> pr_worker False ex_ctx id [100 \<mapsto> [ex_cfg]] 100 ex_pr
        \<lparr> db = ex_empty, updates = [0, 0, 0, 0, 0] \<rparr> \<noteq> Inl IndexOutOfRange"
  using C9_pr_worker_needs_candidates [of False ex_ctx id Map.empty 100 ex_pr
          "\<lparr> db = ex_empty, updates = [0, 0, 0, 0, 0] \<rparr>"]
    C9_pr_worker_needs_candidates [of False ex_ctx id "[100 \<mapsto> [ex_cfg]]" 100 ex_pr
          "\<lparr> db = ex_empty, updates = [0, 0, 0, 0, 0] \<rparr>"]
  by simp

subsection \<open>The pointers that the workers dereference\<close>





subsection \<open>The collision guard of the PR worker\<close>

text \<open>
  C5. In non-manual mode, a PR worker whose pull request (with the pointers of C10 not
  nil, and a candidate list for its issue) finds a row of \<^verbatim>\<open>gha_pull_requests\<close> with its id,
  with the event id 281474976710656 plus the event id of its candidate and with another
  \<^verbatim>\<open>updated_at\<close>, adds one to \<^verbatim>\<open>updates[4]\<close> and returns; the database is as before.
\<close>

theorem C5_pr_collision_guard:
  assumes "\<not> manual"
    and "issues iid = Some ica" and "ica \<noteq> []"
    and "PR_ID pr = Some prid" and "PR_UpdatedAt pr = Some updatedAt"
    and "PR_State pr \<noteq> None" and "PR_Title pr \<noteq> None"
    and "r \<in> set (gha_pull_requests (db st))"
    and "p_id r = prid" and "p_event_id r = 281474976710656 + EventID (last ica)"
    and "p_updated_at r = Some t" and "t \<noteq> updatedAt"
  shows "pr_worker manual ctx maybeHide issues iid pr st
           = Inr (st \<lparr> updates := (updates st)[4 := updates st ! 4 + 1] \<rparr>)"
proof -
  have "pr_collision (db st) prid (281474976710656 + EventID (last ica)) updatedAt"
    unfolding pr_collision_def using assms(8-12) by (intro bexI [of _ r]) simp_all
  with assms(1-7) show ?thesis
    by (auto simp: pr_worker_def count_update_def)
qed

text \<open>
  Pull request 500 stored under event id 281474976710663 with an older \<^verbatim>\<open>updated_at\<close>,
  and the candidate of event 7.
\<close>

theorem C5_pr_collision_guard_witness:
  "pr_worker False ex_ctx id [100 \<mapsto> [ex_cfg]] 100 ex_pr
       \<lparr> db = ex_collision, updates = [0, 0, 0, 0, 0] \<rparr>
     = Inr \<lparr> db = ex_collision, updates = [0, 0, 0, 0, 1] \<rparr>"
proof -
  have "pr_worker False ex_ctx id [100 \<mapsto> [ex_cfg]] 100 ex_pr
       \<lparr> db = ex_collision, updates = [0, 0, 0, 0, 0] \<rparr>
     = Inr (\<lparr> db = ex_collision, updates = [0, 0, 0, 0, 0] \<rparr>
             \<lparr> updates := (updates \<lparr> db = ex_collision, updates = [0, 0, 0, 0, 0] \<rparr>)
                 [4 := updates \<lparr> db = ex_collision, updates = [0, 0, 0, 0, 0] \<rparr> ! 4 + 1] \<rparr>)"
    by (rule C5_pr_collision_guard [where ica = "[ex_cfg]" and prid = 500
          and updatedAt = 1704067200000000000 and r = ex_pr_row and t = 1704060000000000000])
       (simp_all add: ex_pr_def ex_collision_def ex_pr_row_def ex_cfg_def)
  then show ?thesis by simp
qed

section \<open>Properties of a second run\<close>

subsection \<open>Two manual runs\<close>

lemma Sprintf_d_ex: "Sprintf_d 1 = ''1''" "Sprintf_d 12 = ''12''"
  by code_simp+

lemma labels_ex:
  "select_labels ex_manual_store 3 = ''1''"
  "select_labels ex_after_first 3 = ''1''"
  "select_labels ex_after_first 281474976710663 = []"
  by (simp_all add: select_labels_def ex_manual_store_def ex_after_first_def Sprintf_d_ex)

lemma issue_assignees_ex:
  "select_issue_assignees ex_manual_store 3 = []"
  "select_issue_assignees ex_after_first 3 = []"
  by (simp_all add: select_issue_assignees_def ex_manual_store_def ex_after_first_def)

lemma pr_assignees_ex:
  "select_pr_assignees ex_manual_store 3 = ''12''"
  "select_pr_assignees ex_after_first 281474976710663 = ''12''"
  by (simp_all add: select_pr_assignees_def ex_manual_store_def ex_after_first_def Sprintf_d_ex
      List.map_filter_simps)

lemma pr_reviewers_ex:
  "select_pr_reviewers ex_manual_store 3 = []"
  "select_pr_reviewers ex_after_first 281474976710663 = []"
  by (simp_all add: select_pr_reviewers_def ex_manual_store_def ex_after_first_def
      List.map_filter_simps)

lemma select_issue_ex:
  "select_issue True ex_manual_store ex_cfg = Some ex_issue_row"
  "select_issue True ex_after_first ex_cfg = Some ex_issue_row"
  by (simp_all add: select_issue_def ex_manual_store_def ex_after_first_def ex_cfg_def
      ex_issue_row_def)

lemma select_pr_ex:
  "select_pr True ex_manual_store 500 1704067200000000000 = Some ex_old_pr_row"
  "select_pr True ex_after_first 500 1704067200000000000 = Some ex_new_pr_row"
  by (simp_all add: select_pr_def ex_manual_store_def ex_after_first_def
      ex_old_pr_row_def ex_new_pr_row_def pr_row_after_def)


lemma issue_worker_ex:
  "issue_worker True ex_ctx id ex_cfg \<lparr> db = ex_manual_store, updates = [0, 0, 0, 0] \<rparr>
     = Inr \<lparr> db = ex_manual_store, updates = [0, 0, 1, 0] \<rparr>"
  "issue_worker True ex_ctx id ex_cfg \<lparr> db = ex_after_first, updates = [0, 0, 0, 0] \<rparr>
     = Inr \<lparr> db = ex_after_first, updates = [0, 0, 1, 0] \<rparr>"
proof -
  have c: "GhIssue ex_cfg = Some ex_issue" "MilestoneID ex_cfg = None" "AssigneeID ex_cfg = None"
    "Labels ex_cfg = ''1''" "Assignees ex_cfg = []"
    by (simp_all add: ex_cfg_def)
  have i: "Issue_State ex_issue = Some ''open''" "Issue_Title ex_issue = Some ''A''"
    "Issue_Locked ex_issue = Some False" "Issue_ClosedAt ex_issue = None"
    by (simp_all add: ex_issue_def)
  have r: "i_state ex_issue_row = Some ''open''" "i_title ex_issue_row = Some ''A''"
    "i_locked ex_issue_row = Some False" "i_closed_at ex_issue_row = None"
    "i_milestone_id ex_issue_row = None" "i_assignee_id ex_issue_row = None"
    "i_event_id ex_issue_row = 3"
    by (simp_all add: ex_issue_row_def)
  show "issue_worker True ex_ctx id ex_cfg \<lparr> db = ex_manual_store, updates = [0, 0, 0, 0] \<rparr>
     = Inr \<lparr> db = ex_manual_store, updates = [0, 0, 1, 0] \<rparr>"
    by (simp add: issue_worker_def issue_changed_def select_issue_ex c i r labels_ex issue_assignees_ex
        changed_value_def changed_time_def count_update_def)
  show "issue_worker True ex_ctx id ex_cfg \<lparr> db = ex_after_first, updates = [0, 0, 0, 0] \<rparr>
     = Inr \<lparr> db = ex_after_first, updates = [0, 0, 1, 0] \<rparr>"
    by (simp add: issue_worker_def issue_changed_def select_issue_ex c i r labels_ex issue_assignees_ex
        changed_value_def changed_time_def count_update_def)
qed

lemma exec_tx_ex:
  "exec_tx (stmts_of (ArtificialPREvent ex_ctx id ex_cfg ex_pr)) ex_manual_store = ex_after_first"
  "exec_tx (stmts_of (ArtificialPREvent ex_ctx id ex_cfg ex_pr)) ex_after_first = ex_after_second"
  by (simp_all add: stmts_of_def run_ex_pr exec_tx_def ex_manual_store_def ex_after_first_def
      ex_after_second_def ex_new_pr_row_def insert_if_absent_def)

lemma pr_worker_ex:
  "pr_worker True ex_ctx id [100 \<mapsto> [ex_cfg]] 100 ex_pr
       \<lparr> db = ex_manual_store, updates = [0, 0, 0, 0, 0] \<rparr>
     = Inr \<lparr> db = ex_after_first, updates = [0, 0, 0, 1, 0] \<rparr>"
  "pr_worker True ex_ctx id [100 \<mapsto> [ex_cfg]] 100 ex_pr
       \<lparr> db = ex_after_first, updates = [0, 0, 0, 0, 0] \<rparr>
     = Inr \<lparr> db = ex_after_second, updates = [0, 0, 0, 1, 0] \<rparr>"
proof -
  have p: "PR_ID ex_pr = Some 500" "PR_UpdatedAt ex_pr = Some 1704067200000000000"
    "PR_State ex_pr = Some ''open''" "PR_Title ex_pr = Some ''A''"
    "PR_Merged ex_pr = Some False" "PR_ClosedAt ex_pr = None" "PR_MergedAt ex_pr = None"
    "PR_Milestone ex_pr = None" "PR_Assignee ex_pr = None" "PR_MergedBy ex_pr = None"
    "PR_Assignees ex_pr = [Some ex_bob]" "PR_RequestedReviewers ex_pr = []"
    by (simp_all add: ex_pr_def)
  have b: "User_ID ex_bob = Some 12" "User_Login ex_bob = Some ''bob''"
    by (simp_all add: ex_bob_def)
  have o: "p_state ex_old_pr_row = Some ''open''" "p_title ex_old_pr_row = Some ''B''"
    "p_event_id ex_old_pr_row = 3"
    by (simp_all add: ex_old_pr_row_def)
  have n: "p_state ex_new_pr_row = Some ''open''" "p_title ex_new_pr_row = Some ''A''"
    "p_event_id ex_new_pr_row = 281474976710663" "p_merged ex_new_pr_row = Some False"
    "p_closed_at ex_new_pr_row = None" "p_merged_at ex_new_pr_row = None"
    "p_milestone_id ex_new_pr_row = None" "p_assignee_id ex_new_pr_row = None"
    "p_merged_by_id ex_new_pr_row = None"
    by (simp_all add: ex_new_pr_row_def)
  have l: "Labels ex_cfg = ''1''" by (simp add: ex_cfg_def)
  have w: "ArtificialPREvent ex_ctx id ex_cfg ex_pr
             = Inr ([], stmts_of (ArtificialPREvent ex_ctx id ex_cfg ex_pr))"
    by (simp add: stmts_of_def run_ex_pr)
  show "pr_worker True ex_ctx id [100 \<mapsto> [ex_cfg]] 100 ex_pr
       \<lparr> db = ex_manual_store, updates = [0, 0, 0, 0, 0] \<rparr>
     = Inr \<lparr> db = ex_after_first, updates = [0, 0, 0, 1, 0] \<rparr>"
    apply (simp add: pr_worker_def pr_changed_def p b o select_pr_ex)
    apply (subst w)
    apply (simp add: commit_and_count_def exec_tx_ex count_update_def)
    done
  show "pr_worker True ex_ctx id [100 \<mapsto> [ex_cfg]] 100 ex_pr
       \<lparr> db = ex_after_first, updates = [0, 0, 0, 0, 0] \<rparr>
     = Inr \<lparr> db = ex_after_second, updates = [0, 0, 0, 1, 0] \<rparr>"
    apply (simp add: pr_worker_def pr_changed_def p b n l select_pr_ex labels_ex changed_value_def
        changed_time_def ghMilestoneIDOrNil_def ghActorIDOrNil_def)
    apply (subst w)
    apply (simp add: commit_and_count_def exec_tx_ex count_update_def)
    done
qed

text \<open>
  Two manual runs on the batch of issue 100 and pull request 500. The first finds the
  issue current and the title of the pull request changed, and writes a pull-request
  bundle under event id 281474976710663. The second reads that bundle back as the latest
  state of the pull request, finds no label row under its event id (a pull-request bundle
  has none) while the candidate has label 1, and writes the bundle again.
\<close>

theorem C3_manual_rerun_counterexample:
  "SyncIssuesState ex_ctx id ex_manual_store [(100, [ex_cfg])] [(100, ex_pr)] True
     = Inr ([0, 0, 1, 0], [0, 0, 0, 1, 0], ex_after_first)
   \<and> SyncIssuesState ex_ctx id ex_after_first [(100, [ex_cfg])] [(100, ex_pr)] True
     = Inr ([0, 0, 1, 0], [0, 0, 0, 1, 0], ex_after_second)
   \<and> gha_pull_requests ex_after_first = [ex_old_pr_row, ex_new_pr_row]
   \<and> gha_pull_requests ex_after_second = [ex_old_pr_row, ex_new_pr_row, ex_new_pr_row]
   \<and> ex_after_second \<noteq> ex_after_first"
proof -
  have 1: "SyncIssuesState ex_ctx id ex_manual_store [(100, [ex_cfg])] [(100, ex_pr)] True
     = Inr ([0, 0, 1, 0], [0, 0, 0, 1, 0], ex_after_first)"
    by (simp add: SyncIssuesState_def normalized_batch_def issue_worker_ex pr_worker_ex)
  have 2: "SyncIssuesState ex_ctx id ex_after_first [(100, [ex_cfg])] [(100, ex_pr)] True
     = Inr ([0, 0, 1, 0], [0, 0, 0, 1, 0], ex_after_second)"
    by (simp add: SyncIssuesState_def normalized_batch_def issue_worker_ex pr_worker_ex)
  have 3: "gha_pull_requests ex_after_first = [ex_old_pr_row, ex_new_pr_row]"
    "gha_pull_requests ex_after_second = [ex_old_pr_row, ex_new_pr_row, ex_new_pr_row]"
    by (simp_all add: ex_after_first_def ex_after_second_def)
  then have "gha_pull_requests ex_after_second \<noteq> gha_pull_requests ex_after_first" by simp
  then have "ex_after_second \<noteq> ex_after_first" by auto
  with 1 2 3 show ?thesis by simp
qed

subsection \<open>Tables that only grow\<close>

lemma grows_refl: "grows P xs xs"
  by (simp add: grows_def)

lemma grows_snoc: "P r \<Longrightarrow> grows P xs (xs @ [r])"
  by (simp add: grows_def)

lemma grows_trans:
  assumes "grows P xs ys" "grows P ys zs"
  shows "grows P xs zs"
proof -
  from assms obtain a b where a: "ys = xs @ a" "\<forall>r\<in>set a. P r"
    and b: "zs = ys @ b" "\<forall>r\<in>set b. P r"
    unfolding grows_def by blast
  then have "zs = xs @ (a @ b)" "\<forall>r\<in>set (a @ b). P r" by auto
  then show ?thesis unfolding grows_def by blast
qed

lemma extends_refl: "extends c c"
  by (simp add: extends_def grows_refl)

lemma extends_trans: "extends a b \<Longrightarrow> extends b c \<Longrightarrow> extends a c"
  unfolding extends_def by (blast intro: grows_trans)

lemma exec_tx_Nil: "exec_tx [] c = c"
  by (simp add: exec_tx_def)

lemma exec_tx_Cons: "exec_tx (s # ss) c = exec_tx ss (exec_stmt s c)"
  by (simp add: exec_tx_def)

lemma exec_stmt_extends: "synthetic_stmt s \<Longrightarrow> extends c (exec_stmt s c)"
  by (cases s) (simp_all add: extends_def grows_refl grows_snoc synthetic_join_row_def)

lemma exec_tx_extends:
  "\<forall>s\<in>set stmts. synthetic_stmt s \<Longrightarrow> extends c (exec_tx stmts c)"
proof (induction stmts arbitrary: c)
  case Nil
  show ?case by (simp add: exec_tx_Nil extends_refl)
next
  case (Cons s ss)
  have "extends c (exec_stmt s c)" using Cons.prems by (simp add: exec_stmt_extends)
  moreover have "extends (exec_stmt s c) (exec_tx ss (exec_stmt s c))"
    using Cons.prems by (intro Cons.IH) simp
  ultimately show ?case unfolding exec_tx_Cons by (rule extends_trans)
qed

lemma exec_tx_gha_issues:
  "\<exists>added. gha_issues (exec_tx stmts c) = gha_issues c @ added
     \<and> set added = {r. Insert_gha_issues r \<in> set stmts}"
proof (induction stmts arbitrary: c)
  case Nil
  show ?case by (simp add: exec_tx_Nil)
next
  case (Cons s ss)
  have "\<exists>a. gha_issues (exec_stmt s c) = gha_issues c @ a \<and> set a = {r. s = Insert_gha_issues r}"
    by (cases s) auto
  then obtain a where a: "gha_issues (exec_stmt s c) = gha_issues c @ a"
    "set a = {r. s = Insert_gha_issues r}" by blast
  from Cons.IH [of "exec_stmt s c"] obtain b where
    b: "gha_issues (exec_tx ss (exec_stmt s c)) = gha_issues (exec_stmt s c) @ b"
    "set b = {r. Insert_gha_issues r \<in> set ss}" by blast
  have "gha_issues (exec_tx (s # ss) c) = gha_issues c @ (a @ b)"
    using a b by (simp add: exec_tx_Cons)
  moreover have "set (a @ b) = {r. Insert_gha_issues r \<in> set (s # ss)}"
    using a b by auto
  ultimately show ?case by blast
qed

lemma exec_tx_gha_pull_requests:
  "\<exists>added. gha_pull_requests (exec_tx stmts c) = gha_pull_requests c @ added
     \<and> set added = {r. Insert_gha_pull_requests r \<in> set stmts}"
proof (induction stmts arbitrary: c)
  case Nil
  show ?case by (simp add: exec_tx_Nil)
next
  case (Cons s ss)
  have "\<exists>a. gha_pull_requests (exec_stmt s c) = gha_pull_requests c @ a
          \<and> set a = {r. s = Insert_gha_pull_requests r}"
    by (cases s) auto
  then obtain a where a: "gha_pull_requests (exec_stmt s c) = gha_pull_requests c @ a"
    "set a = {r. s = Insert_gha_pull_requests r}" by blast
  from Cons.IH [of "exec_stmt s c"] obtain b where
    b: "gha_pull_requests (exec_tx ss (exec_stmt s c)) = gha_pull_requests (exec_stmt s c) @ b"
    "set b = {r. Insert_gha_pull_requests r \<in> set ss}" by blast
  have "gha_pull_requests (exec_tx (s # ss) c) = gha_pull_requests c @ (a @ b)"
    using a b by (simp add: exec_tx_Cons)
  moreover have "set (a @ b) = {r. Insert_gha_pull_requests r \<in> set (s # ss)}"
    using a b by auto
  ultimately show ?case by blast
qed

subsection \<open>The probes on a table that grew\<close>

lemma first_issue_row_append:
  "first_issue_row (xs @ ys) =
     (case first_issue_row xs of
        None \<Rightarrow> first_issue_row ys
      | Some a \<Rightarrow>
          (case first_issue_row ys of
             None \<Rightarrow> Some a
           | Some b \<Rightarrow>
               if i_updated_at a < i_updated_at b
                  \<or> (i_updated_at a = i_updated_at b \<and> i_event_id a <s i_event_id b)
               then Some b else Some a))"
  by (induction xs) (auto simp: word_sless_alt split: option.splits)

lemma first_issue_row_mem: "first_issue_row rs = Some p \<Longrightarrow> p \<in> set rs"
  by (induction rs arbitrary: p) (auto split: option.splits if_splits)

lemma first_issue_row_None: "first_issue_row rs = None \<longleftrightarrow> rs = []"
  by (cases rs) (auto split: option.splits)

lemma pr_row_after_trans: "pr_row_after a b \<Longrightarrow> pr_row_after b c \<Longrightarrow> pr_row_after a c"
  by (auto simp: pr_row_after_def word_sless_alt split: option.splits)

lemma pr_row_after_negtrans:
  "\<not> pr_row_after a b \<Longrightarrow> \<not> pr_row_after b c \<Longrightarrow> \<not> pr_row_after a c"
  by (auto simp: pr_row_after_def word_sless_alt split: option.splits)

lemma first_pr_row_append:
  "first_pr_row (xs @ ys) =
     (case first_pr_row xs of
        None \<Rightarrow> first_pr_row ys
      | Some a \<Rightarrow>
          (case first_pr_row ys of
             None \<Rightarrow> Some a
           | Some b \<Rightarrow> if pr_row_after a b then Some b else Some a))"
  by (induction xs)
    (auto split: option.splits dest: pr_row_after_trans pr_row_after_negtrans)

lemma first_pr_row_mem: "first_pr_row rs = Some p \<Longrightarrow> p \<in> set rs"
  by (induction rs arbitrary: p) (auto split: option.splits if_splits)

lemma first_pr_row_None: "first_pr_row rs = None \<longleftrightarrow> rs = []"
  by (cases rs) (auto split: option.splits)

lemma select_labels_grows:
  assumes "grows synthetic_join_row (gha_issues_labels c) (gha_issues_labels c2)"
    and "\<not> 281474976710656 <s e"
  shows "select_labels c2 e = select_labels c e"
proof -
  from assms(1) obtain added where a: "gha_issues_labels c2 = gha_issues_labels c @ added"
    "\<forall>r\<in>set added. synthetic_join_row r" unfolding grows_def by blast
  have "filter (\<lambda>(iid, eid, lid, lname). eid = e) added = []"
    using a(2) assms(2) by (auto simp: filter_empty_conv synthetic_join_row_def)
  then show ?thesis by (simp add: select_labels_def a(1))
qed

lemma select_issue_assignees_grows:
  assumes "grows synthetic_join_row (gha_issues_assignees c) (gha_issues_assignees c2)"
    and "\<not> 281474976710656 <s e"
  shows "select_issue_assignees c2 e = select_issue_assignees c e"
proof -
  from assms(1) obtain added where a: "gha_issues_assignees c2 = gha_issues_assignees c @ added"
    "\<forall>r\<in>set added. synthetic_join_row r" unfolding grows_def by blast
  have "filter (\<lambda>(iid, eid, aid). eid = e) added = []"
    using a(2) assms(2) by (auto simp: filter_empty_conv synthetic_join_row_def)
  then show ?thesis by (simp add: select_issue_assignees_def a(1))
qed

lemma map_filter_append: "List.map_filter f (xs @ ys) = List.map_filter f xs @ List.map_filter f ys"
  by (simp add: List.map_filter_def)

lemma map_filter_synthetic:
  assumes "\<forall>r\<in>set added. synthetic_join_row r" "\<not> 281474976710656 <s e"
  shows "List.map_filter (\<lambda>(prid, eid, aid). if eid = e then aid else None) added = []"
  using assms by (induction added) (auto simp: List.map_filter_simps synthetic_join_row_def)

lemma select_pr_assignees_grows:
  assumes "grows synthetic_join_row (gha_pull_requests_assignees c) (gha_pull_requests_assignees c2)"
    and "\<not> 281474976710656 <s e"
  shows "select_pr_assignees c2 e = select_pr_assignees c e"
proof -
  from assms(1) obtain added where
    a: "gha_pull_requests_assignees c2 = gha_pull_requests_assignees c @ added"
    "\<forall>r\<in>set added. synthetic_join_row r" unfolding grows_def by blast
  show ?thesis
    by (simp add: select_pr_assignees_def a(1) map_filter_append
        map_filter_synthetic [OF a(2) assms(2)])
qed

lemma select_pr_reviewers_grows:
  assumes "grows synthetic_join_row (gha_pull_requests_requested_reviewers c)
             (gha_pull_requests_requested_reviewers c2)"
    and "\<not> 281474976710656 <s e"
  shows "select_pr_reviewers c2 e = select_pr_reviewers c e"
proof -
  from assms(1) obtain added where
    a: "gha_pull_requests_requested_reviewers c2
          = gha_pull_requests_requested_reviewers c @ added"
    "\<forall>r\<in>set added. synthetic_join_row r" unfolding grows_def by blast
  show ?thesis
    by (simp add: select_pr_reviewers_def a(1) map_filter_append
        map_filter_synthetic [OF a(2) assms(2)])
qed

lemma issue_changed_extends:
  assumes "extends c c2" "\<not> 281474976710656 <s i_event_id row"
  shows "issue_changed c2 cfg issue s t l row gs gt gl = issue_changed c cfg issue s t l row gs gt gl"
proof -
  have "select_labels c2 (i_event_id row) = select_labels c (i_event_id row)"
    "select_issue_assignees c2 (i_event_id row) = select_issue_assignees c (i_event_id row)"
    using assms by (simp_all add: extends_def select_labels_grows select_issue_assignees_grows)
  then show ?thesis by (simp add: issue_changed_def Let_def)
qed

lemma pr_changed_extends:
  assumes "extends c c2" "\<not> 281474976710656 <s p_event_id row"
  shows "pr_changed c2 ic pr s t row gs gt = pr_changed c ic pr s t row gs gt"
proof -
  have "select_labels c2 (p_event_id row) = select_labels c (p_event_id row)"
    "select_pr_assignees c2 (p_event_id row) = select_pr_assignees c (p_event_id row)"
    "select_pr_reviewers c2 (p_event_id row) = select_pr_reviewers c (p_event_id row)"
    using assms
    by (simp_all add: extends_def select_labels_grows select_pr_assignees_grows
        select_pr_reviewers_grows)
  then show ?thesis by (simp add: pr_changed_def Let_def split: sum.splits)
qed

subsection \<open>A settled issue candidate\<close>

lemma issue_settledI:
  assumes "GhIssue cfg = Some issue" "Issue_State issue = Some s" "Issue_Title issue = Some t"
    "Issue_Locked issue = Some l" "select_issue False c cfg = Some row"
    "i_state row = Some gs" "i_title row = Some gt" "i_locked row = Some gl"
    "281474976710656 <s i_event_id row \<or> \<not> issue_changed c cfg issue s t l row gs gt gl"
  shows "issue_settled c cfg"
  using assms by (simp add: issue_settled_def)

lemma issue_settledE:
  assumes "issue_settled c cfg"
  obtains (Settled) issue s t l row gs gt gl where
    "GhIssue cfg = Some issue" "Issue_State issue = Some s" "Issue_Title issue = Some t"
    "Issue_Locked issue = Some l" "select_issue False c cfg = Some row"
    "i_state row = Some gs" "i_title row = Some gt" "i_locked row = Some gl"
    "281474976710656 <s i_event_id row \<or> \<not> issue_changed c cfg issue s t l row gs gt gl"
proof -
  note d = issue_settled_def
  obtain issue where 1: "GhIssue cfg = Some issue"
    using assms by (cases "GhIssue cfg") (simp_all add: d)
  obtain s where 2: "Issue_State issue = Some s"
    using assms 1 by (cases "Issue_State issue") (simp_all add: d)
  obtain t where 3: "Issue_Title issue = Some t"
    using assms 1 2 by (cases "Issue_Title issue") (simp_all add: d)
  obtain l where 4: "Issue_Locked issue = Some l"
    using assms 1 2 3 by (cases "Issue_Locked issue") (simp_all add: d)
  obtain row where 5: "select_issue False c cfg = Some row"
    using assms 1 2 3 4 by (cases "select_issue False c cfg") (simp_all add: d)
  obtain gs where 6: "i_state row = Some gs"
    using assms 1 2 3 4 5 by (cases "i_state row") (simp_all add: d)
  obtain gt where 7: "i_title row = Some gt"
    using assms 1 2 3 4 5 6 by (cases "i_title row") (simp_all add: d)
  obtain gl where 8: "i_locked row = Some gl"
    using assms 1 2 3 4 5 6 7 by (cases "i_locked row") (simp_all add: d)
  have 9: "281474976710656 <s i_event_id row
            \<or> \<not> issue_changed c cfg issue s t l row gs gt gl"
    using assms 1 2 3 4 5 6 7 8 by (simp add: d)
  from 1 2 3 4 5 6 7 8 9 show thesis by (rule that)
qed

lemma issue_settled_synthetic:
  assumes "GhIssue cfg = Some issue" "Issue_State issue = Some s" "Issue_Title issue = Some t"
    "Issue_Locked issue = Some l" "select_issue False c cfg = Some p" "synthetic_issue_row p"
  shows "issue_settled c cfg"
proof -
  from assms(6) obtain gs gt gl where "i_state p = Some gs" "i_title p = Some gt"
    "i_locked p = Some gl" and "281474976710656 <s i_event_id p"
    by (auto simp: synthetic_issue_row_def)
  with assms(1-5) show ?thesis by (simp add: issue_settled_def)
qed

lemma select_issue_extended:
  assumes g: "gha_issues c2 = gha_issues c @ added" "\<forall>r\<in>set added. synthetic_issue_row r"
    and ok: "case select_issue False c cfg of None \<Rightarrow> True
             | Some p \<Rightarrow> i_state p \<noteq> None \<and> i_title p \<noteq> None \<and> i_locked p \<noteq> None"
  shows "(select_issue False c2 cfg = select_issue False c cfg
            \<and> (\<forall>r\<in>set added. \<not> (i_id r = IssueID cfg \<and> i_updated_at r = CreatedAt cfg)))
       \<or> (\<exists>p. select_issue False c2 cfg = Some p \<and> synthetic_issue_row p)"
proof -
  let ?K = "\<lambda>r. i_id r = IssueID cfg \<and> i_updated_at r = CreatedAt cfg"
  have sel2: "select_issue False c2 cfg
                = first_issue_row (filter ?K (gha_issues c) @ filter ?K added)"
    by (simp add: select_issue_def g(1))
  have sel: "select_issue False c cfg = first_issue_row (filter ?K (gha_issues c))"
    by (simp add: select_issue_def)
  show ?thesis
  proof (cases "first_issue_row (filter ?K added)")
    case None
    then have "filter ?K added = []" by (simp add: first_issue_row_None)
    then have "\<forall>r\<in>set added. \<not> ?K r" by (simp add: filter_empty_conv)
    moreover have "select_issue False c2 cfg = select_issue False c cfg"
      unfolding sel2 sel first_issue_row_append using None by (simp split: option.splits)
    ultimately show ?thesis by blast
  next
    case (Some b)
    note fb = this
    from first_issue_row_mem [OF fb] have b: "b \<in> set added" "i_updated_at b = CreatedAt cfg"
      by auto
    with g(2) have sb: "synthetic_issue_row b" by blast
    show ?thesis
    proof (cases "first_issue_row (filter ?K (gha_issues c))")
      case None
      then have "select_issue False c2 cfg = Some b"
        unfolding sel2 first_issue_row_append using fb by simp
      with sb show ?thesis by blast
    next
      case (Some a)
      note fa = this
      from first_issue_row_mem [OF fa] have a: "i_updated_at a = CreatedAt cfg" by auto
      have sel2': "select_issue False c2 cfg
                     = (if i_event_id a <s i_event_id b then Some b else Some a)"
        unfolding sel2 first_issue_row_append using fa fb a b(2) by simp
      show ?thesis
      proof (cases "i_event_id a <s i_event_id b")
        case True
        with sel2' sb show ?thesis by auto
      next
        case False
        from sb have "281474976710656 <s i_event_id b" by (simp add: synthetic_issue_row_def)
        with False have "281474976710656 <s i_event_id a" by (simp add: word_sless_alt)
        moreover from ok fa have "i_state a \<noteq> None \<and> i_title a \<noteq> None \<and> i_locked a \<noteq> None"
          by (simp add: sel)
        ultimately have "synthetic_issue_row a" by (simp add: synthetic_issue_row_def)
        with sel2' False show ?thesis by auto
      qed
    qed
  qed
qed

lemma issue_settled_extends:
  assumes "issue_settled c cfg" "extends c c2"
  shows "issue_settled c2 cfg"
  using assms(1)
proof (cases rule: issue_settledE)
  case (Settled issue s t l row gs gt gl)
  from assms(2) obtain added where g: "gha_issues c2 = gha_issues c @ added"
    "\<forall>r\<in>set added. synthetic_issue_row r" unfolding extends_def grows_def by blast
  have ok: "case select_issue False c cfg of None \<Rightarrow> True
             | Some p \<Rightarrow> i_state p \<noteq> None \<and> i_title p \<noteq> None \<and> i_locked p \<noteq> None"
    using Settled by simp
  from select_issue_extended [OF g ok] show ?thesis
  proof (elim disjE conjE exE)
    assume "select_issue False c2 cfg = select_issue False c cfg"
    then have e: "select_issue False c2 cfg = Some row" using Settled(5) by simp
    show ?thesis
    proof (cases "281474976710656 <s i_event_id row")
      case True
      then have "281474976710656 <s i_event_id row
          \<or> \<not> issue_changed c2 cfg issue s t l row gs gt gl" by simp
      with Settled(1-4) e Settled(6-8) show ?thesis by (rule issue_settledI)
    next
      case False
      with Settled(9) have "\<not> issue_changed c cfg issue s t l row gs gt gl" by simp
      then have "281474976710656 <s i_event_id row
          \<or> \<not> issue_changed c2 cfg issue s t l row gs gt gl"
        by (simp add: issue_changed_extends [OF assms(2) False])
      with Settled(1-4) e Settled(6-8) show ?thesis by (rule issue_settledI)
    qed
  next
    fix p assume "select_issue False c2 cfg = Some p" "synthetic_issue_row p"
    with Settled(1-4) show ?thesis by (rule issue_settled_synthetic)
  qed
qed

subsection \<open>The issue worker on a settled candidate, and after a write\<close>

lemma issue_worker_settled:
  assumes "issue_settled c cfg"
  shows "\<exists>b. (b = 1 \<or> b = 2)
           \<and> issue_worker False ctx mh cfg \<lparr> db = c, updates = us \<rparr>
               = Inr (count_update b \<lparr> db = c, updates = us \<rparr>)"
  using assms
proof (cases rule: issue_settledE)
  case (Settled issue s t l row gs gt gl)
  show ?thesis
  proof (cases "281474976710656 <s i_event_id row")
    case True
    have "issue_worker False ctx mh cfg \<lparr> db = c, updates = us \<rparr>
            = Inr (count_update 1 \<lparr> db = c, updates = us \<rparr>)"
      by (simp add: issue_worker_def Settled(1-8) True)
    then show ?thesis by blast
  next
    case False
    with Settled(9) have "\<not> issue_changed c cfg issue s t l row gs gt gl" by simp
    then have "issue_worker False ctx mh cfg \<lparr> db = c, updates = us \<rparr>
            = Inr (count_update 2 \<lparr> db = c, updates = us \<rparr>)"
      by (simp add: issue_worker_def Settled(1-8) False)
    then show ?thesis by blast
  qed
qed

lemma commit_and_count_Inr:
  assumes "commit_and_count w b st = Inr st'"
  shows "\<exists>lg stmts. w = Inr (lg, stmts)
           \<and> st' = count_update b (st \<lparr> db := exec_tx stmts (db st) \<rparr>)"
  using assms by (auto simp: commit_and_count_def split: sum.splits)

lemma db_count_update: "db (count_update b st) = db st"
  by (simp add: count_update_def)

lemma issue_worker_InrE:
  assumes "issue_worker False ctx mh cfg st = Inr st'"
  obtains (Skipped) "issue_settled (db st) cfg" "db st' = db st"
  | (Written) issue s t l lg stmts where
      "GhIssue cfg = Some issue" "Issue_State issue = Some s" "Issue_Title issue = Some t"
      "Issue_Locked issue = Some l"
      "case select_issue False (db st) cfg of None \<Rightarrow> True
       | Some p \<Rightarrow> i_state p \<noteq> None \<and> i_title p \<noteq> None \<and> i_locked p \<noteq> None"
      "ArtificialEvent ctx mh cfg = Inr (lg, stmts)" "db st' = exec_tx stmts (db st)"
proof -
  note d = issue_worker_def
  obtain issue where 1: "GhIssue cfg = Some issue"
    using assms by (cases "GhIssue cfg") (simp_all add: d)
  obtain s where 2: "Issue_State issue = Some s"
    using assms 1 by (cases "Issue_State issue") (simp_all add: d)
  obtain t where 3: "Issue_Title issue = Some t"
    using assms 1 2 by (cases "Issue_Title issue") (simp_all add: d)
  obtain l where 4: "Issue_Locked issue = Some l"
    using assms 1 2 3 by (cases "Issue_Locked issue") (simp_all add: d)
  show thesis
  proof (cases "select_issue False (db st) cfg")
    case None
    with assms 1 2 3 4 have "commit_and_count (ArtificialEvent ctx mh cfg) 0 st = Inr st'"
      by (simp add: d)
    from commit_and_count_Inr [OF this] obtain lg stmts where
      w: "ArtificialEvent ctx mh cfg = Inr (lg, stmts)" "db st' = exec_tx stmts (db st)"
      by (auto simp: db_count_update)
    have "case select_issue False (db st) cfg of None \<Rightarrow> True
       | Some p \<Rightarrow> i_state p \<noteq> None \<and> i_title p \<noteq> None \<and> i_locked p \<noteq> None"
      using None by simp
    with 1 2 3 4 show thesis using w by (rule that(2))
  next
    case (Some row)
    note 5 = this
    obtain gs where 6: "i_state row = Some gs"
      using assms 1 2 3 4 5 by (cases "i_state row") (simp_all add: d)
    obtain gt where 7: "i_title row = Some gt"
      using assms 1 2 3 4 5 6 by (cases "i_title row") (simp_all add: d)
    obtain gl where 8: "i_locked row = Some gl"
      using assms 1 2 3 4 5 6 7 by (cases "i_locked row") (simp_all add: d)
    have ok: "case select_issue False (db st) cfg of None \<Rightarrow> True
       | Some p \<Rightarrow> i_state p \<noteq> None \<and> i_title p \<noteq> None \<and> i_locked p \<noteq> None"
      using 5 6 7 8 by simp
    show thesis
    proof (cases "281474976710656 <s i_event_id row")
      case True
      with assms 1 2 3 4 5 6 7 8 have "st' = count_update 1 st" by (simp add: d)
      then have "db st' = db st" by (simp add: db_count_update)
      moreover have "issue_settled (db st) cfg"
        using 1 2 3 4 5 6 7 8 True by (simp add: issue_settled_def)
      ultimately show thesis by (intro that(1))
    next
      case False
      note syn = this
      show thesis
      proof (cases "issue_changed (db st) cfg issue s t l row gs gt gl")
        case True
        with assms 1 2 3 4 5 6 7 8 syn
        have "commit_and_count (ArtificialEvent ctx mh cfg) 3 st = Inr st'" by (simp add: d)
        from commit_and_count_Inr [OF this] obtain lg stmts where
          w: "ArtificialEvent ctx mh cfg = Inr (lg, stmts)" "db st' = exec_tx stmts (db st)"
          by (auto simp: db_count_update)
        from 1 2 3 4 ok w show thesis by (rule that(2))
      next
        case False
        with assms 1 2 3 4 5 6 7 8 syn have "st' = count_update 2 st" by (simp add: d)
        then have "db st' = db st" by (simp add: db_count_update)
        moreover have "issue_settled (db st) cfg"
          using 1 2 3 4 5 6 7 8 False by (simp add: issue_settled_def)
        ultimately show thesis by (intro that(1))
      qed
    qed
  qed
qed

lemma ArtificialEvent_synthetic:
  assumes "ArtificialEvent ctx mh cfg = Inr (lg, stmts)" "\<not> SkipPDB ctx"
    "real_event_id (EventID cfg)"
    "GhIssue cfg = Some issue" "Issue_State issue = Some s" "Issue_Title issue = Some t"
    "Issue_Locked issue = Some l"
  shows "\<forall>x\<in>set stmts. synthetic_stmt x"
  using assms(1,2)
proof (cases rule: ArtificialEvent_InrE)
  case (Committed issue' event ms)
  from Committed(1) assms(4) have i: "issue' = issue" by simp
  have syn: "281474976710656 <s 281474976710656 + EventID cfg"
    using assms(3) by (simp add: real_event_id_def synthetic_recognised)
  show ?thesis
  proof
    fix x assume "x \<in> set stmts"
    then have x: "x \<in> set (ArtificialEvent_stmts mh cfg issue event ms)"
      by (simp add: Committed(5) i)
    from milestoneStmts_cases [OF Committed(3)]
    have m: "x \<in> set ms \<Longrightarrow> \<exists>a e b. x = Insert_gha_milestones a e b" by auto
    from ArtificialEvent_stmts_cases [OF x] m show "synthetic_stmt x"
      by (auto simp: synthetic_issue_row_def syn assms(5-7))
  qed
qed

lemma ArtificialEvent_row:
  assumes "ArtificialEvent ctx mh cfg = Inr (lg, stmts)" "\<not> SkipPDB ctx"
  shows "\<exists>r. Insert_gha_issues r \<in> set stmts \<and> i_id r = IssueID cfg
           \<and> i_updated_at r = CreatedAt cfg"
  using assms(1,2)
proof (cases rule: ArtificialEvent_InrE)
  case (Committed issue event ms)
  let ?r = "\<lparr> i_id = IssueID cfg, i_event_id = 281474976710656 + EventID cfg,
               i_assignee_id = ghActorIDOrNil (Issue_Assignee issue),
               i_closed_at = Issue_ClosedAt issue,
               i_locked = Issue_Locked issue,
               i_milestone_id = ghMilestoneIDOrNil (Issue_Milestone issue),
               i_state = Issue_State issue,
               i_title = Issue_Title issue,
               i_updated_at = CreatedAt cfg,
               i_user_id = ghActorIDOrNil (Issue_User issue) \<rparr>"
  have "Insert_gha_issues ?r \<in> set stmts"
    by (simp add: Committed(5) ArtificialEvent_stmts_def Let_def)
  moreover have "i_id ?r = IssueID cfg" "i_updated_at ?r = CreatedAt cfg" by simp_all
  ultimately show ?thesis by blast
qed

lemma issue_worker_step:
  assumes "issue_worker False ctx mh cfg st = Inr st'" "\<not> SkipPDB ctx"
    "real_event_id (EventID cfg)"
  shows "extends (db st) (db st') \<and> issue_settled (db st') cfg"
  using assms(1)
proof (cases rule: issue_worker_InrE)
  case Skipped
  then show ?thesis by (simp add: extends_refl)
next
  case (Written issue s t l lg stmts)
  have syn: "\<forall>x\<in>set stmts. synthetic_stmt x"
    by (rule ArtificialEvent_synthetic [OF Written(6) assms(2,3) Written(1-4)])
  then have e: "extends (db st) (db st')" by (simp add: Written(7) exec_tx_extends)
  from exec_tx_gha_issues [of stmts "db st"] obtain added where
    g: "gha_issues (db st') = gha_issues (db st) @ added"
    and a: "set added = {r. Insert_gha_issues r \<in> set stmts}" unfolding Written(7) by blast
  have sa: "\<forall>r\<in>set added. synthetic_issue_row r"
  proof
    fix r assume "r \<in> set added"
    with a have "Insert_gha_issues r \<in> set stmts" by simp
    with syn have "synthetic_stmt (Insert_gha_issues r)" by blast
    then show "synthetic_issue_row r" by simp
  qed
  from ArtificialEvent_row [OF Written(6) assms(2)] a
  have k: "\<exists>r\<in>set added. i_id r = IssueID cfg \<and> i_updated_at r = CreatedAt cfg" by auto
  from select_issue_extended [OF g sa Written(5)] k
  obtain p where "select_issue False (db st') cfg = Some p" "synthetic_issue_row p" by blast
  with Written(1-4) have "issue_settled (db st') cfg" by (rule issue_settled_synthetic)
  with e show ?thesis by simp
qed

lemma issue_worker_SkipPDB:
  assumes "issue_worker manual ctx mh cfg st = Inr st'" "SkipPDB ctx"
  shows "db st' = db st"
proof -
  have w: "commit_and_count (ArtificialEvent ctx mh cfg) b st = Inr st' \<Longrightarrow> db st' = db st" for b
    using assms(2)
    by (auto simp: commit_and_count_def ArtificialEvent_def exec_tx_Nil db_count_update)
  from assms(1) show ?thesis
    by (auto simp: issue_worker_def db_count_update dest: w split: option.splits if_splits)
qed

subsection \<open>A settled pull request\<close>

lemma pr_settledI_collision:
  assumes "PR_ID pr = Some prid" "PR_UpdatedAt pr = Some u" "PR_State pr = Some s"
    "PR_Title pr = Some t" "pr_collision c prid (281474976710656 + EventID ic) u"
  shows "pr_settled c ic pr"
  using assms by (simp add: pr_settled_def)

lemma pr_settledI_row:
  assumes "PR_ID pr = Some prid" "PR_UpdatedAt pr = Some u" "PR_State pr = Some s"
    "PR_Title pr = Some t" "select_pr False c prid u = Some row"
    "p_state row = Some gs" "p_title row = Some gt"
    "281474976710656 <s p_event_id row \<or> pr_changed c ic pr s t row gs gt = Inr False"
  shows "pr_settled c ic pr"
  using assms by (simp add: pr_settled_def)

lemma pr_settledE:
  assumes "pr_settled c ic pr"
  obtains (Collision) prid u s t where
    "PR_ID pr = Some prid" "PR_UpdatedAt pr = Some u" "PR_State pr = Some s"
    "PR_Title pr = Some t" "pr_collision c prid (281474976710656 + EventID ic) u"
  | (Row) prid u s t row gs gt where
    "PR_ID pr = Some prid" "PR_UpdatedAt pr = Some u" "PR_State pr = Some s"
    "PR_Title pr = Some t" "\<not> pr_collision c prid (281474976710656 + EventID ic) u"
    "select_pr False c prid u = Some row"
    "p_state row = Some gs" "p_title row = Some gt"
    "281474976710656 <s p_event_id row \<or> pr_changed c ic pr s t row gs gt = Inr False"
proof -
  note d = pr_settled_def
  obtain prid where 1: "PR_ID pr = Some prid"
    using assms by (cases "PR_ID pr") (simp_all add: d)
  obtain u where 2: "PR_UpdatedAt pr = Some u"
    using assms 1 by (cases "PR_UpdatedAt pr") (simp_all add: d)
  obtain s where 3: "PR_State pr = Some s"
    using assms 1 2 by (cases "PR_State pr") (simp_all add: d)
  obtain t where 4: "PR_Title pr = Some t"
    using assms 1 2 3 by (cases "PR_Title pr") (simp_all add: d)
  show thesis
  proof (cases "pr_collision c prid (281474976710656 + EventID ic) u")
    case True
    with 1 2 3 4 show thesis by (rule that(1))
  next
    case False
    note 5 = this
    obtain row where 6: "select_pr False c prid u = Some row"
      using assms 1 2 3 4 5 by (cases "select_pr False c prid u") (simp_all add: d)
    obtain gs where 7: "p_state row = Some gs"
      using assms 1 2 3 4 5 6 by (cases "p_state row") (simp_all add: d)
    obtain gt where 8: "p_title row = Some gt"
      using assms 1 2 3 4 5 6 7 by (cases "p_title row") (simp_all add: d)
    have 9: "281474976710656 <s p_event_id row \<or> pr_changed c ic pr s t row gs gt = Inr False"
      using assms 1 2 3 4 5 6 7 8 by (simp add: d)
    from 1 2 3 4 5 6 7 8 9 show thesis by (rule that(2))
  qed
qed

lemma pr_settled_synthetic:
  assumes "PR_ID pr = Some prid" "PR_UpdatedAt pr = Some u" "PR_State pr = Some s"
    "PR_Title pr = Some t" "select_pr False c prid u = Some p" "synthetic_pr_row p"
  shows "pr_settled c ic pr"
proof -
  from assms(6) obtain gs gt where "p_state p = Some gs" "p_title p = Some gt"
    and "281474976710656 <s p_event_id p"
    by (auto simp: synthetic_pr_row_def)
  with assms(1-5) show ?thesis by (simp add: pr_settled_def)
qed

lemma pr_collision_grows:
  assumes "pr_collision c prid e u" "gha_pull_requests c2 = gha_pull_requests c @ added"
  shows "pr_collision c2 prid e u"
  using assms by (auto simp: pr_collision_def)

lemma select_pr_extended:
  assumes g: "gha_pull_requests c2 = gha_pull_requests c @ added"
    "\<forall>r\<in>set added. synthetic_pr_row r"
    and ok: "case select_pr False c prid u of None \<Rightarrow> True
             | Some p \<Rightarrow> p_state p \<noteq> None \<and> p_title p \<noteq> None"
  shows "(select_pr False c2 prid u = select_pr False c prid u
            \<and> (\<forall>r\<in>set added. \<not> (p_id r = prid \<and> p_updated_at r = Some u)))
       \<or> (\<exists>p. select_pr False c2 prid u = Some p \<and> synthetic_pr_row p)"
proof -
  let ?K = "\<lambda>r. p_id r = prid \<and> p_updated_at r = Some u"
  have sel2: "select_pr False c2 prid u
                = first_pr_row (filter ?K (gha_pull_requests c) @ filter ?K added)"
    by (simp add: select_pr_def g(1))
  have sel: "select_pr False c prid u = first_pr_row (filter ?K (gha_pull_requests c))"
    by (simp add: select_pr_def)
  show ?thesis
  proof (cases "first_pr_row (filter ?K added)")
    case None
    then have "filter ?K added = []" by (simp add: first_pr_row_None)
    then have "\<forall>r\<in>set added. \<not> ?K r" by (simp add: filter_empty_conv)
    moreover have "select_pr False c2 prid u = select_pr False c prid u"
      unfolding sel2 sel first_pr_row_append using None by (simp split: option.splits)
    ultimately show ?thesis by blast
  next
    case (Some b)
    note fb = this
    from first_pr_row_mem [OF fb] have b: "b \<in> set added" "p_updated_at b = Some u"
      by auto
    with g(2) have sb: "synthetic_pr_row b" by blast
    show ?thesis
    proof (cases "first_pr_row (filter ?K (gha_pull_requests c))")
      case None
      then have "select_pr False c2 prid u = Some b"
        unfolding sel2 first_pr_row_append using fb by simp
      with sb show ?thesis by blast
    next
      case (Some a)
      note fa = this
      from first_pr_row_mem [OF fa] have a: "p_updated_at a = Some u" by auto
      have "pr_row_after a b = (p_event_id a <s p_event_id b)"
        by (simp add: pr_row_after_def a b(2))
      then have sel2': "select_pr False c2 prid u
                     = (if p_event_id a <s p_event_id b then Some b else Some a)"
        unfolding sel2 first_pr_row_append using fa fb by simp
      show ?thesis
      proof (cases "p_event_id a <s p_event_id b")
        case True
        with sel2' sb show ?thesis by auto
      next
        case False
        from sb have "281474976710656 <s p_event_id b" by (simp add: synthetic_pr_row_def)
        with False have "281474976710656 <s p_event_id a" by (simp add: word_sless_alt)
        moreover from ok fa have "p_state a \<noteq> None \<and> p_title a \<noteq> None"
          by (simp add: sel)
        ultimately have "synthetic_pr_row a" by (simp add: synthetic_pr_row_def)
        with sel2' False show ?thesis by auto
      qed
    qed
  qed
qed

lemma pr_settled_extends:
  assumes "pr_settled c ic pr" "extends c c2"
  shows "pr_settled c2 ic pr"
proof -
  from assms(2) obtain added where g: "gha_pull_requests c2 = gha_pull_requests c @ added"
    "\<forall>r\<in>set added. synthetic_pr_row r" unfolding extends_def grows_def by blast
  from assms(1) show ?thesis
  proof (cases rule: pr_settledE)
    case (Collision prid u s t)
    from pr_collision_grows [OF Collision(5) g(1)] Collision(1-4) show ?thesis
      by (simp add: pr_settledI_collision)
  next
    case (Row prid u s t row gs gt)
    have ok: "case select_pr False c prid u of None \<Rightarrow> True
               | Some p \<Rightarrow> p_state p \<noteq> None \<and> p_title p \<noteq> None"
      using Row by simp
    from select_pr_extended [OF g ok] show ?thesis
    proof (elim disjE conjE exE)
      assume "select_pr False c2 prid u = select_pr False c prid u"
      then have e: "select_pr False c2 prid u = Some row" using Row(6) by simp
      show ?thesis
      proof (cases "281474976710656 <s p_event_id row")
        case True
        then have "281474976710656 <s p_event_id row
            \<or> pr_changed c2 ic pr s t row gs gt = Inr False" by simp
        with Row(1-4) e Row(7,8) show ?thesis by (rule pr_settledI_row)
      next
        case False
        with Row(9) have "pr_changed c ic pr s t row gs gt = Inr False" by simp
        then have "281474976710656 <s p_event_id row
            \<or> pr_changed c2 ic pr s t row gs gt = Inr False"
          by (simp add: pr_changed_extends [OF assms(2) False])
        with Row(1-4) e Row(7,8) show ?thesis by (rule pr_settledI_row)
      qed
    next
      fix p assume "select_pr False c2 prid u = Some p" "synthetic_pr_row p"
      with Row(1-4) show ?thesis by (rule pr_settled_synthetic)
    qed
  qed
qed

subsection \<open>The PR worker on a settled pull request, and after a write\<close>

lemma pr_worker_settled:
  assumes "pr_settled c (last ica) pr" "issues iid = Some ica" "ica \<noteq> []"
  shows "\<exists>b. (b = 1 \<or> b = 2 \<or> b = 4)
           \<and> pr_worker False ctx mh issues iid pr \<lparr> db = c, updates = us \<rparr>
               = Inr (count_update b \<lparr> db = c, updates = us \<rparr>)"
  using assms(1)
proof (cases rule: pr_settledE)
  case (Collision prid u s t)
  have "pr_worker False ctx mh issues iid pr \<lparr> db = c, updates = us \<rparr>
          = Inr (count_update 4 \<lparr> db = c, updates = us \<rparr>)"
    by (simp add: pr_worker_def Let_def assms(2,3) Collision)
  then show ?thesis by blast
next
  case (Row prid u s t row gs gt)
  show ?thesis
  proof (cases "281474976710656 <s p_event_id row")
    case True
    have "pr_worker False ctx mh issues iid pr \<lparr> db = c, updates = us \<rparr>
            = Inr (count_update 1 \<lparr> db = c, updates = us \<rparr>)"
      by (simp add: pr_worker_def Let_def assms(2,3) Row(1-8) True)
    then show ?thesis by blast
  next
    case False
    with Row(9) have "pr_changed c (last ica) pr s t row gs gt = Inr False" by simp
    then have "pr_worker False ctx mh issues iid pr \<lparr> db = c, updates = us \<rparr>
            = Inr (count_update 2 \<lparr> db = c, updates = us \<rparr>)"
      by (simp add: pr_worker_def Let_def assms(2,3) Row(1-8) False)
    then show ?thesis by blast
  qed
qed

lemma pr_worker_InrE:
  assumes "pr_worker False ctx mh issues iid pr st = Inr st'"
  obtains (Skipped) ica where "issues iid = Some ica" "ica \<noteq> []"
      "pr_settled (db st) (last ica) pr" "db st' = db st"
  | (Written) ica prid u s t lg stmts where "issues iid = Some ica" "ica \<noteq> []"
      "PR_ID pr = Some prid" "PR_UpdatedAt pr = Some u" "PR_State pr = Some s"
      "PR_Title pr = Some t"
      "case select_pr False (db st) prid u of None \<Rightarrow> True
       | Some p \<Rightarrow> p_state p \<noteq> None \<and> p_title p \<noteq> None"
      "ArtificialPREvent ctx mh (last ica) pr = Inr (lg, stmts)"
      "db st' = exec_tx stmts (db st)"
proof -
  from assms pr_worker_empty [of issues iid False ctx mh pr st]
  obtain ica where i: "issues iid = Some ica" "ica \<noteq> []"
    by (cases "issues iid") auto
  note d = pr_worker_def Let_def
  obtain prid where 1: "PR_ID pr = Some prid"
    using assms i by (cases "PR_ID pr") (simp_all add: d)
  obtain u where 2: "PR_UpdatedAt pr = Some u"
    using assms i 1 by (cases "PR_UpdatedAt pr") (simp_all add: d)
  obtain s where 3: "PR_State pr = Some s"
    using assms i 1 2 by (cases "PR_State pr") (simp_all add: d)
  obtain t where 4: "PR_Title pr = Some t"
    using assms i 1 2 3 by (cases "PR_Title pr") (simp_all add: d)
  show thesis
  proof (cases "pr_collision (db st) prid (281474976710656 + EventID (last ica)) u")
    case True
    with assms i 1 2 3 4 have "st' = count_update 4 st" by (simp add: d)
    then have "db st' = db st" by (simp add: db_count_update)
    moreover have "pr_settled (db st) (last ica) pr"
      using 1 2 3 4 True by (rule pr_settledI_collision)
    ultimately show thesis using i by (intro that(1))
  next
    case False
    note 5 = this
    show thesis
    proof (cases "select_pr False (db st) prid u")
      case None
      with assms i 1 2 3 4 5
      have "commit_and_count (ArtificialPREvent ctx mh (last ica) pr) 0 st = Inr st'"
        by (simp add: d)
      from commit_and_count_Inr [OF this] obtain lg stmts where
        w: "ArtificialPREvent ctx mh (last ica) pr = Inr (lg, stmts)"
        "db st' = exec_tx stmts (db st)"
        by (auto simp: db_count_update)
      have "case select_pr False (db st) prid u of None \<Rightarrow> True
         | Some p \<Rightarrow> p_state p \<noteq> None \<and> p_title p \<noteq> None"
        using None by simp
      with i 1 2 3 4 show thesis using w by (rule that(2))
    next
      case (Some row)
      note 6 = this
      obtain gs where 7: "p_state row = Some gs"
        using assms i 1 2 3 4 5 6 by (cases "p_state row") (simp_all add: d)
      obtain gt where 8: "p_title row = Some gt"
        using assms i 1 2 3 4 5 6 7 by (cases "p_title row") (simp_all add: d)
      have ok: "case select_pr False (db st) prid u of None \<Rightarrow> True
         | Some p \<Rightarrow> p_state p \<noteq> None \<and> p_title p \<noteq> None"
        using 6 7 8 by simp
      show thesis
      proof (cases "281474976710656 <s p_event_id row")
        case True
        with assms i 1 2 3 4 5 6 7 8 have "st' = count_update 1 st" by (simp add: d)
        then have "db st' = db st" by (simp add: db_count_update)
        moreover have "pr_settled (db st) (last ica) pr"
          using 1 2 3 4 6 7 8 True by (simp add: pr_settled_def)
        ultimately show thesis using i by (intro that(1))
      next
        case False
        note syn = this
        obtain ch where 9: "pr_changed (db st) (last ica) pr s t row gs gt = Inr ch"
          using assms i 1 2 3 4 5 6 7 8 syn
          by (cases "pr_changed (db st) (last ica) pr s t row gs gt") (simp_all add: d)
        show thesis
        proof (cases ch)
          case True
          with assms i 1 2 3 4 5 6 7 8 9 syn
          have "commit_and_count (ArtificialPREvent ctx mh (last ica) pr) 3 st = Inr st'"
            by (simp add: d)
          from commit_and_count_Inr [OF this] obtain lg stmts where
            w: "ArtificialPREvent ctx mh (last ica) pr = Inr (lg, stmts)"
            "db st' = exec_tx stmts (db st)"
            by (auto simp: db_count_update)
          from i 1 2 3 4 ok w show thesis by (rule that(2))
        next
          case False
          with assms i 1 2 3 4 5 6 7 8 9 syn have "st' = count_update 2 st" by (simp add: d)
          then have "db st' = db st" by (simp add: db_count_update)
          moreover have "pr_settled (db st) (last ica) pr"
            using 1 2 3 4 6 7 8 9 False by (simp add: pr_settled_def)
          ultimately show thesis using i by (intro that(1))
        qed
      qed
    qed
  qed
qed

lemma ArtificialPREvent_synthetic:
  assumes "ArtificialPREvent ctx mh ic pr = Inr (lg, stmts)" "\<not> SkipPDB ctx"
    "real_event_id (EventID ic)" "PR_State pr = Some s" "PR_Title pr = Some t"
  shows "\<forall>x\<in>set stmts. synthetic_stmt x"
  using assms(1,2)
proof (cases rule: ArtificialPREvent_InrE)
  case (Committed issue iid event prid actor ms)
  have syn: "281474976710656 <s 281474976710656 + EventID ic"
    using assms(3) by (simp add: real_event_id_def synthetic_recognised)
  show ?thesis
  proof
    fix x assume "x \<in> set stmts"
    then have x: "x \<in> set (ArtificialPREvent_stmts mh ic pr iid event prid ms)"
      by (simp add: Committed(8))
    from milestoneStmts_cases [OF Committed(4)]
    have m: "x \<in> set ms \<Longrightarrow> \<exists>a e b. x = Insert_gha_milestones a e b" by auto
    from ArtificialPREvent_stmts_cases [OF x] m show "synthetic_stmt x"
      by (auto simp: synthetic_pr_row_def syn assms(4,5))
  qed
qed

lemma ArtificialPREvent_row:
  assumes "ArtificialPREvent ctx mh ic pr = Inr (lg, stmts)" "\<not> SkipPDB ctx"
    "PR_ID pr = Some prid" "PR_UpdatedAt pr = Some u"
  shows "\<exists>r. Insert_gha_pull_requests r \<in> set stmts \<and> p_id r = prid
           \<and> p_updated_at r = Some u"
  using assms(1,2)
proof (cases rule: ArtificialPREvent_InrE)
  case (Committed issue iid event prid' actor ms)
  from Committed(5) assms(3) have p: "prid' = prid" by simp
  let ?r = "\<lparr> p_id = prid, p_event_id = 281474976710656 + EventID ic,
               p_user_id = ghActorIDOrNil (PR_User pr),
               p_merged_by_id = ghActorIDOrNil (PR_MergedBy pr),
               p_assignee_id = ghActorIDOrNil (PR_Assignee pr),
               p_milestone_id = ghMilestoneIDOrNil (PR_Milestone pr),
               p_state = PR_State pr,
               p_title = PR_Title pr,
               p_updated_at = PR_UpdatedAt pr,
               p_closed_at = PR_ClosedAt pr,
               p_merged_at = PR_MergedAt pr,
               p_merged = PR_Merged pr \<rparr>"
  have "Insert_gha_pull_requests ?r \<in> set stmts"
    by (simp add: Committed(8) p ArtificialPREvent_stmts_def Let_def)
  moreover have "p_id ?r = prid" "p_updated_at ?r = Some u" by (simp_all add: assms(4))
  ultimately show ?thesis by blast
qed

lemma pr_worker_step:
  assumes "pr_worker False ctx mh issues iid pr st = Inr st'" "\<not> SkipPDB ctx"
    "\<And>ica. issues iid = Some ica \<Longrightarrow> ica \<noteq> [] \<Longrightarrow> real_event_id (EventID (last ica))"
  shows "extends (db st) (db st')
    \<and> (\<exists>ica. issues iid = Some ica \<and> ica \<noteq> [] \<and> pr_settled (db st') (last ica) pr)"
  using assms(1)
proof (cases rule: pr_worker_InrE)
  case (Skipped ica)
  then show ?thesis by (simp add: extends_refl)
next
  case (Written ica prid u s t lg stmts)
  have re: "real_event_id (EventID (last ica))" by (rule assms(3) [OF Written(1,2)])
  have syn: "\<forall>x\<in>set stmts. synthetic_stmt x"
    by (rule ArtificialPREvent_synthetic [OF Written(8) assms(2) re Written(5,6)])
  then have e: "extends (db st) (db st')" by (simp add: Written(9) exec_tx_extends)
  from exec_tx_gha_pull_requests [of stmts "db st"] obtain added where
    g: "gha_pull_requests (db st') = gha_pull_requests (db st) @ added"
    and a: "set added = {r. Insert_gha_pull_requests r \<in> set stmts}"
    unfolding Written(9) by blast
  have sa: "\<forall>r\<in>set added. synthetic_pr_row r"
  proof
    fix r assume "r \<in> set added"
    with a have "Insert_gha_pull_requests r \<in> set stmts" by simp
    with syn have "synthetic_stmt (Insert_gha_pull_requests r)" by blast
    then show "synthetic_pr_row r" by simp
  qed
  from ArtificialPREvent_row [OF Written(8) assms(2) Written(3,4)] a
  have k: "\<exists>r\<in>set added. p_id r = prid \<and> p_updated_at r = Some u" by auto
  from select_pr_extended [OF g sa Written(7)] k
  obtain p where "select_pr False (db st') prid u = Some p" "synthetic_pr_row p" by blast
  with Written(3-6) have "pr_settled (db st') (last ica) pr" by (rule pr_settled_synthetic)
  with e Written(1,2) show ?thesis by simp
qed

lemma pr_worker_SkipPDB:
  assumes "pr_worker manual ctx mh issues iid pr st = Inr st'" "SkipPDB ctx"
  shows "db st' = db st"
proof -
  have w: "commit_and_count (ArtificialPREvent ctx mh ic pr) b st = Inr st' \<Longrightarrow> db st' = db st"
    for b ic
    using assms(2)
    by (auto simp: commit_and_count_def ArtificialPREvent_def exec_tx_Nil db_count_update)
  from assms(1) show ?thesis
    by (auto simp: pr_worker_def Let_def db_count_update dest: w
        split: option.splits if_splits sum.splits)
qed

subsection \<open>A phase of workers\<close>

lemma run_workers_settles:
  assumes "run_workers w xs st = Inr st'"
    and "\<And>x s s'. x \<in> set xs \<Longrightarrow> w x s = Inr s' \<Longrightarrow> extends (db s) (db s') \<and> P x (db s')"
    and stable: "\<And>x c c2. P x c \<Longrightarrow> extends c c2 \<Longrightarrow> P x c2"
  shows "extends (db st) (db st') \<and> (\<forall>x\<in>set xs. P x (db st'))"
  using assms(1,2)
proof (induction xs arbitrary: st)
  case Nil
  then show ?case by (simp add: extends_refl)
next
  case (Cons y ys)
  from Cons.prems(1) obtain s1 where y: "w y st = Inr s1"
    and r: "run_workers w ys s1 = Inr st'"
    by (auto split: sum.splits)
  have 1: "extends (db st) (db s1) \<and> P y (db s1)"
    using Cons.prems(2) [of y st s1] y by simp
  have ih: "extends (db s1) (db st') \<and> (\<forall>x\<in>set ys. P x (db st'))"
  proof (rule Cons.IH [OF r])
    fix x s s' assume "x \<in> set ys" "w x s = Inr s'"
    then show "extends (db s) (db s') \<and> P x (db s')"
      using Cons.prems(2) [of x s s'] by simp
  qed
  from 1 ih have "extends (db st) (db st')" by (blast intro: extends_trans)
  moreover from 1 ih have "P y (db st')" by (blast intro: stable)
  ultimately show ?case using ih by simp
qed

lemma run_workers_settled:
  assumes "\<And>x us. x \<in> set xs \<Longrightarrow>
             \<exists>b. b \<noteq> 0 \<and> b \<noteq> 3
               \<and> w x \<lparr> db = c, updates = us \<rparr> = Inr (count_update b \<lparr> db = c, updates = us \<rparr>)"
  shows "\<exists>us'. run_workers w xs \<lparr> db = c, updates = us \<rparr> = Inr \<lparr> db = c, updates = us' \<rparr>
           \<and> us' ! 0 = us ! 0 \<and> us' ! 3 = us ! 3"
  using assms
proof (induction xs arbitrary: us)
  case Nil
  show ?case by simp
next
  case (Cons y ys)
  from Cons.prems [of y us] obtain b where b: "b \<noteq> 0" "b \<noteq> 3"
    and y: "w y \<lparr> db = c, updates = us \<rparr> = Inr (count_update b \<lparr> db = c, updates = us \<rparr>)"
    by auto
  have cu: "count_update b \<lparr> db = c, updates = us \<rparr> = \<lparr> db = c, updates = us[b := us ! b + 1] \<rparr>"
    by (simp add: count_update_def)
  have "\<exists>us'. run_workers w ys \<lparr> db = c, updates = us[b := us ! b + 1] \<rparr>
                 = Inr \<lparr> db = c, updates = us' \<rparr>
           \<and> us' ! 0 = (us[b := us ! b + 1]) ! 0 \<and> us' ! 3 = (us[b := us ! b + 1]) ! 3"
  proof (rule Cons.IH)
    fix x us0 assume "x \<in> set ys"
    then show "\<exists>b. b \<noteq> 0 \<and> b \<noteq> 3
               \<and> w x \<lparr> db = c, updates = us0 \<rparr> = Inr (count_update b \<lparr> db = c, updates = us0 \<rparr>)"
      using Cons.prems [of x us0] by simp
  qed
  then obtain us' where
    r: "run_workers w ys \<lparr> db = c, updates = us[b := us ! b + 1] \<rparr> = Inr \<lparr> db = c, updates = us' \<rparr>"
    and n: "us' ! 0 = (us[b := us ! b + 1]) ! 0" "us' ! 3 = (us[b := us ! b + 1]) ! 3"
    by blast
  from n b have "us' ! 0 = us ! 0" "us' ! 3 = us ! 3" by simp_all
  moreover have "run_workers w (y # ys) \<lparr> db = c, updates = us \<rparr> = Inr \<lparr> db = c, updates = us' \<rparr>"
    using r by (simp add: y cu)
  ultimately show ?case by blast
qed

lemma run_workers_db:
  assumes "run_workers w xs st = Inr st'" "\<And>x s s'. w x s = Inr s' \<Longrightarrow> db s' = db s"
  shows "db st' = db st"
  using assms(1)
proof (induction xs arbitrary: st)
  case Nil
  then show ?case by simp
next
  case (Cons y ys)
  from Cons.prems obtain s1 where y: "w y st = Inr s1"
    and r: "run_workers w ys s1 = Inr st'"
    by (auto split: sum.splits)
  from Cons.IH [OF r] assms(2) [OF y] show ?case by simp
qed

lemma normalize_issues_subset: "set (normalize_issues ary) \<subseteq> set ary"
proof
  fix r assume "r \<in> set (normalize_issues ary)"
  then have "r \<in> set (sort_Sort ary)"
    unfolding normalize_issues_def by (simp add: leave_final_state_mem)
  moreover have "set (sort_Sort ary) = set ary"
    using sort_Sort_result [of ary] unfolding Sort_result_def by (blast dest: mset_eq_setD)
  ultimately show "r \<in> set ary" by simp
qed

lemma normalized_batch_candidates:
  assumes "\<forall>(iid, ary)\<in>set issues. \<forall>cfg\<in>set ary. P cfg"
    and "(iid, ica) \<in> set (normalized_batch False issues)" "cfg \<in> set ica"
  shows "P cfg"
proof -
  from assms(2) obtain ary where a: "(iid, ary) \<in> set issues" "ica = normalize_issues ary"
    by (auto simp: normalized_batch_def)
  with assms(3) normalize_issues_subset [of ary] have "cfg \<in> set ary" by blast
  with assms(1) a(1) show ?thesis by blast
qed

subsection \<open>Running the orchestrator twice without manual mode\<close>

text \<open>
  C3. In non-manual mode, with the workers running one after the other and every candidate
  carrying a real event id \<open>e\<close> with \<open>0 < e < 2^63 - 2^48\<close>: when a run of
  \<^verbatim>\<open>SyncIssuesState\<close> ends normally, a second run on the same batch against the database
  that the first run left ends normally too and leaves that database as it is. Unless the
  writes are switched off, the second run calls no writer: it counts nothing in bucket 0
  (not found) and nothing in bucket 3 (changed), of issues and of pull requests.
\<close>

theorem C3_second_run_writes_nothing:
  assumes "SyncIssuesState ctx maybeHide c issues prs False = Inr (u1, u2, c')"
    and "\<forall>(iid, ary)\<in>set issues. \<forall>cfg\<in>set ary. real_event_id (EventID cfg)"
  shows "\<exists>u1' u2'. SyncIssuesState ctx maybeHide c' issues prs False = Inr (u1', u2', c')
           \<and> (\<not> SkipPDB ctx \<longrightarrow> u1' ! 0 = 0 \<and> u1' ! 3 = 0 \<and> u2' ! 0 = 0 \<and> u2' ! 3 = 0)"
  using assms(1)
proof (cases rule: SyncIssuesState_InrE)
  case (Ran st1 st2)
  let ?B = "normalized_batch False issues"
  let ?I = "concat (map snd ?B)"
  let ?w1 = "issue_worker False ctx maybeHide"
  let ?w2 = "\<lambda>(iid, pr). pr_worker False ctx maybeHide (map_of ?B) iid pr"
  from Ran(3) have c': "c' = db st2" and u: "u1 = updates st1" "u2 = updates st2" by simp_all
  show ?thesis
  proof (cases "SkipPDB ctx")
    case True
    have "db st1 = db \<lparr> db = c, updates = [0, 0, 0, 0] \<rparr>"
      by (rule run_workers_db [OF Ran(1)]) (rule issue_worker_SkipPDB [OF _ True])
    moreover have "db st2 = db \<lparr> db = db st1, updates = [0, 0, 0, 0, 0] \<rparr>"
      by (rule run_workers_db [OF Ran(2)]) (auto dest: pr_worker_SkipPDB [OF _ True])
    ultimately have "c' = c" by (simp add: c')
    with assms(1) True show ?thesis by simp
  next
    case False
    have re1: "real_event_id (EventID cfg)" if "cfg \<in> set ?I" for cfg
    proof -
      from that obtain iid ica where "(iid, ica) \<in> set ?B" "cfg \<in> set ica" by auto
      then show ?thesis
        by (rule normalized_batch_candidates [where P = "\<lambda>cfg. real_event_id (EventID cfg)",
              OF assms(2)])
    qed
    have re2: "real_event_id (EventID (last ica))"
      if "map_of ?B iid = Some ica" "ica \<noteq> []" for iid ica
    proof -
      from that(1) have "(iid, ica) \<in> set ?B" by (rule map_of_SomeD)
      moreover from that(2) have "last ica \<in> set ica" by simp
      ultimately show ?thesis
        by (rule normalized_batch_candidates [where P = "\<lambda>cfg. real_event_id (EventID cfg)",
              OF assms(2)])
    qed
    have A: "extends (db \<lparr> db = c, updates = [0, 0, 0, 0] \<rparr>) (db st1)
               \<and> (\<forall>cfg\<in>set ?I. issue_settled (db st1) cfg)"
    proof (rule run_workers_settles [OF Ran(1), where P = "\<lambda>cfg c. issue_settled c cfg"])
      fix x s s' assume "x \<in> set ?I" "?w1 x s = Inr s'"
      then show "extends (db s) (db s') \<and> issue_settled (db s') x"
        using issue_worker_step [OF _ False re1] by blast
    next
      fix x c1 c2 assume "issue_settled c1 x" "extends c1 c2"
      then show "issue_settled c2 x" by (rule issue_settled_extends)
    qed
    let ?Q = "\<lambda>x c. \<exists>ica. map_of ?B (fst x) = Some ica \<and> ica \<noteq> []
                       \<and> pr_settled c (last ica) (snd x)"
    have B: "extends (db \<lparr> db = db st1, updates = [0, 0, 0, 0, 0] \<rparr>) (db st2)
               \<and> (\<forall>x\<in>set prs. ?Q x (db st2))"
    proof (rule run_workers_settles [OF Ran(2), where P = ?Q])
      fix x s s' assume "x \<in> set prs" "?w2 x s = Inr s'"
      then have "pr_worker False ctx maybeHide (map_of ?B) (fst x) (snd x) s = Inr s'"
        by (simp add: case_prod_beta)
      then show "extends (db s) (db s') \<and> ?Q x (db s')"
        using False by (rule pr_worker_step) (rule re2)
    next
      fix x c1 c2 assume "?Q x c1" "extends c1 c2"
      then show "?Q x c2" by (blast intro: pr_settled_extends)
    qed
    from A B have C: "\<forall>cfg\<in>set ?I. issue_settled c' cfg"
      unfolding c' by (auto intro: issue_settled_extends)
    from B have D: "\<forall>x\<in>set prs. ?Q x c'" unfolding c' by simp
    have "\<exists>us'. run_workers ?w1 ?I \<lparr> db = c', updates = [0, 0, 0, 0] \<rparr>
                   = Inr \<lparr> db = c', updates = us' \<rparr>
             \<and> us' ! 0 = [0, 0, 0, 0] ! 0 \<and> us' ! 3 = [0, 0, 0, 0] ! 3"
    proof (rule run_workers_settled)
      fix x us assume "x \<in> set ?I"
      with C have "issue_settled c' x" by blast
      from issue_worker_settled [OF this, of ctx maybeHide us] obtain b where
        "b = 1 \<or> b = 2"
        "?w1 x \<lparr> db = c', updates = us \<rparr> = Inr (count_update b \<lparr> db = c', updates = us \<rparr>)"
        by blast
      moreover from this(1) have "b \<noteq> 0" "b \<noteq> 3" by auto
      ultimately show "\<exists>b. b \<noteq> 0 \<and> b \<noteq> 3
               \<and> ?w1 x \<lparr> db = c', updates = us \<rparr> = Inr (count_update b \<lparr> db = c', updates = us \<rparr>)"
        by blast
    qed
    then obtain us1 where r1: "run_workers ?w1 ?I \<lparr> db = c', updates = [0, 0, 0, 0] \<rparr>
                   = Inr \<lparr> db = c', updates = us1 \<rparr>"
      and n1: "us1 ! 0 = 0" "us1 ! 3 = 0" by auto
    have "\<exists>us'. run_workers ?w2 prs \<lparr> db = c', updates = [0, 0, 0, 0, 0] \<rparr>
                   = Inr \<lparr> db = c', updates = us' \<rparr>
             \<and> us' ! 0 = [0, 0, 0, 0, 0] ! 0 \<and> us' ! 3 = [0, 0, 0, 0, 0] ! 3"
    proof (rule run_workers_settled)
      fix x us assume "x \<in> set prs"
      with D obtain ica where i: "map_of ?B (fst x) = Some ica" "ica \<noteq> []"
        and s: "pr_settled c' (last ica) (snd x)" by blast
      from pr_worker_settled [of c' ica "snd x" "map_of ?B" "fst x" ctx maybeHide us, OF s i]
      obtain b where
        "b = 1 \<or> b = 2 \<or> b = 4"
        "pr_worker False ctx maybeHide (map_of ?B) (fst x) (snd x) \<lparr> db = c', updates = us \<rparr>
           = Inr (count_update b \<lparr> db = c', updates = us \<rparr>)"
        by blast
      moreover from this(1) have "b \<noteq> 0" "b \<noteq> 3" by auto
      moreover have "?w2 x = pr_worker False ctx maybeHide (map_of ?B) (fst x) (snd x)"
        by (simp add: case_prod_beta)
      ultimately show "\<exists>b. b \<noteq> 0 \<and> b \<noteq> 3
               \<and> ?w2 x \<lparr> db = c', updates = us \<rparr> = Inr (count_update b \<lparr> db = c', updates = us \<rparr>)"
        by metis
    qed
    then obtain us2 where r2: "run_workers ?w2 prs \<lparr> db = c', updates = [0, 0, 0, 0, 0] \<rparr>
                   = Inr \<lparr> db = c', updates = us2 \<rparr>"
      and n2: "us2 ! 0 = 0" "us2 ! 3 = 0" by auto
    have "SyncIssuesState ctx maybeHide c' issues prs False = Inr (us1, us2, c')"
      by (simp add: SyncIssuesState_def Let_def r1 r2)
    with n1 n2 show ?thesis by blast
  qed
qed

lemma normalize_issues_single: "normalize_issues [x] = [x]"
  by (simp add: normalize_issues_def sort_Sort_def leave_final_state_def final_state_map_def)

lemma first_run_ex:
  "SyncIssuesState ex_ctx id ex_empty [(100, [ex_cfg])] [(100, ex_pr)] False
     = Inr ([1, 0, 0, 0], [1, 0, 0, 0, 0], ex_synced)"
proof -
  have c: "GhIssue ex_cfg = Some ex_issue" "IssueID ex_cfg = 100"
    by (simp_all add: ex_cfg_def)
  have i: "Issue_State ex_issue = Some ''open''" "Issue_Title ex_issue = Some ''A''"
    "Issue_Locked ex_issue = Some False"
    by (simp_all add: ex_issue_def)
  have p: "PR_ID ex_pr = Some 500" "PR_UpdatedAt ex_pr = Some 1704067200000000000"
    "PR_State ex_pr = Some ''open''" "PR_Title ex_pr = Some ''A''"
    by (simp_all add: ex_pr_def)
  let ?c1 = "exec_tx (stmts_of (ArtificialEvent ex_ctx id ex_cfg)) ex_empty"
  have w1: "ArtificialEvent ex_ctx id ex_cfg
             = Inr ([], stmts_of (ArtificialEvent ex_ctx id ex_cfg))"
    by (simp add: stmts_of_def run_ex_cfg)
  have w2: "ArtificialPREvent ex_ctx id ex_cfg ex_pr
             = Inr ([], stmts_of (ArtificialPREvent ex_ctx id ex_cfg ex_pr))"
    by (simp add: stmts_of_def run_ex_pr)
  have 1: "issue_worker False ex_ctx id ex_cfg \<lparr> db = ex_empty, updates = [0, 0, 0, 0] \<rparr>
             = Inr \<lparr> db = ?c1, updates = [1, 0, 0, 0] \<rparr>"
    apply (simp add: issue_worker_def c i select_issue_def ex_empty_def)
    apply (subst w1)
    apply (simp add: commit_and_count_def count_update_def ex_empty_def)
    done
  have e: "gha_pull_requests ?c1 = []"
    by (simp add: stmts_of_def run_ex_cfg exec_tx_def ex_empty_def insert_if_absent_def)
  have 2: "pr_worker False ex_ctx id [100 \<mapsto> [ex_cfg]] 100 ex_pr
               \<lparr> db = ?c1, updates = [0, 0, 0, 0, 0] \<rparr>
             = Inr \<lparr> db = ex_synced, updates = [1, 0, 0, 0, 0] \<rparr>"
    apply (simp add: pr_worker_def p pr_collision_def select_pr_def e)
    apply (subst w2)
    apply (simp add: commit_and_count_def count_update_def ex_synced_def)
    done
  show ?thesis
    by (simp add: SyncIssuesState_def normalized_batch_def normalize_issues_single 1 2)
qed

theorem C3_second_run_writes_nothing_witness:
  "SyncIssuesState ex_ctx id ex_empty [(100, [ex_cfg])] [(100, ex_pr)] False
     = Inr ([1, 0, 0, 0], [1, 0, 0, 0, 0], ex_synced)
   \<and> real_event_id (EventID ex_cfg)
   \<and> \<not> SkipPDB ex_ctx
   \<and> (\<exists>u1' u2'. SyncIssuesState ex_ctx id ex_synced [(100, [ex_cfg])] [(100, ex_pr)] False
                   = Inr (u1', u2', ex_synced)
         \<and> u1' ! 0 = 0 \<and> u1' ! 3 = 0 \<and> u2' ! 0 = 0 \<and> u2' ! 3 = 0)"
proof -
  have re: "real_event_id (EventID ex_cfg)"
    by (simp add: real_event_id_def ex_cfg_def word_sless_alt)
  then have all: "\<forall>(iid, ary)\<in>set [(100 :: int64, [ex_cfg])]. \<forall>cfg\<in>set ary.
                    real_event_id (EventID cfg)"
    by simp
  have s: "\<not> SkipPDB ex_ctx" by (simp add: ex_ctx_def)
  from C3_second_run_writes_nothing [OF first_run_ex all] s re first_run_ex
  show ?thesis by simp
qed

end
